(* ===== verification/Prelude.thy ===== *)
theory Prelude
  imports Complex_Main "HOL-Library.Word" "HOL-Library.State_Monad"
begin

text \<open>
  What every component shares: decimal printing and parsing of integers as Go's
  \<^verbatim>\<open>fmt.Sprintf("%d")\<close> and \<^verbatim>\<open>strconv.Atoi\<close> do it, \<^verbatim>\<open>strings.Join\<close>, and the program
  logic for effectful code.

  Effectful code is written in the state monad of the library over a log of events, newest
  event first. The judgement \<open>runs h m R\<close> says: started with log \<open>h\<close>, \<open>m\<close> appends some
  events \<open>es\<close> and returns \<open>x\<close> such that \<open>R es x\<close>. The judgement \<open>emits E m Q\<close> is its
  everyday instance: every event \<open>m\<close> appends satisfies \<open>E\<close> and the returned value
  satisfies \<open>Q\<close>, whatever the log was.
\<close>

named_theorems emit_rules \<open>rules of the \<open>emits\<close> judgement, one per construct or operation\<close>

section \<open>Decimal numbers\<close>

fun digit_char :: "nat \<Rightarrow> char" where
  "digit_char d = char_of (48 + d)"

fun dec_nat :: "nat \<Rightarrow> string" where
  "dec_nat n = (if n < 10 then [digit_char n] else dec_nat (n div 10) @ [digit_char (n mod 10)])"

declare dec_nat.simps [simp del]

definition dec_int :: "int \<Rightarrow> string" where
  "dec_int i = (if i < 0 then CHR ''-'' # dec_nat (nat (- i)) else dec_nat (nat i))"

definition is_digit :: "char \<Rightarrow> bool" where
  "is_digit c \<longleftrightarrow> 48 \<le> (of_char c :: nat) \<and> (of_char c :: nat) \<le> 57"

definition digit_val :: "char \<Rightarrow> nat" where
  "digit_val c = of_char c - 48"

fun digits_val :: "nat \<Rightarrow> string \<Rightarrow> nat" where
  "digits_val acc [] = acc"
| "digits_val acc (c # cs) = digits_val (10 * acc + digit_val c) cs"

lemma digit_char_props:
  assumes "d < 10"
  shows "is_digit (digit_char d)" "digit_val (digit_char d) = d"
  using assms by (auto simp: is_digit_def digit_val_def of_char_of)

lemma dec_nat_nonempty [simp]: "dec_nat n \<noteq> []"
  by (subst dec_nat.simps) simp

lemma dec_nat_digits: "list_all is_digit (dec_nat n)"
proof (induction n rule: dec_nat.induct)
  case (1 n)
  then show ?case
    by (subst dec_nat.simps) (auto simp: digit_char_props simp del: digit_char.simps)
qed

lemma digits_val_append: "digits_val acc (xs @ ys) = digits_val (digits_val acc xs) ys"
  by (induction xs arbitrary: acc) auto

lemma digits_val_dec_nat: "digits_val 0 (dec_nat n) = n"
proof (induction n rule: dec_nat.induct)
  case (1 n)
  then show ?case
    by (subst dec_nat.simps)
      (auto simp: digits_val_append digit_char_props simp del: digit_char.simps)
qed

lemma dec_nat_inject [simp]: "dec_nat m = dec_nat n \<longleftrightarrow> m = n"
  by (metis digits_val_dec_nat)

lemma hd_dec_nat: "is_digit (hd (dec_nat n))"
  using dec_nat_digits [of n] by (cases "dec_nat n") auto

section \<open>The number of bits of a natural number\<close>

fun nbits :: "nat \<Rightarrow> nat" where
  "nbits n = (if n = 0 then 0 else Suc (nbits (n div 2)))"

declare nbits.simps [simp del]

lemma nbits_bounds: "0 < n \<Longrightarrow> 2 ^ (nbits n - 1) \<le> n \<and> n < 2 ^ nbits n \<and> 0 < nbits n"
proof (induction n rule: nbits.induct)
  case (1 n)
  show ?case
  proof (cases "n div 2 = 0")
    case True
    with 1 have "n = 1" by simp
    then show ?thesis by (simp add: nbits.simps)
  next
    case False
    with 1 have ih: "2 ^ (nbits (n div 2) - 1) \<le> n div 2" "n div 2 < 2 ^ nbits (n div 2)"
      "0 < nbits (n div 2)" by auto
    then obtain k where k: "nbits (n div 2) = Suc k" by (cases "nbits (n div 2)") auto
    have "nbits n = Suc (nbits (n div 2))" using 1(2) by (subst nbits.simps) simp
    moreover have "2 * 2 ^ k \<le> 2 * (n div 2)" "2 * (n div 2 + 1) \<le> 2 * 2 ^ Suc k"
      using ih k by simp_all
    moreover have "2 * (n div 2) \<le> n" "n < 2 * (n div 2 + 1)" by simp_all
    ultimately have "nbits n = Suc (Suc k) \<and> 2 ^ Suc k \<le> n \<and> n < 2 ^ Suc (Suc k)"
      using k by (simp only: power_Suc) linarith
    then show ?thesis by simp
  qed
qed

section \<open>Joining strings\<close>

fun str_join :: "string list \<Rightarrow> string \<Rightarrow> string" where
  "str_join [] sep = ''''"
| "str_join [x] sep = x"
| "str_join (x # y # xs) sep = x @ sep @ str_join (y # xs) sep"

section \<open>Updating a list in place\<close>

lemma map_list_update_same:
  "i < length xs \<Longrightarrow> f x = f (xs ! i) \<Longrightarrow> map f (xs[i := x]) = map f xs"
  by (metis length_map list_update_id map_update nth_map)

section \<open>The program logic\<close>

abbreviation ret :: "'a \<Rightarrow> ('s, 'a) state" where
  "ret \<equiv> State_Monad.return"

lemma run_bind_lazy: "run_state (State_Monad.bind m f) h = (case run_state m h of (x, h') \<Rightarrow> run_state (f x) h')"
  by (simp add: State_Monad.bind_def split: prod.splits)

definition runs :: "'e list \<Rightarrow> ('e list, 'a) state \<Rightarrow> ('e list \<Rightarrow> 'a \<Rightarrow> bool) \<Rightarrow> bool" where
  "runs h m R \<longleftrightarrow> (\<exists>es. snd (run_state m h) = es @ h \<and> R es (fst (run_state m h)))"

definition emits :: "('e \<Rightarrow> bool) \<Rightarrow> ('e list, 'a) state \<Rightarrow> ('a \<Rightarrow> bool) \<Rightarrow> bool" where
  "emits E m Q \<longleftrightarrow> (\<forall>h. runs h m (\<lambda>es x. list_all E es \<and> Q x))"

text \<open>Appending one event to the log.\<close>

definition emit :: "'e \<Rightarrow> ('e list, unit) state" where
  "emit e = State (\<lambda>h. ((), e # h))"

lemma run_emit [simp]: "run_state (emit e) h = ((), e # h)"
  by (simp add: emit_def)

text \<open>A call whose answer the environment chooses from the log so far.\<close>

definition ask :: "('e list \<Rightarrow> 'a) \<Rightarrow> ('a \<Rightarrow> 'e) \<Rightarrow> ('e list, 'a) state" where
  "ask resp ev = State (\<lambda>h. (resp h, ev (resp h) # h))"

lemma run_ask [simp]: "run_state (ask resp ev) h = (resp h, ev (resp h) # h)"
  by (simp add: ask_def)

lemma runs_ret: "R [] x \<Longrightarrow> runs h (ret x) R"
  by (simp add: runs_def)

lemma runs_emit: "R [e] () \<Longrightarrow> runs h (emit e) R"
  by (simp add: runs_def)

lemma runs_ask: "R [ev (resp h)] (resp h) \<Longrightarrow> runs h (ask resp ev) R"
  by (simp add: runs_def)

lemma runs_bind:
  assumes "runs h m R"
    and "\<And>es x. R es x \<Longrightarrow> runs (es @ h) (f x) (\<lambda>es' y. Q (es' @ es) y)"
  shows "runs h (m \<bind> f) Q"
proof -
  obtain x h' where m: "run_state m h = (x, h')" by fastforce
  with assms(1) obtain es where es: "h' = es @ h" "R es x" by (auto simp: runs_def)
  from assms(2) [OF es(2)] show ?thesis
    using m es(1) by (auto simp: runs_def)
qed

lemma runs_conseq: "runs h m R \<Longrightarrow> (\<And>es x. R es x \<Longrightarrow> Q es x) \<Longrightarrow> runs h m Q"
  by (auto simp: runs_def)

lemma runs_self: "runs h m R \<Longrightarrow> runs h m (\<lambda>es x. R es x \<and> run_state m h = (x, es @ h))"
  by (auto simp: runs_def prod_eq_iff)

lemma emits_run: "emits E m R \<Longrightarrow> (\<And>h x h'. run_state m h = (x, h') \<Longrightarrow> R x \<Longrightarrow> Q x) \<Longrightarrow> emits E m Q"
  unfolding emits_def runs_def by (metis prod.collapse)

lemma emits_ret [emit_rules]: "Q x \<Longrightarrow> emits E (ret x) Q"
  by (simp add: emits_def runs_ret)

lemma emits_emit [emit_rules]: "E e \<Longrightarrow> Q () \<Longrightarrow> emits E (emit e) Q"
  by (simp add: emits_def runs_emit)

lemma emits_ask: "(\<And>x. E (ev x) \<and> Q x) \<Longrightarrow> emits E (ask resp ev) Q"
  by (simp add: emits_def runs_ask)

lemma emits_bind:
  assumes "emits E m R" and "\<And>x. R x \<Longrightarrow> emits E (f x) Q"
  shows "emits E (m \<bind> f) Q"
  unfolding emits_def
proof
  fix h
  show "runs h (m \<bind> f) (\<lambda>es x. list_all E es \<and> Q x)"
  proof (rule runs_bind)
    show "runs h m (\<lambda>es x. list_all E es \<and> R x)"
      using assms(1) by (simp add: emits_def)
  next
    fix es x
    assume "list_all E es \<and> R x"
    with assms(2) [of x]
    show "runs (es @ h) (f x) (\<lambda>es' y. list_all E (es' @ es) \<and> Q y)"
      by (auto simp: emits_def elim!: runs_conseq [of "es @ h" "f x"])
  qed
qed

lemma emits_bind_True:
  assumes "emits E m (\<lambda>_. True)" and "\<And>x. emits E (f x) Q"
  shows "emits E (m \<bind> f) Q"
  using assms by (rule emits_bind)

lemma emits_conseq:
  "emits E m R \<Longrightarrow> (\<And>e. E e \<Longrightarrow> F e) \<Longrightarrow> (\<And>x. R x \<Longrightarrow> Q x) \<Longrightarrow> emits F m Q"
  unfolding emits_def by (blast intro: runs_conseq list.pred_mono_strong)

lemma emits_if [emit_rules]:
  "(b \<Longrightarrow> emits E m Q) \<Longrightarrow> (\<not> b \<Longrightarrow> emits E m' Q) \<Longrightarrow> emits E (if b then m else m') Q"
  by simp

lemma emits_case_option [emit_rules]:
  "(x = None \<Longrightarrow> emits E m Q) \<Longrightarrow> (\<And>y. x = Some y \<Longrightarrow> emits E (f y) Q) \<Longrightarrow>
    emits E (case x of None \<Rightarrow> m | Some y \<Rightarrow> f y) Q"
  by (cases x) auto

lemma emits_case_sum [emit_rules]:
  "(\<And>a. x = Inl a \<Longrightarrow> emits E (f a) Q) \<Longrightarrow> (\<And>b. x = Inr b \<Longrightarrow> emits E (g b) Q) \<Longrightarrow>
    emits E (case x of Inl a \<Rightarrow> f a | Inr b \<Rightarrow> g b) Q"
  by (cases x) auto

lemma emits_case_prod [emit_rules]:
  "(\<And>a b. x = (a, b) \<Longrightarrow> emits E (f a b) Q) \<Longrightarrow> emits E (case x of (a, b) \<Rightarrow> f a b) Q"
  by (cases x) auto

lemma emits_let [emit_rules]: "emits E (f x) Q \<Longrightarrow> emits E (let y = x in f y) Q"
  by simp

lemma emitsD:
  assumes "emits E m Q" and "run_state m h = (x, h')"
  shows "\<exists>es. h' = es @ h \<and> list_all E es \<and> Q x"
  using assms unfolding emits_def runs_def by (metis fst_conv snd_conv)

end
