(* ===== verification/GoTime.thy ===== *)
theory GoTime
  imports Prelude
begin

text \<open>
  The arithmetic of Go's \<^verbatim>\<open>time\<close> package and of \<^verbatim>\<open>float64\<close> that the program uses.
  A \<^verbatim>\<open>time.Duration\<close> is an \<^verbatim>\<open>int64\<close> number of nanoseconds, so a 64-bit word read by
  \<open>sint\<close>: sums and negations wrap. A \<^verbatim>\<open>time.Time\<close> is an integer number of nanoseconds
  since the Unix epoch; its \<^verbatim>\<open>Add\<close> is exact (the wall clock of a Kubernetes timestamp lies
  between the years 0 and 9999 and a duration spans 292 years, far inside the range of
  \<^verbatim>\<open>time.Time\<close>) and its \<^verbatim>\<open>Sub\<close> saturates. A \<^verbatim>\<open>float64\<close> is the rational it denotes;
  each operation is the exact one followed by the IEEE 754 rounding to nearest, ties to
  even, with a 53-bit significand, gradual underflow and overflow to infinity. The sign of
  a zero is not kept: the program never divides by a multiplier or prints one.
  The conversion of a float to \<^verbatim>\<open>int64\<close> out of range is implementation-defined in Go (the
  amd64 port gives the least integer, the arm64 port the nearest one; the repository builds
  both), so the model leaves that value open: what is proved holds for every port.
\<close>

section \<open>Durations and times\<close>

type_synonym int64 = "64 word"
type_synonym int32 = "32 word"
type_synonym duration = int64
type_synonym time = int

declare of_int_sint [simp del]

abbreviation nanos :: "duration \<Rightarrow> int" where
  "nanos d \<equiv> sint d"

definition Second :: duration where
  "Second = 1000000000"

definition Millisecond :: duration where
  "Millisecond = 1000000"

definition Minute :: duration where
  "Minute = 60000000000"

definition Hour :: duration where
  "Hour = 3600000000000"

definition max_int64 :: int where
  "max_int64 = 9223372036854775807"

definition min_int64 :: int where
  "min_int64 = - 9223372036854775808"

definition time_add :: "time \<Rightarrow> duration \<Rightarrow> time" where
  "time_add t d = t + nanos d"

definition time_before :: "time \<Rightarrow> time \<Rightarrow> bool" where
  "time_before t u \<longleftrightarrow> t < u"

definition time_sub :: "time \<Rightarrow> time \<Rightarrow> duration" where
  "time_sub t u =
     (if t - u < min_int64 then word_of_int min_int64
      else if max_int64 < t - u then word_of_int max_int64
      else word_of_int (t - u))"

definition dur_max :: "duration \<Rightarrow> duration \<Rightarrow> duration" where
  "dur_max a b = (if nanos a < nanos b then b else a)"

text \<open>The zero \<^verbatim>\<open>time.Time\<close> is January 1 of the year 1.\<close>

definition zero_time :: time where
  "zero_time = - 62135596800000000000"

lemmas dur_const_defs = Second_def Millisecond_def Minute_def Hour_def

lemma ns_bounds: "min_int64 \<le> nanos d" "nanos d \<le> max_int64"
  using sint_ge [of d] sint_lt [of d] by (simp_all add: min_int64_def max_int64_def)

lemma ns_word_of_int: "min_int64 \<le> i \<Longrightarrow> i \<le> max_int64 \<Longrightarrow> nanos (word_of_int i :: duration) = i"
  unfolding min_int64_def max_int64_def
  by (simp add: sint_sbintrunc' signed_take_bit_int_eq_self)

lemma ns_time_sub:
  "nanos (time_sub t u) =
    (if t - u < min_int64 then min_int64 else if max_int64 < t - u then max_int64 else t - u)"
  unfolding time_sub_def
  using ns_word_of_int [of min_int64] ns_word_of_int [of max_int64] ns_word_of_int [of "t - u"]
  by (auto simp: min_int64_def max_int64_def simp del: of_int_diff)

lemma ns_dur_max: "nanos (dur_max a b) = max (nanos a) (nanos b)"
  by (simp add: dur_max_def)

lemma ns_uminus: "nanos d \<noteq> min_int64 \<Longrightarrow> nanos (- d) = - nanos d"
proof -
  assume "nanos d \<noteq> min_int64"
  with ns_bounds [of d] have "min_int64 \<le> - nanos d" "- nanos d \<le> max_int64"
    by (simp_all add: min_int64_def max_int64_def)
  then have "nanos (word_of_int (- nanos d) :: duration) = - nanos d" by (rule ns_word_of_int)
  then show ?thesis by (simp add: of_int_sint)
qed

lemma ns_uminus_min: "nanos d = min_int64 \<Longrightarrow> nanos (- d) = min_int64"
proof -
  assume min: "nanos d = min_int64"
  have "word_of_int (nanos d) = d" by (simp add: of_int_sint)
  with min have "d = word_of_int min_int64" by simp
  then show ?thesis by (simp add: min_int64_def)
qed

text \<open>Waiting until a time that has passed is waiting for nothing.\<close>

lemma ns_wait: "nanos (dur_max (time_sub t u) 0) = (if t - u < 0 then 0 else min (t - u) max_int64)"
  by (simp add: ns_dur_max ns_time_sub) (simp add: min_int64_def max_int64_def)

section \<open>Floating point\<close>

datatype f64 = Fin rat | PInf | NInf | NaN

text \<open>The exponent of the leading bit of a positive rational.\<close>

definition flog2 :: "rat \<Rightarrow> int" where
  "flog2 x = (if 1 \<le> x then int (nbits (nat \<lfloor>x\<rfloor>)) - 1 else - int (nbits (nat (\<lceil>1 / x\<rceil> - 1))))"

text \<open>Rounding to an integer, ties to even.\<close>

definition rne :: "rat \<Rightarrow> int" where
  "rne x = (let f = \<lfloor>x\<rfloor>; r = x - of_int f
            in if r < 1 / 2 then f else if 1 / 2 < r then f + 1 else if even f then f else f + 1)"

definition ulp_exp :: "rat \<Rightarrow> int" where
  "ulp_exp x = max (flog2 \<bar>x\<bar> - 52) (- 1074)"

definition round_rat :: "rat \<Rightarrow> rat" where
  "round_rat x = (if x = 0 then 0 else of_int (rne (x / 2 powi ulp_exp x)) * 2 powi ulp_exp x)"

definition round_f64 :: "rat \<Rightarrow> f64" where
  "round_f64 x = (let y = round_rat x
     in if 2 ^ 1024 \<le> y then PInf else if y \<le> - (2 ^ 1024) then NInf else Fin y)"

definition f64_of_int :: "int \<Rightarrow> f64" where
  "f64_of_int i = round_f64 (of_int i)"

definition f64_inf :: "bool \<Rightarrow> f64" where
  "f64_inf neg = (if neg then NInf else PInf)"

fun f64_mul :: "f64 \<Rightarrow> f64 \<Rightarrow> f64" where
  "f64_mul (Fin a) (Fin b) = round_f64 (a * b)"
| "f64_mul NaN _ = NaN"
| "f64_mul _ NaN = NaN"
| "f64_mul (Fin a) PInf = (if a = 0 then NaN else f64_inf (a < 0))"
| "f64_mul (Fin a) NInf = (if a = 0 then NaN else f64_inf (0 < a))"
| "f64_mul PInf (Fin b) = (if b = 0 then NaN else f64_inf (b < 0))"
| "f64_mul NInf (Fin b) = (if b = 0 then NaN else f64_inf (0 < b))"
| "f64_mul PInf PInf = PInf"
| "f64_mul PInf NInf = NInf"
| "f64_mul NInf PInf = NInf"
| "f64_mul NInf NInf = PInf"

fun f64_add :: "f64 \<Rightarrow> f64 \<Rightarrow> f64" where
  "f64_add (Fin a) (Fin b) = round_f64 (a + b)"
| "f64_add NaN _ = NaN"
| "f64_add _ NaN = NaN"
| "f64_add PInf NInf = NaN"
| "f64_add NInf PInf = NaN"
| "f64_add PInf _ = PInf"
| "f64_add NInf _ = NInf"
| "f64_add _ PInf = PInf"
| "f64_add _ NInf = NInf"

text \<open>Division by a nonzero finite number, the only one the program makes.\<close>

fun f64_div_by :: "f64 \<Rightarrow> rat \<Rightarrow> f64" where
  "f64_div_by (Fin a) b = round_f64 (a / b)"
| "f64_div_by PInf b = f64_inf (b < 0)"
| "f64_div_by NInf b = f64_inf (0 < b)"
| "f64_div_by NaN b = NaN"

fun f64_lt :: "f64 \<Rightarrow> f64 \<Rightarrow> bool" where
  "f64_lt (Fin a) (Fin b) \<longleftrightarrow> a < b"
| "f64_lt NaN _ \<longleftrightarrow> False"
| "f64_lt _ NaN \<longleftrightarrow> False"
| "f64_lt a b \<longleftrightarrow> a \<noteq> b \<and> (a = NInf \<or> b = PInf)"

definition f64_eq :: "f64 \<Rightarrow> f64 \<Rightarrow> bool" where
  "f64_eq a b \<longleftrightarrow> a = b \<and> a \<noteq> NaN"

definition trunc_rat :: "rat \<Rightarrow> int" where
  "trunc_rat x = (if 0 \<le> x then \<lfloor>x\<rfloor> else \<lceil>x\<rceil>)"

text \<open>
  The value of a conversion out of range: a number that depends on the port, of which nothing
  is known.
\<close>

definition out_of_range_int64 :: "f64 \<Rightarrow> int64" where
  "out_of_range_int64 = undefined"

fun f64_to_int64 :: "f64 \<Rightarrow> int64" where
  "f64_to_int64 (Fin x) =
     (let i = trunc_rat x in
      if min_int64 \<le> i \<and> i \<le> max_int64 then word_of_int i else out_of_range_int64 (Fin x))"
| "f64_to_int64 PInf = out_of_range_int64 PInf"
| "f64_to_int64 NInf = out_of_range_int64 NInf"
| "f64_to_int64 NaN = out_of_range_int64 NaN"

text \<open>\<^verbatim>\<open>Duration.Seconds\<close>: whole seconds and the rest, converted separately.\<close>

definition trunc_div :: "int \<Rightarrow> int \<Rightarrow> int" where
  "trunc_div a b = sgn a * sgn b * (\<bar>a\<bar> div \<bar>b\<bar>)"

definition trunc_mod :: "int \<Rightarrow> int \<Rightarrow> int" where
  "trunc_mod a b = a - b * trunc_div a b"

definition dur_seconds :: "duration \<Rightarrow> f64" where
  "dur_seconds d =
     f64_add (f64_of_int (trunc_div (nanos d) 1000000000))
             (f64_div_by (f64_of_int (trunc_mod (nanos d) 1000000000)) 1000000000)"

text \<open>The built-in \<^verbatim>\<open>max\<close> on two floats.\<close>

fun f64_max :: "f64 \<Rightarrow> f64 \<Rightarrow> f64" where
  "f64_max NaN _ = NaN"
| "f64_max _ NaN = NaN"
| "f64_max a b = (if f64_lt a b then b else a)"

section \<open>Facts about rounding\<close>

lemma flog2_bounds:
  assumes "0 < x"
  shows "2 powi flog2 x \<le> x" "x < 2 powi (flog2 x + 1)"
proof -
  have "2 powi flog2 x \<le> x \<and> x < 2 powi (flog2 x + 1)"
  proof (cases "1 \<le> x")
    case True
    define n where "n = nat \<lfloor>x\<rfloor>"
    from True have "0 < n" unfolding n_def by (simp add: le_floor_iff)
    from nbits_bounds [OF this] obtain k where k: "nbits n = Suc k" "2 ^ k \<le> n" "n < 2 ^ Suc k"
      by (cases "nbits n") auto
    have fl: "of_nat n \<le> x" "x < of_nat n + 1"
      using True unfolding n_def by (simp_all add: of_nat_nat) linarith
    have "(2::rat) ^ k \<le> of_nat n" "of_nat n + 1 \<le> (2::rat) ^ Suc k"
      using k(2,3) by (metis of_nat_le_iff of_nat_numeral of_nat_power)
        (metis Suc_leI k(3) of_nat_Suc of_nat_le_iff of_nat_numeral of_nat_power add.commute)
    with fl have "2 ^ k \<le> x" "x < 2 ^ Suc k" by linarith+
    moreover have "flog2 x = int k" using True k(1) by (simp add: flog2_def n_def)
    ultimately show ?thesis by (simp add: power_int_add)
  next
    case False
    define n where "n = nat (\<lceil>1 / x\<rceil> - 1)"
    from False assms have gt: "1 < 1 / x" by simp
    then have c: "1 < \<lceil>1 / x\<rceil>" by linarith
    then have n: "int n = \<lceil>1 / x\<rceil> - 1" unfolding n_def by linarith
    with c have "0 < n" by linarith
    from nbits_bounds [OF this(1)] obtain k where k: "nbits n = Suc k" "2 ^ k \<le> n" "n < 2 ^ Suc k"
      by (cases "nbits n") auto
    have "1 / x \<le> of_nat n + 1" "of_nat n < 1 / x"
      using n by linarith+
    moreover have "(2::rat) ^ k \<le> of_nat n" "of_nat n + 1 \<le> (2::rat) ^ Suc k"
      using k(2,3) by (metis of_nat_le_iff of_nat_numeral of_nat_power)
        (metis Suc_leI k(3) of_nat_Suc of_nat_le_iff of_nat_numeral of_nat_power add.commute)
    ultimately have "1 / x \<le> 2 ^ Suc k" "2 ^ k < 1 / x" by linarith+
    with assms have "1 / 2 ^ Suc k \<le> x" "x < 1 / 2 ^ k"
      by (simp_all add: field_simps)
    moreover have fl: "flog2 x = - int (Suc k)" using False k(1) by (simp add: flog2_def n_def)
    have "(2::rat) powi (- int (Suc k)) = 1 / 2 ^ Suc k"
      by (simp only: power_int_minus power_int_of_nat inverse_eq_divide)
    moreover have "- int (Suc k) + 1 = - int k" by simp
    moreover have "(2::rat) powi (- int k) = 1 / 2 ^ k"
      by (simp only: power_int_minus power_int_of_nat inverse_eq_divide)
    ultimately show ?thesis by (simp only: fl)
  qed
  then show "2 powi flog2 x \<le> x" "x < 2 powi (flog2 x + 1)" by auto
qed

lemma rne_of_int [simp]: "rne (of_int i) = i"
  by (simp add: rne_def)

lemma rne_error: "\<bar>of_int (rne x) - x\<bar> \<le> 1 / 2"
  using floor_correct [of x] by (auto simp: rne_def Let_def abs_le_iff field_simps)

lemma rne_mono:
  assumes "x \<le> y"
  shows "rne x \<le> rne y"
proof -
  consider "\<lfloor>x\<rfloor> = \<lfloor>y\<rfloor>" | "\<lfloor>x\<rfloor> < \<lfloor>y\<rfloor>"
    using floor_mono [OF assms] by linarith
  then show ?thesis
  proof cases
    case 1
    with assms show ?thesis by (auto simp: rne_def Let_def)
  next
    case 2
    then show ?thesis by (simp add: rne_def Let_def)
  qed
qed

text \<open>Rounding never crosses a value that the format represents.\<close>

definition is_f64_rat :: "rat \<Rightarrow> bool" where
  "is_f64_rat q \<longleftrightarrow> (\<exists>m e. q = of_int m * 2 powi e \<and> \<bar>m\<bar> < 2 ^ 53 \<and> - 1074 \<le> e)"

lemma powi_pos [simp]: "0 < (2::rat) powi u"
  by (simp add: zero_less_power_int)

lemma powi_add_rat: "(2::rat) powi (a + b) = 2 powi a * 2 powi b"
  by (simp add: power_int_add)

lemma round_ge_multiple:
  assumes "of_int k * 2 powi ulp_exp x \<le> x" "x \<noteq> 0"
  shows "of_int k * 2 powi ulp_exp x \<le> round_rat x"
proof -
  have "of_int k \<le> x / 2 powi ulp_exp x" using assms by (simp add: field_simps)
  then have "rne (of_int k) \<le> rne (x / 2 powi ulp_exp x)" by (rule rne_mono)
  then show ?thesis using assms(2) by (simp add: round_rat_def)
qed

lemma round_le_multiple:
  assumes "x \<le> of_int k * 2 powi ulp_exp x" "x \<noteq> 0"
  shows "round_rat x \<le> of_int k * 2 powi ulp_exp x"
proof -
  have "x / 2 powi ulp_exp x \<le> of_int k" using assms by (simp add: field_simps)
  then have "rne (x / 2 powi ulp_exp x) \<le> rne (of_int k)" by (rule rne_mono)
  then show ?thesis using assms(2) by (simp add: round_rat_def)
qed

lemma round_ge:
  assumes v: "is_f64_rat v" "0 \<le> v" and x: "v \<le> x" "0 < x"
  shows "v \<le> round_rat x"
proof -
  obtain m e where m: "v = of_int m * 2 powi e" "\<bar>m\<bar> < 2 ^ 53" "- 1074 \<le> e"
    using v(1) by (auto simp: is_f64_rat_def)
  define u where "u = ulp_exp x"
  show ?thesis
  proof (cases "u \<le> e")
    case True
    have "(2::rat) powi e = 2 powi (e - u) * 2 powi u" using powi_add_rat [of "e - u" u] by simp
    moreover have "(2::rat) powi (e - u) = of_int (2 ^ nat (e - u))" using True by (simp add: power_int_def)
    ultimately have "v = of_int (m * 2 ^ nat (e - u)) * 2 powi u" using m(1) by simp
    then show ?thesis using round_ge_multiple [of "m * 2 ^ nat (e - u)" x] x by (simp add: u_def)
  next
    case False
    with m(3) have u: "u = flog2 x - 52" using x by (simp add: u_def ulp_exp_def max_def split: if_splits)
    have "v \<le> 2 ^ 53 * 2 powi e"
      using m by (simp add: mult_right_mono)
    also have "\<dots> \<le> 2 ^ 53 * 2 powi (u - 1)"
      using False by (simp add: power_int_increasing)
    also have "\<dots> = 2 ^ 52 * 2 powi u" using powi_add_rat [of "u - 1" 1] by simp
    finally have 1: "v \<le> 2 ^ 52 * 2 powi u" .
    have "(2::rat) powi flog2 x = 2 ^ 52 * 2 powi u" using powi_add_rat [of 52 u] u by simp
    then have "of_int (2 ^ 52) * 2 powi u \<le> x" using flog2_bounds(1) [OF x(2)] by simp
    then have "of_int (2 ^ 52) * 2 powi u \<le> round_rat x"
      using round_ge_multiple [of "2 ^ 52" x] x by (simp add: u_def)
    with 1 show ?thesis by simp
  qed
qed

lemma round_le_power:
  assumes "0 < x" "x \<le> 2 ^ k"
  shows "round_rat x \<le> 2 ^ k"
proof -
  define u where "u = ulp_exp x"
  have "2 powi flog2 x \<le> (2::rat) powi int k" using flog2_bounds(1) [OF assms(1)] assms(2) by simp
  then have "flog2 x \<le> int k"
    using power_int_strict_increasing [of "int k" "flog2 x" "2::rat"] by force
  then have "u \<le> int k" using assms(1) by (simp add: u_def ulp_exp_def)
  then have "(2::rat) ^ k = of_int (2 ^ nat (int k - u)) * 2 powi u"
    using powi_add_rat [of "int k - u" u] by (simp add: power_int_def)
  then show ?thesis using round_le_multiple [of x "2 ^ nat (int k - u)"] assms by (simp add: u_def)
qed

lemma round_le:
  assumes v: "is_f64_rat v" and x: "x \<le> v" "0 < x"
  shows "round_rat x \<le> v"
proof -
  obtain m e where m: "v = of_int m * 2 powi e" "\<bar>m\<bar> < 2 ^ 53" "- 1074 \<le> e"
    using v by (auto simp: is_f64_rat_def)
  define u where "u = ulp_exp x"
  show ?thesis
  proof (cases "u \<le> e")
    case True
    have "(2::rat) powi e = 2 powi (e - u) * 2 powi u" using powi_add_rat [of "e - u" u] by simp
    moreover have "(2::rat) powi (e - u) = of_int (2 ^ nat (e - u))" using True by (simp add: power_int_def)
    ultimately have "v = of_int (m * 2 ^ nat (e - u)) * 2 powi u" using m(1) by simp
    then show ?thesis using round_le_multiple [of x "m * 2 ^ nat (e - u)"] x by (simp add: u_def)
  next
    case False
    with m(3) have u: "u = flog2 x - 52" using x by (simp add: u_def ulp_exp_def max_def split: if_splits)
    have "(of_int m :: rat) < of_int (2 ^ 53)" using m(2) by (simp only: of_int_less_iff)
    then have "v < 2 ^ 53 * 2 powi e" using m(1) by simp
    also have "\<dots> \<le> 2 ^ 53 * 2 powi (u - 1)"
      using False by (simp add: power_int_increasing)
    also have "\<dots> = 2 ^ 52 * 2 powi u" using powi_add_rat [of "u - 1" 1] by simp
    also have "\<dots> = 2 powi flog2 x" using powi_add_rat [of 52 u] u by simp
    also have "\<dots> \<le> x" by (rule flog2_bounds(1) [OF x(2)])
    finally show ?thesis using x(1) by simp
  qed
qed

lemma round_exact: "is_f64_rat x \<Longrightarrow> 0 \<le> x \<Longrightarrow> round_rat x = x"
  using round_le [of x x] round_ge [of x x]
  by (cases "x = 0") (auto simp: round_rat_def)

lemma is_f64_rat_int: "\<bar>i\<bar> < 2 ^ 53 \<Longrightarrow> is_f64_rat (of_int i)"
  unfolding is_f64_rat_def by (intro exI [of _ i] exI [of _ 0]) simp

lemma round_nonneg: "0 \<le> x \<Longrightarrow> 0 \<le> round_rat x"
  using round_ge [of 0 x] is_f64_rat_int [of 0] by (cases "x = 0") (simp_all add: round_rat_def)

lemma flog2_mono: "0 < x \<Longrightarrow> x \<le> y \<Longrightarrow> flog2 x \<le> flog2 y"
proof (rule ccontr)
  assume *: "0 < x" "x \<le> y" "\<not> flog2 x \<le> flog2 y"
  then have "(2::rat) powi (flog2 y + 1) \<le> 2 powi flog2 x" by (simp add: power_int_increasing)
  with * flog2_bounds(1) [of x] flog2_bounds(2) [of y] show False by simp
qed

lemma round_mono:
  assumes "0 \<le> x" "x \<le> y"
  shows "round_rat x \<le> round_rat y"
proof (cases "x = 0")
  case True
  with assms show ?thesis using round_nonneg [of y] by (simp add: round_rat_def)
next
  case False
  with assms have pos: "0 < x" "0 < y" by simp_all
  define u where "u = ulp_exp x"
  show ?thesis
  proof (cases "ulp_exp y = u")
    case True
    have "x / 2 powi u \<le> y / 2 powi u" using assms by (simp add: divide_right_mono)
    then have "rne (x / 2 powi u) \<le> rne (y / 2 powi u)" by (rule rne_mono)
    then show ?thesis using pos True by (simp add: round_rat_def u_def [symmetric])
  next
    case False
    have le: "flog2 x \<le> flog2 y" using pos(1) assms(2) by (rule flog2_mono)
    with False pos have y: "ulp_exp y = flog2 y - 52" and lt: "flog2 x + 1 \<le> flog2 y"
      by (auto simp: u_def ulp_exp_def max_def split: if_splits)
    have rep: "is_f64_rat (2 powi flog2 y)"
      using y pos unfolding is_f64_rat_def
      by (intro exI [of _ 1] exI [of _ "flog2 y"]) (simp add: ulp_exp_def max_def split: if_splits)
    have "x \<le> 2 powi (flog2 x + 1)" using flog2_bounds(2) [OF pos(1)] by simp
    also have "\<dots> \<le> 2 powi flog2 y" using lt by (simp add: power_int_increasing)
    finally have "round_rat x \<le> 2 powi flog2 y" using rep pos(1) by (intro round_le)
    also have "\<dots> \<le> round_rat y"
      using rep flog2_bounds(1) [OF pos(2)] pos(2) by (intro round_ge) simp_all
    finally show ?thesis .
  qed
qed

lemma f64_of_int_exact:
  assumes "0 \<le> i" "i < 2 ^ 53"
  shows "f64_of_int i = Fin (of_int i)"
proof -
  have "round_rat (of_int i) = of_int i"
    using assms by (intro round_exact is_f64_rat_int) simp_all
  moreover have "(of_int i :: rat) < of_int (2 ^ 53)" using assms(2) by (simp only: of_int_less_iff)
  moreover have "(2::rat) ^ 53 \<le> 2 ^ 1024" by (rule power_increasing) simp_all
  moreover have "(0::rat) \<le> of_int i" using assms by simp
  ultimately show ?thesis by (simp add: f64_of_int_def round_f64_def Let_def)
qed

text \<open>The scaling of a duration by a multiplier, as long as the product is in range.\<close>

definition dur_scale :: "duration \<Rightarrow> f64 \<Rightarrow> duration" where
  "dur_scale d m = f64_to_int64 (f64_mul (f64_of_int (nanos d)) m)"

definition scale_in_range :: "duration \<Rightarrow> rat \<Rightarrow> bool" where
  "scale_in_range d q \<longleftrightarrow> 0 \<le> nanos d \<and> nanos d < 2 ^ 53 \<and> 0 \<le> q \<and> of_int (nanos d) * q \<le> 2 ^ 62"

lemma ns_dur_scale:
  assumes "scale_in_range d q"
  shows "nanos (dur_scale d (Fin q)) = \<lfloor>round_rat (of_int (nanos d) * q)\<rfloor>"
proof -
  define x where "x = of_int (nanos d) * q"
  have x: "0 \<le> x" "x \<le> 2 ^ 62" using assms by (simp_all add: x_def scale_in_range_def)
  have up: "round_rat x \<le> 2 ^ 62"
    using round_le_power [of x 62] x by (cases "x = 0") (simp_all add: round_rat_def)
  have lo: "0 \<le> round_rat x" using x(1) by (rule round_nonneg)
  have "f64_of_int (nanos d) = Fin (of_int (nanos d))"
    using assms by (intro f64_of_int_exact) (simp_all add: scale_in_range_def)
  moreover have "(2::rat) ^ 62 < 2 ^ 1024" by (rule power_strict_increasing) simp_all
  ultimately have "f64_mul (f64_of_int (nanos d)) (Fin q) = Fin (round_rat x)"
    using up lo by (simp add: round_f64_def Let_def x_def)
  moreover have "\<lfloor>round_rat x\<rfloor> \<le> 2 ^ 62" using floor_mono [OF up] by simp
  moreover have "0 \<le> \<lfloor>round_rat x\<rfloor>" using lo by simp
  ultimately show ?thesis
    using lo by (simp add: dur_scale_def trunc_rat_def Let_def x_def ns_word_of_int
        min_int64_def max_int64_def)
qed

lemma dur_scale_ge: "scale_in_range d q \<Longrightarrow> 1 \<le> q \<Longrightarrow> nanos d \<le> nanos (dur_scale d (Fin q))"
proof -
  assume *: "scale_in_range d q" "1 \<le> q"
  then have d: "0 \<le> nanos d" "nanos d < 2 ^ 53" by (simp_all add: scale_in_range_def)
  then have "(0::rat) \<le> of_int (nanos d)" by simp
  with *(2) have "of_int (nanos d) \<le> of_int (nanos d) * q" by (simp add: mult_le_cancel_left1)
  with d have "round_rat (of_int (nanos d)) \<le> round_rat (of_int (nanos d) * q)"
    by (intro round_mono) simp_all
  moreover have "round_rat (of_int (nanos d)) = of_int (nanos d)"
    using d by (intro round_exact is_f64_rat_int) simp_all
  ultimately show ?thesis by (simp add: ns_dur_scale [OF *(1)] le_floor_iff)
qed

lemma dur_scale_mono:
  assumes "scale_in_range d q" "scale_in_range d' q'" "nanos d \<le> nanos d'" "q \<le> q'"
  shows "nanos (dur_scale d (Fin q)) \<le> nanos (dur_scale d' (Fin q'))"
proof -
  have "(of_int (nanos d) :: rat) * q \<le> of_int (nanos d') * q'"
    using assms by (intro mult_mono) (simp_all add: scale_in_range_def)
  then show ?thesis
    unfolding ns_dur_scale [OF assms(1)] ns_dur_scale [OF assms(2)]
    using assms(1) by (intro floor_mono round_mono) (simp_all add: scale_in_range_def)
qed

lemma scale_in_range_mono:
  "scale_in_range d' q' \<Longrightarrow> 0 \<le> nanos d \<Longrightarrow> nanos d \<le> nanos d' \<Longrightarrow> 0 \<le> q \<Longrightarrow> q \<le> q' \<Longrightarrow> scale_in_range d q"
  unfolding scale_in_range_def
  using mult_mono [of "of_int (nanos d) :: rat" "of_int (nanos d')" q q'] by simp

section \<open>\<^verbatim>\<open>strconv.Atoi\<close>\<close>

datatype atoi_error = ErrSyntax | ErrRange

text \<open>On a range error the nearest bound is returned with the error, as Go does.\<close>

definition Atoi :: "string \<Rightarrow> int \<times> atoi_error option" where
  "Atoi s =
     (let (neg, ds) = (case s of [] \<Rightarrow> (False, s)
                       | c # r \<Rightarrow> if c = CHR ''-'' then (True, r)
                                  else if c = CHR ''+'' then (False, r) else (False, s))
      in if ds = '''' \<or> \<not> list_all is_digit ds then (0, Some ErrSyntax)
         else let v = (if neg then - int (digits_val 0 ds) else int (digits_val 0 ds))
              in if v < min_int64 then (min_int64, Some ErrRange)
                 else if max_int64 < v then (max_int64, Some ErrRange)
                 else (v, None))"

lemma hd_dec_nat_sign: "c = CHR ''-'' \<or> c = CHR ''+'' \<Longrightarrow> dec_nat n \<noteq> c # r"
  using hd_dec_nat [of n] by (auto simp: is_digit_def)

lemma Atoi_dec_int:
  assumes "min_int64 \<le> i" "i \<le> max_int64"
  shows "Atoi (dec_int i) = (i, None)"
proof (cases "i < 0")
  case True
  then show ?thesis
    using assms by (simp add: Atoi_def dec_int_def dec_nat_digits digits_val_dec_nat Let_def)
next
  case False
  have "(case dec_nat (nat i) of [] \<Rightarrow> (False, dec_nat (nat i))
       | c # r \<Rightarrow> if c = CHR ''-'' then (True, r) else if c = CHR ''+'' then (False, r)
                  else (False, dec_nat (nat i))) = (False, dec_nat (nat i))"
    using hd_dec_nat_sign [of _ "nat i"] by (auto split: list.splits)
  with False assms show ?thesis
    by (simp add: Atoi_def dec_int_def dec_nat_digits digits_val_dec_nat Let_def)
qed

lemma dec_int_nonempty [simp]: "dec_int i \<noteq> []"
  by (simp add: dec_int_def)

section \<open>Reading a Go map\<close>

text \<open>A missing key of a \<^verbatim>\<open>map[string]string\<close> reads as the empty string.\<close>

definition map_get :: "('k \<rightharpoonup> string) \<Rightarrow> 'k \<Rightarrow> string" where
  "map_get m k = (case m k of None \<Rightarrow> '''' | Some v \<Rightarrow> v)"

end
