(* ===== verification/GoCrypto.thy ===== *)
theory GoCrypto
  imports Prelude
begin

unbundle bit_operations_syntax

text \<open>
  The parts of Go's \<^verbatim>\<open>crypto\<close> and \<^verbatim>\<open>encoding\<close> packages that the program calls:
  \<^verbatim>\<open>sha256.Sum256\<close> and \<^verbatim>\<open>hex.EncodeToString\<close> for the namespace name, and
  \<^verbatim>\<open>rand.Int\<close> for the slugs. SHA-256 is the algorithm of FIPS 180-4 on 32-bit words.
  \<^verbatim>\<open>rand.Int\<close> reads bytes from a reader and rejects candidates that are too large; the
  reader is the list of bytes it still has, and reading past its end is the reader's error.
\<close>

type_synonym byte = "8 word"
type_synonym u32 = "32 word"

definition bytes_of :: "string \<Rightarrow> byte list" where
  "bytes_of s = map (\<lambda>c. of_char c) s"

section \<open>SHA-256\<close>

text \<open>
  The constants are those of the standard, by their definition: the first 32 bits of the
  fractional parts of the cube roots of the first 64 primes and of the square roots of the
  first eight. \<open>root_bits\<close> finds the integer root of a number bit by bit, from bit \<open>b - 1\<close> down.
\<close>

fun root_bits :: "nat \<Rightarrow> nat \<Rightarrow> nat \<Rightarrow> nat \<Rightarrow> nat" where
  "root_bits k n 0 acc = acc"
| "root_bits k n (Suc b) acc = root_bits k n b (if (acc + 2 ^ b) ^ k \<le> n then acc + 2 ^ b else acc)"

definition primes_below :: "nat \<Rightarrow> nat list" where
  "primes_below n = filter (\<lambda>p. list_all (\<lambda>d. p mod d \<noteq> 0) [2..<p]) [2..<n]"

definition root_fraction :: "nat \<Rightarrow> nat \<Rightarrow> u32" where
  "root_fraction k p = word_of_nat (root_bits k (p * 2 ^ (32 * k)) 40 0)"

definition sha_k :: "u32 list" where
  "sha_k = map (root_fraction 3) (take 64 (primes_below 312))"

definition sha_h0 :: "u32 list" where
  "sha_h0 = map (root_fraction 2) (primes_below 20)"

definition rotr :: "nat \<Rightarrow> u32 \<Rightarrow> u32" where
  "rotr n w = drop_bit n w OR push_bit (32 - n) w"

definition be_word :: "byte list \<Rightarrow> u32" where
  "be_word bs = foldl (\<lambda>a b. push_bit 8 a OR ucast b) 0 bs"

definition be_bytes :: "nat \<Rightarrow> int \<Rightarrow> byte list" where
  "be_bytes n v = map (\<lambda>i. word_of_int (v div 256 ^ (n - 1 - i))) [0..<n]"

definition sha_pad :: "byte list \<Rightarrow> byte list" where
  "sha_pad m = m @ 0x80 # replicate ((119 - length m mod 64) mod 64) 0 @ be_bytes 8 (8 * int (length m))"

fun chunks :: "nat \<Rightarrow> nat \<Rightarrow> 'a list \<Rightarrow> 'a list list" where
  "chunks k 0 xs = []"
| "chunks k (Suc n) xs = take k xs # chunks k n (drop k xs)"

text \<open>The message schedule, newest word first.\<close>

fun sha_extend :: "nat \<Rightarrow> u32 list \<Rightarrow> u32 list" where
  "sha_extend 0 ws = ws"
| "sha_extend (Suc n) ws =
     (let w15 = ws ! 14; w2 = ws ! 1;
          s0 = rotr 7 w15 XOR rotr 18 w15 XOR drop_bit 3 w15;
          s1 = rotr 17 w2 XOR rotr 19 w2 XOR drop_bit 10 w2
      in sha_extend n ((ws ! 15 + s0 + ws ! 6 + s1) # ws))"

fun sha_round :: "u32 list \<Rightarrow> (u32 \<times> u32) \<Rightarrow> u32 list" where
  "sha_round [a, b, c, d, e, f, g, h] (k, w) =
     (let s1 = rotr 6 e XOR rotr 11 e XOR rotr 25 e;
          ch = (e AND f) XOR (NOT e AND g);
          t1 = h + s1 + ch + k + w;
          s0 = rotr 2 a XOR rotr 13 a XOR rotr 22 a;
          maj = (a AND b) XOR (a AND c) XOR (b AND c);
          t2 = s0 + maj
      in [t1 + t2, a, b, c, d + t1, e, f, g])"
| "sha_round hs _ = hs"

definition sha_block :: "u32 list \<Rightarrow> byte list \<Rightarrow> u32 list" where
  "sha_block hs blk =
     (let ws = rev (sha_extend 48 (rev (map be_word (chunks 4 16 blk))))
      in map2 (+) hs (foldl sha_round hs (zip sha_k ws)))"

definition sum256 :: "byte list \<Rightarrow> byte list" where
  "sum256 m =
     (let p = sha_pad m
      in concat (map (\<lambda>w. be_bytes 4 (uint w))
           (foldl sha_block sha_h0 (chunks 64 (length p div 64) p))))"

lemma length_sha_round: "length (sha_round hs kw) = length hs"
  by (cases "(hs, kw)" rule: sha_round.cases) (auto simp: Let_def)

lemma length_sha_rounds: "length (foldl sha_round hs kws) = length hs"
  by (induction kws arbitrary: hs) (auto simp: length_sha_round)

lemma length_sha_blocks: "length (foldl sha_block hs blks) = length hs"
  by (induction blks arbitrary: hs) (auto simp: sha_block_def length_sha_rounds Let_def)

lemma length_be_bytes [simp]: "length (be_bytes n v) = n"
  by (simp add: be_bytes_def)

lemma length_concat_const: "(\<And>x. x \<in> set xs \<Longrightarrow> length x = n) \<Longrightarrow> length (concat xs) = n * length xs"
  by (induction xs) auto

lemma length_sha_h0: "length sha_h0 = 8"
  by (simp add: sha_h0_def primes_below_def upt_rec)

lemma length_sum256: "length (sum256 m) = 32"
  unfolding sum256_def Let_def
  by (subst length_concat_const [where n = 4]) (auto simp: length_sha_blocks length_sha_h0)

section \<open>Hexadecimal\<close>

definition hex_char :: "nat \<Rightarrow> char" where
  "hex_char n = char_of (if n < 10 then 48 + n else 87 + n)"

definition hex_encode :: "byte list \<Rightarrow> string" where
  "hex_encode bs = concat (map (\<lambda>b. [hex_char (unat b div 16), hex_char (unat b mod 16)]) bs)"

definition is_hex :: "char \<Rightarrow> bool" where
  "is_hex c \<longleftrightarrow> is_digit c \<or> (97 \<le> (of_char c :: nat) \<and> (of_char c :: nat) \<le> 102)"

lemma is_hex_hex_char: "n < 16 \<Longrightarrow> is_hex (hex_char n)"
  by (auto simp: hex_char_def is_hex_def is_digit_def of_char_of)

lemma length_hex_encode: "length (hex_encode bs) = 2 * length bs"
  unfolding hex_encode_def by (subst length_concat_const [where n = 2]) auto

lemma hex_encode_chars: "list_all is_hex (hex_encode bs)"
proof -
  have "unat b < 2 ^ LENGTH(8)" for b :: byte
    by (rule unsigned_less)
  then have "unat b div 16 < 16" for b :: byte
    by (simp add: less_mult_imp_div_less)
  then show ?thesis
    by (auto simp: hex_encode_def list_all_iff is_hex_hex_char)
qed

section \<open>Random integers\<close>

datatype rand_error = UnexpectedEOF

text \<open>
  The loop of \<^verbatim>\<open>rand.Int\<close>: read \<open>k\<close> bytes, keep the low \<open>b\<close> bits of the first, accept
  the big-endian number if it is below \<open>mx\<close>, else try again.
\<close>

definition be_val :: "byte list \<Rightarrow> nat" where
  "be_val bs = foldl (\<lambda>a b. 256 * a + unat b) 0 bs"

definition mask_first :: "nat \<Rightarrow> byte list \<Rightarrow> byte list" where
  "mask_first b bs = (case bs of [] \<Rightarrow> [] | x # xs \<Rightarrow> take_bit b x # xs)"

function rand_loop :: "nat \<Rightarrow> nat \<Rightarrow> nat \<Rightarrow> byte list \<Rightarrow> (rand_error + nat) \<times> byte list" where
  "rand_loop k b mx bs =
     (if k = 0 \<or> length bs < k then (Inl UnexpectedEOF, [])
      else let v = be_val (mask_first b (take k bs))
           in if v < mx then (Inr v, drop k bs) else rand_loop k b mx (drop k bs))"
  by pat_completeness auto
termination
  by (relation "measure (\<lambda>(k, b, mx, bs). length bs)") auto

declare rand_loop.simps [simp del]

definition rand_int :: "nat \<Rightarrow> byte list \<Rightarrow> (rand_error + nat) \<times> byte list" where
  "rand_int mx bs =
     (let bit_len = nbits (mx - 1)
      in if bit_len = 0 then (Inr 0, bs)
         else rand_loop ((bit_len + 7) div 8) (if bit_len mod 8 = 0 then 8 else bit_len mod 8) mx bs)"

lemma rand_loop_less: "rand_loop k b mx bs = (Inr v, bs') \<Longrightarrow> v < mx"
proof (induction k b mx bs rule: rand_loop.induct)
  case (1 k b mx bs)
  then show ?case
    by (subst (asm) (2) rand_loop.simps) (auto simp: Let_def split: if_splits)
qed

lemma rand_int_less:
  assumes "rand_int mx bs = (Inr v, bs')" "0 < mx"
  shows "v < mx"
proof (cases "nbits (mx - 1) = 0")
  case True
  with assms show ?thesis by (simp add: rand_int_def)
next
  case False
  with assms show ?thesis by (auto simp: rand_int_def Let_def dest: rand_loop_less)
qed

text \<open>With a range of at most 256 values, one byte decides one attempt.\<close>

lemma rand_loop_one:
  "rand_loop (Suc 0) b mx [] = (Inl UnexpectedEOF, [])"
  "rand_loop (Suc 0) b mx (x # bs) =
    (let v = unat (take_bit b x) in if v < mx then (Inr v, bs) else rand_loop (Suc 0) b mx bs)"
  by (subst rand_loop.simps, simp add: be_val_def mask_first_def Let_def)+

end
