(* ===== verification/ExamTypes.thy ===== *)
theory ExamTypes
  imports GoTime
begin

text \<open>
  The Exam resource of \<^verbatim>\<open>api/v1alpha1/exam_types.go\<close>, field by field. A Go string type
  with named constants is a datatype with one constructor per constant, one for the empty
  string (the zero value) and one for any other string the API server could hand over. A
  pointer field is an \<open>option\<close>. The label and metadata fields are those of
  \<^verbatim>\<open>metav1.ObjectMeta\<close> that the code reads.
\<close>

section \<open>Enumerations\<close>

datatype examPhase =
    PhaseEmpty
  | PhasePending
  | PhaseProvisioning
  | PhaseReady
  | PhaseUnlocked
  | PhaseLocked
  | PhaseTearingDown
  | PhaseOther string

fun phase_string :: "examPhase \<Rightarrow> string" where
  "phase_string PhaseEmpty = ''''"
| "phase_string PhasePending = ''Pending''"
| "phase_string PhaseProvisioning = ''Provisioning''"
| "phase_string PhaseReady = ''Ready''"
| "phase_string PhaseUnlocked = ''Unlocked''"
| "phase_string PhaseLocked = ''Locked''"
| "phase_string PhaseTearingDown = ''TearingDown''"
| "phase_string (PhaseOther s) = s"

datatype studentPhase =
    StudentEmpty
  | StudentProvisioned
  | StudentUnlocked
  | StudentLocked
  | StudentFailed
  | StudentOther string

datatype emailStatus = EmailEmpty | EmailPending | EmailSent | EmailFailed | EmailOther string

datatype conditionType =
    ConditionAllEmailsSent
  | ConditionDryRunComplete
  | ConditionDryRunFailed
  | ConditionInstructorNotifiedLock
  | ConditionInstructorNotifiedUnlock
  | ConditionNetworkPolicyEnforced
  | ConditionProvisioned
  | ConditionProvisioningDegraded
  | ConditionOther string

datatype conditionReason =
    ReasonAllHealthy
  | ReasonComplete
  | ReasonNotEnforced
  | ReasonSent
  | ReasonSomeFailed
  | ReasonSomeInstancesFailed
  | ReasonVerified
  | ReasonOther string

datatype conditionStatus = ConditionTrue | ConditionFalse | ConditionUnknown

record condition =
  Type :: conditionType
  Status :: conditionStatus
  Reason :: conditionReason
  Message :: string
  ObservedGeneration :: int64
  LastTransitionTime :: time

section \<open>The specification\<close>

text \<open>
  \<^verbatim>\<open>corev1.ResourceRequirements\<close> is compared with \<^verbatim>\<open>reflect.DeepEqual\<close> only; its maps of
  quantities are sorted association lists, \<open>None\<close> being the nil map.
\<close>

record resourceRequirements =
  Limits :: "(string \<times> string) list option"
  Requests :: "(string \<times> string) list option"
  Claims :: "(string \<times> string) list option"

record examTemplate =
  Image :: string
  Resources :: resourceRequirements
  Port :: int32

record examDryRunSpec =
  DryRunBefore :: duration

record examSchedule =
  Unlock :: time
  Duration :: duration
  TimeMultiplier :: f64
  ProvisionBefore :: duration
  Retention :: duration
  DryRun :: "examDryRunSpec option"

record examStudent =
  StudentID :: string
  Email :: string

record examEmail =
  Before :: duration
  SendInterval :: duration
  InstructorEmail :: string
  From :: string
  Subject :: string

record examSpec =
  Template :: examTemplate
  Schedule :: examSchedule
  Students :: "examStudent list"
  SpecEmail :: examEmail
  Spares :: int64

section \<open>The status\<close>

record dryRunFailure =
  FailStudent :: string
  FailError :: string

record dryRunStatus =
  CompletedAt :: "time option"
  Passed :: int
  Failed :: int
  Failures :: "dryRunFailure list"

record spareStatus =
  SpareSlug :: string
  SpareURL :: string
  SparePhase :: studentPhase

record studentStatus =
  ID :: string
  Slug :: string
  URL :: string
  Phase :: studentPhase
  EmailStatus :: emailStatus
  EmailSentAt :: "time option"

record metricsSummary =
  TotalStudents :: int
  TotalSpares :: int
  EmailsSent :: int
  EmailsFailed :: int
  InstancesHealthy :: int
  InstancesFailed :: int

record examStatus =
  ExPhase :: examPhase
  PhaseEntryTime :: "time option"
  ExMessage :: string
  Conditions :: "condition list"
  ComputedLockTime :: "time option"
  ProvisionTime :: "time option"
  EmailTime :: "time option"
  RetentionDeadline :: "time option"
  ExDryRun :: "dryRunStatus option"
  StatusStudents :: "studentStatus list"
  StatusSpares :: "spareStatus list"
  ExMetrics :: "metricsSummary option"

section \<open>The resource\<close>

record exam =
  Name :: string
  Namespace :: string
  Generation :: int64
  DeletionTimestamp :: "time option"
  Finalizers :: "string list"
  Spec :: examSpec
  ExStatus :: examStatus

text \<open>The zero values that \<^verbatim>\<open>append\<close> pads the status lists with.\<close>

definition zero_student :: studentStatus where
  "zero_student = \<lparr>ID = '''', Slug = '''', URL = '''', Phase = StudentEmpty,
     EmailStatus = EmailEmpty, EmailSentAt = None\<rparr>"

definition zero_spare :: spareStatus where
  "zero_spare = \<lparr>SpareSlug = '''', SpareURL = '''', SparePhase = StudentEmpty\<rparr>"

definition zero_status :: examStatus where
  "zero_status = \<lparr>ExPhase = PhaseEmpty, PhaseEntryTime = None, ExMessage = '''', Conditions = [],
     ComputedLockTime = None, ProvisionTime = None, EmailTime = None, RetentionDeadline = None,
     ExDryRun = None, StatusStudents = [], StatusSpares = [], ExMetrics = None\<rparr>"

text \<open>Updates of the nested status, as the code's assignments through \<^verbatim>\<open>exam.Status\<close>.\<close>

definition upd_status :: "(examStatus \<Rightarrow> examStatus) \<Rightarrow> exam \<Rightarrow> exam" where
  "upd_status f e = e\<lparr>ExStatus := f (ExStatus e)\<rparr>"

lemma upd_status_simps [simp]:
  "ExStatus (upd_status f e) = f (ExStatus e)"
  "Spec (upd_status f e) = Spec e"
  "Name (upd_status f e) = Name e"
  "Namespace (upd_status f e) = Namespace e"
  "Generation (upd_status f e) = Generation e"
  "DeletionTimestamp (upd_status f e) = DeletionTimestamp e"
  "Finalizers (upd_status f e) = Finalizers e"
  by (simp_all add: upd_status_def)

lemma upd_status_comp [simp]: "upd_status f (upd_status g e) = upd_status (f \<circ> g) e"
  by (simp add: upd_status_def)

end
