(* ===== verification/Slug.thy ===== *)
theory Slug
  imports GoCrypto
begin

text \<open>
  \<^verbatim>\<open>internal/slug/slug.go\<close>: the generator of the eight-character labels that name every
  instance. The random reader is the list of bytes it will deliver. The label grammar of
  Kubernetes (RFC 1123 and RFC 1035 labels) is stated here too, for the slugs and for the
  namespace names.
\<close>

section \<open>Labels\<close>

definition is_lower :: "char \<Rightarrow> bool" where
  "is_lower c \<longleftrightarrow> 97 \<le> (of_char c :: nat) \<and> (of_char c :: nat) \<le> 122"

definition is_alnum :: "char \<Rightarrow> bool" where
  "is_alnum c \<longleftrightarrow> is_lower c \<or> is_digit c"

definition is_label_char :: "char \<Rightarrow> bool" where
  "is_label_char c \<longleftrightarrow> is_alnum c \<or> c = CHR ''-''"

definition dns1123_label :: "string \<Rightarrow> bool" where
  "dns1123_label s \<longleftrightarrow> s \<noteq> '''' \<and> length s \<le> 63 \<and> list_all is_label_char s \<and>
     is_alnum (hd s) \<and> is_alnum (last s)"

definition dns1035_label :: "string \<Rightarrow> bool" where
  "dns1035_label s \<longleftrightarrow> dns1123_label s \<and> is_lower (hd s)"

section \<open>The generator\<close>

definition letters :: string where
  "letters = ''abcdefghijklmnopqrstuvwxyz''"

definition alphanum :: string where
  "alphanum = letters @ ''0123456789''"

fun generate_loop :: "nat list \<Rightarrow> string \<Rightarrow> byte list \<Rightarrow> (rand_error + string) \<times> byte list" where
  "generate_loop [] b rd = (Inr b, rd)"
| "generate_loop (i # is) b rd =
     (let charset = (if i = 0 then letters else alphanum)
      in case rand_int (length charset) rd of
           (Inl e, rd') \<Rightarrow> (Inl e, rd')
         | (Inr n, rd') \<Rightarrow> generate_loop is (b[i := charset ! n]) rd')"

definition Generate :: "byte list \<Rightarrow> (rand_error + string) \<times> byte list" where
  "Generate rd = generate_loop [0..<8] (replicate 8 (CHR 0x00)) rd"

text \<open>What a slug is: a letter followed by seven letters or digits.\<close>

definition is_slug :: "string \<Rightarrow> bool" where
  "is_slug s \<longleftrightarrow> length s = 8 \<and> hd s \<in> set letters \<and> set s \<subseteq> set alphanum"

lemma letters_lower: "c \<in> set letters \<Longrightarrow> is_lower c"
  by (auto simp: letters_def is_lower_def)

lemma alphanum_alnum: "c \<in> set alphanum \<Longrightarrow> is_alnum c"
  by (auto simp: alphanum_def is_alnum_def letters_lower is_digit_def)

lemma letters_alphanum: "c \<in> set letters \<Longrightarrow> c \<in> set alphanum"
  by (simp add: alphanum_def)

lemma is_slug_dns1035: "is_slug s \<Longrightarrow> dns1035_label s"
  unfolding is_slug_def dns1035_label_def dns1123_label_def
  by (cases s rule: rev_cases; cases s)
    (auto simp: letters_lower list_all_iff is_label_char_def hd_append intro: alphanum_alnum letters_alphanum split: if_splits)

lemma length_charsets [simp]: "length letters = 26" "length alphanum = 36"
  by (simp_all add: letters_def alphanum_def)

lemma charsets_nonempty [simp]: "letters \<noteq> []" "alphanum \<noteq> []"
  by (simp_all add: letters_def alphanum_def)

text \<open>One step of the loop writes one position with a character of that position's set.\<close>

lemma generate_loop_chars:
  assumes "generate_loop is b rd = (Inr s, rd')" "distinct is" "set is \<subseteq> {..<length b}"
  shows "length s = length b \<and>
    (\<forall>i < length b. s ! i \<in> (if i \<in> set is then (if i = 0 then set letters else set alphanum) else {b ! i}))"
  using assms
proof (induction "is" arbitrary: b rd)
  case Nil
  then show ?case by simp
next
  case (Cons i "is")
  define cs where "cs = (if i = 0 then letters else alphanum)"
  from Cons.prems(1) obtain n rd1 where n: "rand_int (length cs) rd = (Inr n, rd1)"
    and rest: "generate_loop is (b[i := cs ! n]) rd1 = (Inr s, rd')"
    by (auto simp: cs_def [symmetric] Let_def split: prod.splits sum.splits)
  have "n < length cs" using n by (rule rand_int_less) (simp add: cs_def)
  then have mem: "cs ! n \<in> (if i = 0 then set letters else set alphanum)"
    by (auto simp: cs_def)
  have ih: "length s = length b \<and>
     (\<forall>j < length b. s ! j \<in> (if j \<in> set is then (if j = 0 then set letters else set alphanum)
        else {b[i := cs ! n] ! j}))"
    using Cons.IH [OF rest] Cons.prems(2,3) by auto
  show ?case
  proof (intro conjI allI impI)
    show "length s = length b" using ih by simp
    fix j assume j: "j < length b"
    from ih j have "s ! j \<in> (if j \<in> set is then (if j = 0 then set letters else set alphanum)
        else {b[i := cs ! n] ! j})" by blast
    then show "s ! j \<in> (if j \<in> set (i # is) then (if j = 0 then set letters else set alphanum) else {b ! j})"
      using j mem Cons.prems(2) by (auto split: if_splits)
  qed
qed

lemma Generate_is_slug:
  assumes "Generate rd = (Inr s, rd')"
  shows "is_slug s"
proof -
  have *: "length s = 8 \<and> (\<forall>i < 8. s ! i \<in> (if i = 0 then set letters else set alphanum))"
    using generate_loop_chars [OF assms [unfolded Generate_def]] by (simp add: atLeast0LessThan)
  then have "hd s \<in> set letters" by (metis hd_conv_nth length_0_conv zero_less_numeral zero_neq_numeral)
  moreover have "s ! i \<in> set alphanum" if "i < 8" for i
    using * that letters_alphanum by (metis (full_types))
  then have "set s \<subseteq> set alphanum" using * by (metis in_set_conv_nth subsetI)
  ultimately show ?thesis using * by (simp add: is_slug_def)
qed

text \<open>
  The byte that makes one attempt pick the character at position \<open>n\<close>: both sets have at
  most 64 characters, so the masked byte is the byte itself.
\<close>

lemma nbits_charsets: "nbits 25 = 5" "nbits 35 = 6"
  by (simp_all add: nbits.simps)

lemma rand_int_byte:
  assumes "n < length cs" "cs = letters \<or> cs = alphanum"
  shows "rand_int (length cs) (word_of_nat n # rd) = (Inr n, rd)"
proof -
  have n: "n < 36" using assms by auto
  have "unat (take_bit b (word_of_nat n :: byte)) = n" if "n < 2 ^ b" for b
    using that n by (simp add: unsigned_take_bit_eq unat_of_nat take_bit_nat_eq_self)
  from this [of 5] this [of 6] show ?thesis
    using assms n by (auto simp: rand_int_def nbits_charsets rand_loop_one Let_def)
qed

lemma generate_loop_onto:
  assumes "length s = length b" "set is \<subseteq> {..<length b}" "distinct is"
    and "\<And>i. i \<in> set is \<Longrightarrow> s ! i \<in> set (if i = 0 then letters else alphanum)"
  shows "\<exists>rd. \<forall>rd'. generate_loop is b (rd @ rd') = (Inr (fold (\<lambda>i b. b[i := s ! i]) is b), rd')"
  using assms
proof (induction "is" arbitrary: b)
  case Nil
  then show ?case by (intro exI [of _ "[]"]) simp
next
  case (Cons i "is")
  define cs where "cs = (if i = 0 then letters else alphanum)"
  from Cons.prems(4) [of i] obtain n where n: "n < length cs" "cs ! n = s ! i"
    by (auto simp: cs_def in_set_conv_nth)
  have cs: "cs = letters \<or> cs = alphanum" by (simp add: cs_def)
  obtain rd where rd: "\<forall>rd'. generate_loop is (b[i := s ! i]) (rd @ rd') =
      (Inr (fold (\<lambda>i b. b[i := s ! i]) is (b[i := s ! i])), rd')"
    using Cons.IH [of "b[i := s ! i]"] Cons.prems by auto
  show ?case
    by (intro exI [of _ "word_of_nat n # rd"])
      (simp add: cs_def [symmetric] rand_int_byte [OF n(1) cs] n(2) rd Let_def)
qed

lemma fold_update_take:
  "length s = length b \<Longrightarrow> k \<le> length b \<Longrightarrow>
    fold (\<lambda>i b. b[i := s ! i]) [0..<k] b = take k s @ drop k b"
proof (induction k)
  case 0
  then show ?case by simp
next
  case (Suc k)
  then have "fold (\<lambda>i b. b[i := s ! i]) [0..<Suc k] b = (take k s @ drop k b)[k := s ! k]"
    by simp
  also have "\<dots> = take (Suc k) s @ drop (Suc k) b"
    using Suc.prems by (simp add: list_update_append Cons_nth_drop_Suc [symmetric] take_Suc_conv_app_nth)
  finally show ?case .
qed

lemma generate_reaches_every_slug:
  assumes "is_slug s"
  shows "\<exists>rd. Generate rd = (Inr s, [])"
proof -
  have len: "length s = 8" using assms by (simp add: is_slug_def)
  have mem: "s ! i \<in> set (if i = 0 then letters else alphanum)" if "i < 8" for i
    using assms that by (cases s) (auto simp: is_slug_def subset_iff nth_Cons split: nat.splits)
  obtain rd where "\<forall>rd'. generate_loop [0..<8] (replicate 8 (CHR 0x00)) (rd @ rd') =
      (Inr (fold (\<lambda>i b. b[i := s ! i]) [0..<8] (replicate 8 (CHR 0x00))), rd')"
    using generate_loop_onto [of s "replicate 8 (CHR 0x00)" "[0..<8]"] len mem by fastforce
  moreover have "fold (\<lambda>i b. b[i := s ! i]) [0..<8] (replicate 8 (CHR 0x00)) = s"
    using fold_update_take [of s "replicate 8 (CHR 0x00)" 8] len by simp
  ultimately have "Generate (rd @ []) = (Inr s, [])" unfolding Generate_def by metis
  then show ?thesis by blast
qed

section \<open>Properties\<close>

text \<open>
  C37: the generator returns exactly the slugs: eight letters and digits, the first a letter,
  hence DNS-1035 labels. Whatever bytes the random reader delivers it returns nothing else, and
  the sampling excludes none of them.
\<close>
theorem generate_returns_exactly_slugs:
  "(\<exists>rd rd'. Generate rd = (Inr s, rd')) \<longleftrightarrow> is_slug s \<and> dns1035_label s \<and> length s = 8"
  using Generate_is_slug [of _ s] is_slug_dns1035 [of s] generate_reaches_every_slug [of s]
  by (auto simp: is_slug_def)

end
