(* ===== verification/Namespace.thy ===== *)
theory Namespace
  imports Slug
begin

text \<open>
  \<^verbatim>\<open>examNamespace\<close> of \<^verbatim>\<open>internal/controller/exam_controller.go\<close>: the name of the dedicated
  namespace of an exam, a readable part of at most 49 bytes and eight hexadecimal digits of
  the SHA-256 hash of the exam's full name.
\<close>

fun strip_dashes :: "string \<Rightarrow> string" where
  "strip_dashes base =
     (if base \<noteq> [] \<and> last base = CHR ''-'' then strip_dashes (butlast base) else base)"

declare strip_dashes.simps [simp del]

definition hashSuffix :: "string \<Rightarrow> string \<Rightarrow> string" where
  "hashSuffix examName examCRNamespace =
     take 8 (hex_encode (sum256 (bytes_of (examCRNamespace @ ''/'' @ examName))))"

definition examNamespace :: "string \<Rightarrow> string \<Rightarrow> string" where
  "examNamespace examName examCRNamespace =
     (let prefix = ''exam-'';
          suffix = hashSuffix examName examCRNamespace;
          maxBaseLen = 63 - int (length prefix) - int (length suffix) - 1;
          base = (if maxBaseLen \<le> 0 then ''instance''
                  else if maxBaseLen < int (length examName)
                  then (let b = strip_dashes (take (nat maxBaseLen) examName)
                        in if b = '''' then ''instance'' else b)
                  else examName)
      in prefix @ base @ ''-'' @ suffix)"

lemma strip_dashes_prefix: "\<exists>t. base = strip_dashes base @ t"
proof (induction base rule: strip_dashes.induct)
  case (1 base)
  show ?case
  proof (cases "base \<noteq> [] \<and> last base = CHR ''-''")
    case True
    with 1 obtain t where "butlast base = strip_dashes (butlast base) @ t" by blast
    moreover have "strip_dashes base = strip_dashes (butlast base)"
      using True by (subst strip_dashes.simps) simp
    ultimately have "base = strip_dashes base @ t @ [last base]"
      using True by (metis append.assoc append_butlast_last_id)
    then show ?thesis by blast
  next
    case False
    then have "strip_dashes base = base" by (subst strip_dashes.simps) auto
    then show ?thesis by (intro exI [of _ "[]"]) simp
  qed
qed

lemma strip_dashes_last: "strip_dashes base = [] \<or> last (strip_dashes base) \<noteq> CHR ''-''"
proof (induction base rule: strip_dashes.induct)
  case (1 base)
  then show ?case by (subst (1 2) strip_dashes.simps) auto
qed

lemma length_hashSuffix [simp]: "length (hashSuffix n c) = 8"
  by (simp add: hashSuffix_def length_hex_encode length_sum256)

lemma hashSuffix_chars: "list_all is_hex (hashSuffix n c)"
  using hex_encode_chars [of "sum256 (bytes_of (c @ ''/'' @ n))"]
  by (auto simp: hashSuffix_def list_all_iff dest: in_set_takeD)

lemma hashSuffix_nonempty [simp]: "hashSuffix n c \<noteq> []"
  by (metis length_hashSuffix list.size(3) zero_neq_numeral)

text \<open>The readable part, on its own.\<close>

definition base_part :: "string \<Rightarrow> string" where
  "base_part n =
     (if length n \<le> 49 then n
      else if strip_dashes (take 49 n) = '''' then ''instance'' else strip_dashes (take 49 n))"

lemma examNamespace_eq: "examNamespace n c = ''exam-'' @ base_part n @ ''-'' @ hashSuffix n c"
  by (auto simp: examNamespace_def base_part_def Let_def)

lemma length_base_part: "length (base_part n) \<le> 49"
proof -
  obtain t where "take 49 n = strip_dashes (take 49 n) @ t" using strip_dashes_prefix by blast
  then have "length (strip_dashes (take 49 n)) \<le> 49"
    by (metis length_append le_add1 length_take min.cobounded2 order_trans)
  then show ?thesis by (simp add: base_part_def)
qed

lemma strip_dashes_chars [simp]: "list_all is_label_char (strip_dashes base) = list_all is_label_char base"
proof (induction base rule: strip_dashes.induct)
  case (1 base)
  show ?case
  proof (cases "base \<noteq> [] \<and> last base = CHR ''-''")
    case True
    then obtain b where b: "base = b @ [CHR ''-'']" by (metis append_butlast_last_id)
    then have "list_all is_label_char base = list_all is_label_char (butlast base)"
      by (simp add: is_label_char_def)
    with 1 True show ?thesis by (subst strip_dashes.simps) simp
  next
    case False
    then show ?thesis by (subst strip_dashes.simps) auto
  qed
qed

lemma base_part_chars: "list_all is_label_char (base_part n) = list_all is_label_char (take 49 n)"
proof -
  have "list_all is_label_char ''instance''" by code_simp
  moreover have "list_all is_label_char (take 49 n)" if "strip_dashes (take 49 n) = ''''"
    using strip_dashes_chars [of "take 49 n"] that by simp
  ultimately show ?thesis by (simp add: base_part_def)
qed

lemma is_hex_alnum: "is_hex c \<Longrightarrow> is_alnum c"
  by (auto simp: is_hex_def is_alnum_def is_lower_def)

section \<open>Properties\<close>

text \<open>
  The namespace name always starts with "exam-", ends with a dash and the eight
  hexadecimal digits of the hash, and never exceeds the 63 bytes of a Kubernetes label.
\<close>
theorem examNamespace_shape:
  "length (examNamespace n c) \<le> 63 \<and> take 5 (examNamespace n c) = ''exam-'' \<and>
   drop (length (examNamespace n c) - 9) (examNamespace n c) = ''-'' @ hashSuffix n c \<and>
   list_all is_hex (hashSuffix n c)"
proof -
  have "examNamespace n c = (''exam-'' @ base_part n) @ ''-'' @ hashSuffix n c"
    by (simp add: examNamespace_eq)
  moreover have "length (examNamespace n c) - 9 = length (''exam-'' @ base_part n)"
    by (simp add: examNamespace_eq)
  ultimately have "drop (length (examNamespace n c) - 9) (examNamespace n c) = ''-'' @ hashSuffix n c"
    by (metis append_eq_conv_conj)
  then show ?thesis
    using length_base_part [of n] hashSuffix_chars [of n c] by (simp add: examNamespace_eq)
qed

text \<open>
  C36: the namespace name is a valid label exactly if the part of the exam's name it takes
  over, the first 49 bytes, has label characters only (letters, digits, dashes). So the
  namespace of an exam with a dot there, which Kubernetes allows in the name of a custom
  resource, can never be created.
\<close>
theorem examNamespace_label_iff:
  "dns1123_label (examNamespace n c) \<longleftrightarrow> list_all is_label_char (take 49 n)"
proof -
  have hex: "list_all is_alnum (hashSuffix n c)"
    using hashSuffix_chars by (simp add: list_all_iff is_hex_alnum)
  have "last (hashSuffix n c) \<in> set (hashSuffix n c)" by (rule last_in_set) simp
  with hex have "is_alnum (last (hashSuffix n c))" by (simp add: list_all_iff)
  moreover have "list_all is_label_char (examNamespace n c) = list_all is_label_char (take 49 n)"
  proof -
    have "list_all is_label_char (hashSuffix n c)"
      using hex by (auto simp: list_all_iff is_label_char_def)
    moreover have "list_all is_label_char ''exam-''" "is_label_char (CHR ''-'')" by code_simp+
    ultimately show ?thesis by (simp add: examNamespace_eq base_part_chars)
  qed
  moreover have "length (examNamespace n c) \<le> 63"
    using length_base_part [of n] by (simp add: examNamespace_eq)
  ultimately show ?thesis
    by (simp add: dns1123_label_def examNamespace_eq is_alnum_def is_lower_def)
qed

text \<open>
  Two exams share a namespace exactly when their readable parts agree and the eight
  hash digits of their full names collide: the readable part never hides a hash difference.
\<close>
lemma examNamespace_collision:
  "examNamespace n c = examNamespace n' c' \<longleftrightarrow>
     base_part n = base_part n' \<and> hashSuffix n c = hashSuffix n' c'"
proof
  assume "examNamespace n c = examNamespace n' c'"
  then have "base_part n @ (''-'' @ hashSuffix n c) = base_part n' @ (''-'' @ hashSuffix n' c')"
    by (simp add: examNamespace_eq)
  moreover have "length (''-'' @ hashSuffix n c) = length (''-'' @ hashSuffix n' c')" by simp
  ultimately have "base_part n = base_part n' \<and> ''-'' @ hashSuffix n c = ''-'' @ hashSuffix n' c'"
    by (rule append_eq_append_conv [THEN iffD1, rotated, OF _ disjI2])
  then show "base_part n = base_part n' \<and> hashSuffix n c = hashSuffix n' c'" by simp
next
  assume "base_part n = base_part n' \<and> hashSuffix n c = hashSuffix n' c'"
  then show "examNamespace n c = examNamespace n' c'" by (simp add: examNamespace_eq)
qed

end
