(* ===== verification/Notifier.thy ===== *)
theory Notifier
  imports GoTime
begin

text \<open>
  \<^verbatim>\<open>internal/notifier/email.go\<close>: the message builders, the retrying sender and the two test
  senders. The interface \<^verbatim>\<open>Sender\<close> is a locale: a sender is an effectful call with a count
  of the attempts made, and the retry bounds are proved once for every sender that keeps
  that contract. A Go \<^verbatim>\<open>error\<close> result is an \<open>option\<close>, \<open>None\<close> for nil.
\<close>

section \<open>Messages\<close>

definition LF :: string where
  "LF = [CHR 0x0A]"

definition CRLF :: string where
  "CRLF = [CHR 0x0D, CHR 0x0A]"

definition buildMessage :: "string \<Rightarrow> string \<Rightarrow> string \<Rightarrow> string \<Rightarrow> string" where
  "buildMessage from to subject body =
     ''From: '' @ from @ CRLF @ ''To: '' @ to @ CRLF @ ''Subject: '' @ subject @ CRLF @
     ''MIME-Version: 1.0'' @ CRLF @ ''Content-Type: text/plain; charset=UTF-8'' @ CRLF @ CRLF @ body"

definition BuildStudentMessage :: "string \<Rightarrow> string \<Rightarrow> string \<Rightarrow> string \<Rightarrow> string" where
  "BuildStudentMessage from to subject url =
     (let body = ''Your exam instance is ready.'' @ LF @ LF @ ''Access your instance at: '' @ url @ LF @ LF @
                 ''This link is unique to you. Do not share it.'' @ LF
      in buildMessage from to subject body)"

definition BuildSparesMessage :: "string \<Rightarrow> string \<Rightarrow> string \<Rightarrow> string list \<Rightarrow> string" where
  "BuildSparesMessage from to subject urls =
     (let body = ''Spare instances are ready.'' @ LF @ LF @ str_join urls LF @ LF
      in buildMessage from to (subject @ '' - Spare Instances'') body)"

definition BuildUnlockNotification ::
    "string \<Rightarrow> string \<Rightarrow> string \<Rightarrow> int \<Rightarrow> int \<Rightarrow> string list \<Rightarrow> string" where
  "BuildUnlockNotification from to subject students spares failedEmails =
     (let body = ''Exam is live.'' @ LF @ LF @ dec_int students @ '' students, '' @ dec_int spares @ '' spares.'' @ LF;
          body' = (if failedEmails \<noteq> []
                   then body @ LF @ ''Failed email delivery for: '' @ str_join failedEmails '', '' @ LF @
                        ''Please share URLs manually.'' @ LF
                   else body)
      in buildMessage from to (subject @ '' - Exam Unlocked'') body')"

definition BuildLockNotification ::
    "string \<Rightarrow> string \<Rightarrow> string \<Rightarrow> int \<Rightarrow> int \<Rightarrow> int \<Rightarrow> string" where
  "BuildLockNotification from to subject students healthy failed =
     (let body = ''Exam has ended.'' @ LF @ LF @ dec_int students @ '' students, '' @ dec_int healthy @
                 '' instances healthy, '' @ dec_int failed @ '' failed.'' @ LF
      in buildMessage from to (subject @ '' - Exam Locked'') body)"

text \<open>A reader of such messages: lines end in CRLF, the empty line ends the header.\<close>

fun take_line :: "string \<Rightarrow> string \<times> string" where
  "take_line [] = ([], [])"
| "take_line [c] = ([c], [])"
| "take_line (c # d # cs) =
     (if c = CHR 0x0D \<and> d = CHR 0x0A then ([], cs)
      else (let (l, r) = take_line (d # cs) in (c # l, r)))"

fun split_header :: "nat \<Rightarrow> string \<Rightarrow> string list \<times> string" where
  "split_header 0 s = ([], s)"
| "split_header (Suc n) s =
     (let (l, r) = take_line s
      in if l = '''' then ([], r) else let (ls, b) = split_header n r in (l # ls, b))"

lemma take_line_crlf: "CHR 0x0D \<notin> set l \<Longrightarrow> take_line (l @ CHR 0x0D # CHR 0x0A # r) = (l, r)"
proof (induction l)
  case Nil
  then show ?case by simp
next
  case (Cons c l)
  then show ?case by (cases l) auto
qed

section \<open>The sender interface\<close>

locale sender =
  fixes send :: "string \<Rightarrow> string list \<Rightarrow> string \<Rightarrow> ('s, 'e option) state"
    and sent :: "'s \<Rightarrow> nat"
  assumes send_counts: "run_state (send from to msg) s = (r, s') \<Longrightarrow> sent s' = Suc (sent s)"

section \<open>Retries\<close>

datatype 'e retry_error = AfterRetries int "'e option"

text \<open>The wait after attempt number \<open>attempt\<close>: the shift and the products wrap at 64 bits.\<close>

definition backoff :: "int \<Rightarrow> duration" where
  "backoff attempt = push_bit (nat attempt) 1 * 100 * Millisecond"

fun retry_loop ::
    "('s, 'e option) state \<Rightarrow> (duration \<Rightarrow> ('s, unit) state) \<Rightarrow> int \<Rightarrow> int list \<Rightarrow> 'e option \<Rightarrow>
      ('s, unit + 'e option) state" where
  "retry_loop inner sleep maxRetries [] err = ret (Inr err)"
| "retry_loop inner sleep maxRetries (attempt # rest) err = do {
     err' \<leftarrow> inner;
     case err' of
       None \<Rightarrow> ret (Inl ())
     | Some _ \<Rightarrow> do {
         _ \<leftarrow> (if attempt < maxRetries then sleep (backoff attempt) else ret ());
         retry_loop inner sleep maxRetries rest err'
       }
   }"

record ('s, 'e) retrySender =
  Inner :: "string \<Rightarrow> string list \<Rightarrow> string \<Rightarrow> ('s, 'e option) state"
  MaxRetries :: int
  SleepFunc :: "(duration \<Rightarrow> ('s, unit) state) option"

definition NewRetrySender ::
    "(string \<Rightarrow> string list \<Rightarrow> string \<Rightarrow> ('s, 'e option) state) \<Rightarrow> int \<Rightarrow> ('s, 'e) retrySender" where
  "NewRetrySender inner maxRetries = \<lparr>Inner = inner, MaxRetries = maxRetries, SleepFunc = None\<rparr>"

text \<open>\<open>time_Sleep\<close> is Go's \<^verbatim>\<open>time.Sleep\<close>, the default.\<close>

definition RetrySender_Send ::
    "(duration \<Rightarrow> ('s, unit) state) \<Rightarrow> ('s, 'e) retrySender \<Rightarrow> string \<Rightarrow> string list \<Rightarrow> string \<Rightarrow>
      ('s, 'e retry_error option) state" where
  "RetrySender_Send time_Sleep r from to msg =
     (let sleep = (case SleepFunc r of None \<Rightarrow> time_Sleep | Some f \<Rightarrow> f)
      in do {
        result \<leftarrow> retry_loop (Inner r from to msg) sleep (MaxRetries r) [0..MaxRetries r] None;
        case result of
          Inl _ \<Rightarrow> ret None
        | Inr err \<Rightarrow> ret (Some (AfterRetries (MaxRetries r) err))
      })"

locale paced_sender = sender +
  fixes pause :: "duration \<Rightarrow> ('a, unit) state"
  assumes pause_keeps: "run_state (pause d) s = (u, s') \<Longrightarrow> sent s' = sent s"
begin

lemma retry_loop_counts:
  "run_state (retry_loop (send from to msg) pause mx as err) s = (r, s') \<Longrightarrow>
    (case r of Inl _ \<Rightarrow> sent s < sent s' \<and> sent s' \<le> sent s + length as
             | Inr _ \<Rightarrow> sent s' = sent s + length as)"
proof (induction as arbitrary: err s)
  case Nil
  then show ?case by auto
next
  case (Cons a as)
  obtain err' s1 where 1: "run_state (send from to msg) s = (err', s1)" by fastforce
  have c1: "sent s1 = Suc (sent s)" using 1 by (rule send_counts)
  show ?case
  proof (cases err')
    case None
    with Cons.prems 1 c1 show ?thesis by auto
  next
    case (Some e)
    obtain u s2 where 2: "run_state (if a < mx then pause (backoff a) else ret ()) s1 = (u, s2)"
      by (rule prod.exhaust)
    have "sent s2 = sent s1" using 2 by (auto split: if_splits dest: pause_keeps)
    moreover have "run_state (retry_loop (send from to msg) pause mx as err') s2 = (r, s')"
      using Cons.prems 1 2 Some by simp
    note Cons.IH [OF this]
    ultimately show ?thesis using c1 by (auto split: sum.splits)
  qed
qed

lemma retry_counts:
  assumes "run_state (RetrySender_Send pause (NewRetrySender send mx) from to msg) s = (r, s')"
  shows "case r of
      None \<Rightarrow> sent s < sent s' \<and> sent s' \<le> sent s + nat (mx + 1)
    | Some (AfterRetries n _) \<Rightarrow> n = mx \<and> sent s' = sent s + nat (mx + 1)"
proof -
  obtain q s1 where 1: "run_state (retry_loop (send from to msg) pause mx [0..mx] None) s = (q, s1)"
    by fastforce
  from assms 1 have "s' = s1" "r = (case q of Inl _ \<Rightarrow> None | Inr e \<Rightarrow> Some (AfterRetries mx e))"
    by (auto simp: RetrySender_Send_def NewRetrySender_def split: sum.splits)
  with retry_loop_counts [OF 1] show ?thesis by (auto split: sum.splits)
qed

end

section \<open>The test senders\<close>

record sentMessage =
  MsgFrom :: string
  MsgTo :: "string list"
  MsgBody :: string

record fakeSender =
  SentMsgs :: "sentMessage list"

definition FakeSender_Send :: "string \<Rightarrow> string list \<Rightarrow> string \<Rightarrow> (fakeSender, string option) state" where
  "FakeSender_Send from to msg =
     State (\<lambda>f. (None, f\<lparr>SentMsgs := SentMsgs f @ [\<lparr>MsgFrom = from, MsgTo = to, MsgBody = msg\<rparr>]\<rparr>))"

record failNSender =
  FailCount :: nat
  Attempts :: nat

text \<open>The second component of the state records the waits of the injected \<^verbatim>\<open>SleepFunc\<close>.\<close>

definition FailNSender_Send ::
    "string \<Rightarrow> string list \<Rightarrow> string \<Rightarrow> (failNSender \<times> duration list, string option) state" where
  "FailNSender_Send from to msg = State (\<lambda>(f, ds).
     let f' = f\<lparr>Attempts := Suc (Attempts f)\<rparr>
     in if Attempts f' \<le> FailCount f'
        then (Some (''simulated failure '' @ dec_nat (Attempts f')), (f', ds))
        else (None, (f', ds)))"

definition record_sleep :: "duration \<Rightarrow> (failNSender \<times> duration list, unit) state" where
  "record_sleep d = State (\<lambda>(f, ds). ((), (f, ds @ [d])))"

lemma run_FailNSender_Send [simp]:
  "run_state (FailNSender_Send from to msg) (f, ds) =
    (let f' = f\<lparr>Attempts := Suc (Attempts f)\<rparr>
     in if Attempts f' \<le> FailCount f'
        then (Some (''simulated failure '' @ dec_nat (Attempts f')), (f', ds))
        else (None, (f', ds)))"
  by (simp add: FailNSender_Send_def)

lemma run_record_sleep [simp]: "run_state (record_sleep d) (f, ds) = ((), (f, ds @ [d]))"
  by (simp add: record_sleep_def)

interpretation fake: sender FakeSender_Send "\<lambda>f. length (SentMsgs f)"
  by unfold_locales (auto simp: FakeSender_Send_def)

interpretation failn: paced_sender FailNSender_Send "\<lambda>(f, ds). Attempts f" record_sleep
  by unfold_locales (auto simp: Let_def split: prod.splits if_splits)

text \<open>The retry loop over a sender that fails its first \<open>n\<close> attempts.\<close>

lemma retry_loop_failn:
  assumes "0 \<le> a" "a \<le> mx"
  shows "run_state (retry_loop (FailNSender_Send from to msg) record_sleep mx [a..mx] err)
      (\<lparr>FailCount = n, Attempts = nat a\<rparr>, ds) =
    (let k = max (nat a) (min n (nat mx)) in
     (if n \<le> nat mx then Inl () else Inr (Some (''simulated failure '' @ dec_nat (Suc (nat mx)))),
      (\<lparr>FailCount = n, Attempts = Suc k\<rparr>, ds @ map (backoff \<circ> int) [nat a..<k])))"
  using assms
proof (induction "nat (mx - a)" arbitrary: a ds err)
  case 0
  then have "a = mx" by simp
  with 0 show ?case
    by (auto simp: Let_def)
next
  case (Suc d)
  then have a: "a < mx" "[a..mx] = a # [a + 1..mx]" by (simp_all add: upto_rec1)
  have ih: "run_state (retry_loop (FailNSender_Send from to msg) record_sleep mx [a + 1..mx] e)
      (\<lparr>FailCount = n, Attempts = Suc (nat a)\<rparr>, ds') =
    (let k = max (Suc (nat a)) (min n (nat mx)) in
     (if n \<le> nat mx then Inl () else Inr (Some (''simulated failure '' @ dec_nat (Suc (nat mx)))),
      (\<lparr>FailCount = n, Attempts = Suc k\<rparr>, ds' @ map (backoff \<circ> int) [Suc (nat a)..<k])))" for e ds'
    using Suc.hyps(1) [of "a + 1" e ds'] Suc.hyps(2) Suc.prems a(1) by (simp add: nat_add_distrib)
  show ?case
  proof (cases "n \<le> nat a")
    case True
    with a Suc.prems show ?thesis
      by (auto simp: Let_def)
  next
    case False
    define k where "k = min n (nat mx)"
    have k: "nat a < k" "max (nat a) k = k" "max (Suc (nat a)) k = k"
      using False a(1) Suc.prems by (auto simp: k_def)
    have "[nat a..<k] = nat a # [Suc (nat a)..<k]" using k(1) by (simp add: upt_rec)
    with False a Suc.prems k show ?thesis
      by (simp add: ih Let_def k_def [symmetric])
  qed
qed

section \<open>Properties\<close>

text \<open>
  C38: a message round-trips through a reader of mail headers: sender, recipient, subject
  and body are read back unchanged, provided no header field carries a carriage return (a
  field with one would inject header lines).
\<close>
theorem buildMessage_roundtrip:
  assumes "CHR 0x0D \<notin> set from" "CHR 0x0D \<notin> set to" "CHR 0x0D \<notin> set subject"
  shows "split_header 6 (buildMessage from to subject body) =
    ([''From: '' @ from, ''To: '' @ to, ''Subject: '' @ subject, ''MIME-Version: 1.0'',
      ''Content-Type: text/plain; charset=UTF-8''], body)"
proof -
  have "CHR 0x0D \<notin> set (''From: '' @ from)" "CHR 0x0D \<notin> set (''To: '' @ to)"
    "CHR 0x0D \<notin> set (''Subject: '' @ subject)" "CHR 0x0D \<notin> set ''MIME-Version: 1.0''"
    "CHR 0x0D \<notin> set ''Content-Type: text/plain; charset=UTF-8''"
    using assms by simp_all
  note l = this [THEN take_line_crlf] take_line_crlf [of "[]"]
  show ?thesis
    unfolding buildMessage_def CRLF_def
    using l by (simp add: numeral_eq_Suc Let_def)
qed

theorem buildMessage_roundtrip_witness:
  "split_header 6 (buildMessage ''noreply@otu.ca'' ''a@b'' ''Midterm'' ''Hi'') =
    ([''From: '' @ ''noreply@otu.ca'', ''To: '' @ ''a@b'', ''Subject: '' @ ''Midterm'', ''MIME-Version: 1.0'',
      ''Content-Type: text/plain; charset=UTF-8''], ''Hi'')"
  by (rule buildMessage_roundtrip) simp_all

lemma backoff_doubles: "backoff (int i) = word_of_int (2 ^ i * 100 * 1000000)"
  by (simp add: backoff_def Millisecond_def push_bit_eq_mult)

text \<open>
  C39: retrying over a sender that fails \<open>n\<close> times succeeds exactly when \<open>n\<close> is at most
  the number of retries; it makes one attempt more than it waits, stops at the first
  success, and never waits after the last attempt. The waits double from 100ms on: wait
  number \<open>i\<close> takes \<open>2 ^ i * 100\<close> milliseconds, as a 64-bit number of nanoseconds.
\<close>
theorem retry_over_failing_sender:
  assumes "0 \<le> mx"
  shows "run_state (RetrySender_Send time_Sleep
        ((NewRetrySender FailNSender_Send mx)\<lparr>SleepFunc := Some record_sleep\<rparr>) from to msg)
      (\<lparr>FailCount = n, Attempts = 0\<rparr>, []) =
    (if n \<le> nat mx then None
     else Some (AfterRetries mx (Some (''simulated failure '' @ dec_nat (Suc (nat mx))))),
     (\<lparr>FailCount = n, Attempts = Suc (min n (nat mx))\<rparr>,
      map (\<lambda>i. word_of_int (2 ^ i * 100 * 1000000)) [0..<min n (nat mx)]))"
  using retry_loop_failn [of 0 mx "from" to msg None n "[]"] assms
  by (simp add: RetrySender_Send_def NewRetrySender_def Let_def backoff_doubles)

theorem retry_over_failing_sender_witness:
  "run_state (RetrySender_Send (\<lambda>_. ret ())
        ((NewRetrySender FailNSender_Send 3)\<lparr>SleepFunc := Some record_sleep\<rparr>) ''f'' [''t''] ''m'')
      (\<lparr>FailCount = 5, Attempts = 0\<rparr>, []) =
    (Some (AfterRetries 3 (Some (''simulated failure '' @ dec_nat 4))),
     (\<lparr>FailCount = 5, Attempts = 4\<rparr>, [100 * Millisecond, 200 * Millisecond, 400 * Millisecond]))"
  using retry_over_failing_sender [of 3 "\<lambda>_. ret ()" "''f''" "[''t'']" "''m''" 5]
  by (simp add: Millisecond_def upt_rec)

end
