(* ===== verification/SampleExam.thy ===== *)
theory SampleExam
  imports ExamTypes
begin

text \<open>An exam of one student and no spare instance, with its times at the defaults.\<close>

definition sample_spec :: examSpec where
  "sample_spec =
     \<lparr>Template = \<lparr>Image = ''ghcr.io/otu/app'', Resources = \<lparr>Limits = None, Requests = None, Claims = None\<rparr>,
                  Port = 8080\<rparr>,
      Schedule = \<lparr>Unlock = 0, Duration = Hour, TimeMultiplier = Fin 1, ProvisionBefore = 0, Retention = 0,
                  DryRun = None\<rparr>,
      Students = [\<lparr>StudentID = ''100000001'', Email = ''a@otu.ca''\<rparr>],
      SpecEmail = \<lparr>Before = 0, SendInterval = 0, InstructorEmail = ''i@otu.ca'', From = ''noreply@otu.ca'',
                   Subject = ''Midterm''\<rparr>,
      Spares = 0\<rparr>"

definition sample_with :: "examStatus \<Rightarrow> exam" where
  "sample_with st =
     \<lparr>Name = ''midterm'', Namespace = ''exam-system'', Generation = 1, DeletionTimestamp = None,
      Finalizers = [''exam.otu.ca/cleanup''], Spec = sample_spec, ExStatus = st\<rparr>"

lemma sample_with_simps [simp]:
  "Name (sample_with st) = ''midterm''" "Namespace (sample_with st) = ''exam-system''"
  "Generation (sample_with st) = 1" "DeletionTimestamp (sample_with st) = None"
  "Finalizers (sample_with st) = [''exam.otu.ca/cleanup'']" "Spec (sample_with st) = sample_spec"
  "ExStatus (sample_with st) = st" "upd_status f (sample_with st) = sample_with (f st)"
  "(sample_with st)\<lparr>ExStatus := st'\<rparr> = sample_with st'"
  by (simp_all add: sample_with_def upd_status_def)

definition sample_exam :: "examPhase \<Rightarrow> exam" where
  "sample_exam p = sample_with (zero_status\<lparr>ExPhase := p\<rparr>)"

end
