(* ===== verification/Resources.thy ===== *)
theory Resources
  imports SampleExam
begin

text \<open>
  \<^verbatim>\<open>internal/provisioner/resources.go\<close>: the labels and the Deployment, Service and Ingress of
  an instance, as values of the Kubernetes object types reduced to the fields the program
  sets or reads. Every object has a kind, a namespace and a name, its key in the API server.
\<close>

section \<open>Kubernetes objects\<close>

type_synonym labels = "string \<rightharpoonup> string"

record objectMeta =
  ObjName :: string
  ObjNamespace :: string
  ObjLabels :: labels

record securityContext =
  RunAsNonRoot :: "bool option"
  AllowPrivilegeEscalation :: "bool option"
  CapabilitiesDrop :: "string list"
  SeccompProfile :: string

record container =
  ContainerName :: string
  ContainerImage :: string
  ContainerPorts :: "int32 list"
  ContainerResources :: resourceRequirements
  ContainerSecurity :: securityContext

record deploymentSpec =
  Replicas :: int32
  MatchLabels :: labels
  TemplateLabels :: labels
  AutomountServiceAccountToken :: "bool option"
  Containers :: "container list"

record serviceSpec =
  ServiceSelector :: labels
  ServicePorts :: "int32 list"

record ingressPath =
  Path :: string
  PathType :: string
  BackendService :: string
  BackendPort :: int32

record ingressRule =
  Host :: string
  Paths :: "ingressPath list"

record ingressTLS =
  TLSHosts :: "string list"
  TLSSecretName :: string

record ingressSpec =
  IngressRules :: "ingressRule list"
  TLS :: "ingressTLS list"

datatype protocol = TCP | UDP

datatype policyType = PolicyIngress | PolicyEgress

record policyPeer =
  PeerNamespaceLabels :: "labels option"
  PeerPodLabels :: "labels option"

record policyPort =
  PolicyPortNumber :: int32
  PolicyProtocol :: protocol

record policyRule =
  RulePeers :: "policyPeer list"
  RulePorts :: "policyPort list"

record networkPolicySpec =
  PolicySelector :: labels
  PolicyTypes :: "policyType list"
  IngressAllowed :: "policyRule list"
  EgressAllowed :: "policyRule list"

text \<open>The untyped content of a CiliumNetworkPolicy: nested maps, lists and strings.\<close>

datatype json = JStr string | JArr "json list" | JObj "(string \<times> json) list"

record secretData =
  SecretType :: string
  SecretEntries :: "string \<rightharpoonup> string"

datatype kobj =
    KNamespace objectMeta
  | KSecret objectMeta secretData
  | KDeployment objectMeta deploymentSpec int32 \<comment> \<open>the last field is \<^verbatim>\<open>Status.ReadyReplicas\<close>\<close>
  | KService objectMeta serviceSpec
  | KIngress objectMeta ingressSpec
  | KNetworkPolicy objectMeta networkPolicySpec
  | KCiliumPolicy objectMeta json

datatype kind =
    NamespaceKind | SecretKind | DeploymentKind | ServiceKind | IngressKind
  | NetworkPolicyKind | CiliumPolicyKind

fun obj_meta :: "kobj \<Rightarrow> objectMeta" where
  "obj_meta (KNamespace m) = m"
| "obj_meta (KSecret m _) = m"
| "obj_meta (KDeployment m _ _) = m"
| "obj_meta (KService m _) = m"
| "obj_meta (KIngress m _) = m"
| "obj_meta (KNetworkPolicy m _) = m"
| "obj_meta (KCiliumPolicy m _) = m"

fun obj_kind :: "kobj \<Rightarrow> kind" where
  "obj_kind (KNamespace _) = NamespaceKind"
| "obj_kind (KSecret _ _) = SecretKind"
| "obj_kind (KDeployment _ _ _) = DeploymentKind"
| "obj_kind (KService _ _) = ServiceKind"
| "obj_kind (KIngress _ _) = IngressKind"
| "obj_kind (KNetworkPolicy _ _) = NetworkPolicyKind"
| "obj_kind (KCiliumPolicy _ _) = CiliumPolicyKind"

abbreviation obj_labels :: "kobj \<Rightarrow> labels" where
  "obj_labels x \<equiv> ObjLabels (obj_meta x)"

type_synonym okey = "kind \<times> string \<times> string"

definition obj_key :: "kobj \<Rightarrow> okey" where
  "obj_key x = (obj_kind x, ObjNamespace (obj_meta x), ObjName (obj_meta x))"

section \<open>Labels\<close>

definition LabelExam :: string where
  "LabelExam = ''exam.otu.ca/exam''"

definition LabelExamNamespace :: string where
  "LabelExamNamespace = ''exam.otu.ca/exam-namespace''"

definition LabelSlug :: string where
  "LabelSlug = ''exam.otu.ca/slug''"

definition LabelStudent :: string where
  "LabelStudent = ''exam.otu.ca/student''"

definition LabelPort :: string where
  "LabelPort = ''exam.otu.ca/port''"

lemmas label_defs = LabelExam_def LabelExamNamespace_def LabelSlug_def LabelStudent_def LabelPort_def

lemma labels_distinct [simp]:
  "LabelExam \<noteq> LabelExamNamespace" "LabelExamNamespace \<noteq> LabelExam"
  "LabelExam \<noteq> LabelSlug" "LabelSlug \<noteq> LabelExam"
  "LabelExam \<noteq> LabelStudent" "LabelStudent \<noteq> LabelExam"
  "LabelExam \<noteq> LabelPort" "LabelPort \<noteq> LabelExam"
  "LabelExamNamespace \<noteq> LabelSlug" "LabelSlug \<noteq> LabelExamNamespace"
  "LabelExamNamespace \<noteq> LabelStudent" "LabelStudent \<noteq> LabelExamNamespace"
  "LabelExamNamespace \<noteq> LabelPort" "LabelPort \<noteq> LabelExamNamespace"
  "LabelSlug \<noteq> LabelStudent" "LabelStudent \<noteq> LabelSlug"
  "LabelSlug \<noteq> LabelPort" "LabelPort \<noteq> LabelSlug"
  "LabelStudent \<noteq> LabelPort" "LabelPort \<noteq> LabelStudent"
  by (simp_all add: label_defs)

definition OwnerLabels :: "exam \<Rightarrow> labels" where
  "OwnerLabels e = [LabelExam \<mapsto> Name e, LabelExamNamespace \<mapsto> Namespace e]"

definition Labels :: "exam \<Rightarrow> string \<Rightarrow> string \<Rightarrow> labels" where
  "Labels e studentID slug =
     (let l = (OwnerLabels e)(LabelSlug \<mapsto> slug)
      in if studentID \<noteq> '''' then l(LabelStudent \<mapsto> studentID) else l)"

section \<open>The resources of an instance\<close>

definition Deployment :: "exam \<Rightarrow> string \<Rightarrow> string \<Rightarrow> string \<Rightarrow> kobj" where
  "Deployment e namespace studentID slug =
     (let labels = Labels e studentID slug in
      KDeployment \<lparr>ObjName = slug, ObjNamespace = namespace, ObjLabels = labels\<rparr>
        \<lparr>Replicas = 1, MatchLabels = [LabelSlug \<mapsto> slug], TemplateLabels = labels,
         AutomountServiceAccountToken = Some False,
         Containers =
           [\<lparr>ContainerName = ''app'', ContainerImage = Image (Template (Spec e)),
             ContainerPorts = [Port (Template (Spec e))],
             ContainerResources = Resources (Template (Spec e)),
             ContainerSecurity =
               \<lparr>RunAsNonRoot = Some True, AllowPrivilegeEscalation = Some False,
                CapabilitiesDrop = [''ALL''], SeccompProfile = ''RuntimeDefault''\<rparr>\<rparr>]\<rparr> 0)"

definition Service :: "exam \<Rightarrow> string \<Rightarrow> string \<Rightarrow> string \<Rightarrow> kobj" where
  "Service e namespace studentID slug =
     KService \<lparr>ObjName = slug, ObjNamespace = namespace, ObjLabels = Labels e studentID slug\<rparr>
       \<lparr>ServiceSelector = [LabelSlug \<mapsto> slug], ServicePorts = [Port (Template (Spec e))]\<rparr>"

definition Ingress :: "exam \<Rightarrow> string \<Rightarrow> string \<Rightarrow> string \<Rightarrow> string \<Rightarrow> string \<Rightarrow> kobj" where
  "Ingress e namespace studentID slug baseDomain tlsSecretName =
     (let host = slug @ ''.'' @ baseDomain;
          rules = [\<lparr>Host = host,
                    Paths = [\<lparr>Path = ''/'', PathType = ''Prefix'', BackendService = slug,
                              BackendPort = Port (Template (Spec e))\<rparr>]\<rparr>];
          tls = (if tlsSecretName \<noteq> '''' then [\<lparr>TLSHosts = [host], TLSSecretName = tlsSecretName\<rparr>] else [])
      in KIngress \<lparr>ObjName = slug, ObjNamespace = namespace, ObjLabels = Labels e studentID slug\<rparr>
           \<lparr>IngressRules = rules, TLS = tls\<rparr>)"

lemma Labels_simps [simp]:
  "Labels e sid slug LabelExam = Some (Name e)"
  "Labels e sid slug LabelExamNamespace = Some (Namespace e)"
  "Labels e sid slug LabelSlug = Some slug"
  "Labels e sid slug LabelStudent = (if sid = '''' then None else Some sid)"
  "Labels e sid slug LabelPort = None"
  by (simp_all add: Labels_def OwnerLabels_def Let_def)

lemma resource_meta [simp]:
  "obj_meta (Deployment e n sid slug) = \<lparr>ObjName = slug, ObjNamespace = n, ObjLabels = Labels e sid slug\<rparr>"
  "obj_meta (Service e n sid slug) = \<lparr>ObjName = slug, ObjNamespace = n, ObjLabels = Labels e sid slug\<rparr>"
  "obj_meta (Ingress e n sid slug b t) = \<lparr>ObjName = slug, ObjNamespace = n, ObjLabels = Labels e sid slug\<rparr>"
  by (simp_all add: Deployment_def Service_def Ingress_def Let_def)

lemma resource_kind [simp]:
  "obj_kind (Deployment e n sid slug) = DeploymentKind"
  "obj_kind (Service e n sid slug) = ServiceKind"
  "obj_kind (Ingress e n sid slug b t) = IngressKind"
  by (simp_all add: Deployment_def Service_def Ingress_def Let_def)

lemma Labels_upd_status [simp]: "Labels (upd_status f e) = Labels e"
  by (simp add: Labels_def OwnerLabels_def fun_eq_iff Let_def)

lemma OwnerLabels_upd_status [simp]: "OwnerLabels (upd_status f e) = OwnerLabels e"
  by (simp add: OwnerLabels_def)

section \<open>Which exam an object belongs to\<close>

text \<open>
  \<^verbatim>\<open>requestsForOwnedObject\<close> of the controller: the exam to reconcile when an object
  changes, as a pair of namespace and name.
\<close>

definition requestsForOwnedObject :: "kobj \<Rightarrow> (string \<times> string) list" where
  "requestsForOwnedObject obj =
     (let labels = obj_labels obj;
          examName = map_get labels LabelExam;
          examNamespace = map_get labels LabelExamNamespace
      in if examName = '''' \<or> examNamespace = '''' then [] else [(examNamespace, examName)])"

text \<open>Label selectors, as the API server and the pods' selectors read them.\<close>

definition selected_by :: "labels \<Rightarrow> labels \<Rightarrow> bool" where
  "selected_by sel l \<longleftrightarrow> sel \<subseteq>\<^sub>m l"

lemma selected_by_upd: "k \<notin> dom sel \<Longrightarrow> selected_by (sel(k \<mapsto> v)) l \<longleftrightarrow> l k = Some v \<and> selected_by sel l"
  by (auto simp: selected_by_def map_le_def)

lemma selected_by_empty [simp]: "selected_by Map.empty l"
  by (simp add: selected_by_def)

lemma selected_by_slug [simp]: "selected_by [LabelSlug \<mapsto> s] l \<longleftrightarrow> l LabelSlug = Some s"
  by (simp add: selected_by_upd)

lemma selected_by_owner:
  "selected_by (OwnerLabels e) l \<longleftrightarrow> l LabelExam = Some (Name e) \<and> l LabelExamNamespace = Some (Namespace e)"
  unfolding OwnerLabels_def by (subst selected_by_upd) (auto simp: selected_by_upd)

section \<open>Properties\<close>

text \<open>
  The pods of an instance are selected by their own Deployment and Service and by no
  other instance's, they run hardened (non-root, no privilege escalation, all capabilities
  dropped, no service account token), and Deployment, Service and Ingress agree on the port
  and on the slug as their name.
\<close>
theorem instance_resources_consistent:
  "\<exists>dm ds sm ss im is.
     Deployment e n sid slug = KDeployment dm ds 0 \<and>
     Service e n sid slug = KService sm ss \<and>
     Ingress e n sid slug b t = KIngress im is \<and>
     selected_by (MatchLabels ds) (TemplateLabels ds) \<and>
     (\<forall>sid' slug'. selected_by (ServiceSelector ss) (Labels e sid' slug') \<longleftrightarrow> slug' = slug) \<and>
     (\<forall>sid' slug'. selected_by (MatchLabels ds) (Labels e sid' slug') \<longleftrightarrow> slug' = slug) \<and>
     map ContainerPorts (Containers ds) = [ServicePorts ss] \<and>
     map (map BackendPort \<circ> Paths) (IngressRules is) = [ServicePorts ss] \<and>
     map (map BackendService \<circ> Paths) (IngressRules is) = [[ObjName sm]] \<and>
     ObjName dm = slug \<and> ObjName sm = slug \<and> ObjName im = slug \<and>
     AutomountServiceAccountToken ds = Some False \<and>
     list_all (\<lambda>c. RunAsNonRoot (ContainerSecurity c) = Some True \<and>
        AllowPrivilegeEscalation (ContainerSecurity c) = Some False \<and>
        CapabilitiesDrop (ContainerSecurity c) = [''ALL'']) (Containers ds)"
  by (auto simp: Deployment_def Service_def Ingress_def Let_def)

end
