(* ===== verification/NetworkPolicy.thy ===== *)
theory NetworkPolicy
  imports Resources
begin

text \<open>
  \<^verbatim>\<open>internal/network\<close>: the two implementations of the \<^verbatim>\<open>PolicyProvider\<close> interface
  (\<^verbatim>\<open>policy.go\<close> and \<^verbatim>\<open>cilium.go\<close>) and the choice between them (\<^verbatim>\<open>internal/provider\<close>). The
  interface is the locale \<open>policy_provider\<close>: what a client of the three constructors relies
  on, interpreted on both providers. What the policies of the two providers mean for traffic is
  in the theory \<open>Traffic\<close>.
\<close>

definition slugFromLabels :: "labels \<Rightarrow> string" where
  "slugFromLabels l = map_get l LabelSlug"

definition portFromLabels :: "labels \<Rightarrow> string" where
  "portFromLabels l = (let p = map_get l LabelPort in if p \<noteq> '''' then p else ''8080'')"

section \<open>Vanilla policies\<close>

definition Vanilla_DenyAll :: "string \<Rightarrow> labels \<Rightarrow> kobj" where
  "Vanilla_DenyAll namespace l =
     (let slug = slugFromLabels l in
      KNetworkPolicy \<lparr>ObjName = slug @ ''-deny-all'', ObjNamespace = namespace, ObjLabels = l\<rparr>
        \<lparr>PolicySelector = [LabelSlug \<mapsto> slug], PolicyTypes = [PolicyIngress, PolicyEgress],
         IngressAllowed = [], EgressAllowed = []\<rparr>)"

definition Vanilla_EgressAllowlist :: "string \<Rightarrow> labels \<Rightarrow> kobj" where
  "Vanilla_EgressAllowlist namespace l =
     (let slug = slugFromLabels l; dns = 53 in
      KNetworkPolicy \<lparr>ObjName = slug @ ''-egress-allow'', ObjNamespace = namespace, ObjLabels = l\<rparr>
        \<lparr>PolicySelector = [LabelSlug \<mapsto> slug], PolicyTypes = [PolicyEgress],
         IngressAllowed = [],
         EgressAllowed =
           [\<lparr>RulePeers =
               [\<lparr>PeerNamespaceLabels = Some [''kubernetes.io/metadata.name'' \<mapsto> ''kube-system''],
                 PeerPodLabels = Some [''k8s-app'' \<mapsto> ''kube-dns'']\<rparr>],
             RulePorts =
               [\<lparr>PolicyPortNumber = dns, PolicyProtocol = UDP\<rparr>,
                \<lparr>PolicyPortNumber = dns, PolicyProtocol = TCP\<rparr>]\<rparr>]\<rparr>)"

definition Vanilla_IngressAllow :: "string \<Rightarrow> labels \<Rightarrow> kobj" where
  "Vanilla_IngressAllow namespace l =
     (let slug = slugFromLabels l;
          portNum = fst (Atoi (portFromLabels l));
          portVal = word_of_int portNum in
      KNetworkPolicy \<lparr>ObjName = slug @ ''-ingress-allow'', ObjNamespace = namespace, ObjLabels = l\<rparr>
        \<lparr>PolicySelector = [LabelSlug \<mapsto> slug], PolicyTypes = [PolicyIngress],
         IngressAllowed =
           [\<lparr>RulePeers =
               [\<lparr>PeerNamespaceLabels = Some [''kubernetes.io/metadata.name'' \<mapsto> ''ingress-nginx''],
                 PeerPodLabels = Some [''app.kubernetes.io/name'' \<mapsto> ''ingress-nginx'']\<rparr>],
             RulePorts = [\<lparr>PolicyPortNumber = portVal, PolicyProtocol = TCP\<rparr>]\<rparr>],
         EgressAllowed = []\<rparr>)"

section \<open>Cilium policies\<close>

definition ciliumPolicy :: "string \<Rightarrow> string \<Rightarrow> labels \<Rightarrow> (string \<times> json) list \<Rightarrow> kobj" where
  "ciliumPolicy name namespace l spec =
     KCiliumPolicy \<lparr>ObjName = name, ObjNamespace = namespace, ObjLabels = l\<rparr> (JObj [(''spec'', JObj spec)])"

definition endpointSelector :: "string \<Rightarrow> string \<times> json" where
  "endpointSelector slug = (''endpointSelector'', JObj [(''matchLabels'', JObj [(LabelSlug, JStr slug)])])"

definition Cilium_DenyAll :: "string \<Rightarrow> labels \<Rightarrow> kobj" where
  "Cilium_DenyAll namespace l =
     (let slug = slugFromLabels l in
      ciliumPolicy (slug @ ''-deny-all'') namespace l
        [endpointSelector slug,
         (''ingressDeny'', JArr [JObj []]),
         (''egressDeny'', JArr [JObj []])])"

definition Cilium_EgressAllowlist :: "string \<Rightarrow> labels \<Rightarrow> kobj" where
  "Cilium_EgressAllowlist namespace l =
     (let slug = slugFromLabels l in
      ciliumPolicy (slug @ ''-egress-allow'') namespace l
        [endpointSelector slug,
         (''egress'', JArr [JObj
           [(''toFQDNs'', JArr [JObj [(''matchPattern'', JStr ''*.cluster.local'')]]),
            (''toPorts'', JArr [JObj
              [(''ports'', JArr
                [JObj [(''port'', JStr ''53''), (''protocol'', JStr ''UDP'')],
                 JObj [(''port'', JStr ''53''), (''protocol'', JStr ''TCP'')]])]])]])])"

definition Cilium_IngressAllow :: "string \<Rightarrow> labels \<Rightarrow> kobj" where
  "Cilium_IngressAllow namespace l =
     (let slug = slugFromLabels l; port = portFromLabels l in
      ciliumPolicy (slug @ ''-ingress-allow'') namespace l
        [endpointSelector slug,
         (''ingress'', JArr [JObj
           [(''fromEndpoints'', JArr [JObj
              [(''matchLabels'', JObj
                [(''k8s:io.kubernetes.pod.namespace'', JStr ''ingress-nginx''),
                 (''app.kubernetes.io/name'', JStr ''ingress-nginx'')])]]),
            (''toPorts'', JArr [JObj
              [(''ports'', JArr [JObj [(''port'', JStr port), (''protocol'', JStr ''TCP'')]]),
               (''rules'', JObj [(''http'', JArr [JObj []])])]])]])])"

section \<open>The provider interface\<close>

datatype policyProvider = VanillaPolicyProvider | CiliumPolicyProvider

fun DenyAll :: "policyProvider \<Rightarrow> string \<Rightarrow> labels \<Rightarrow> kobj" where
  "DenyAll VanillaPolicyProvider = Vanilla_DenyAll"
| "DenyAll CiliumPolicyProvider = Cilium_DenyAll"

fun EgressAllowlist :: "policyProvider \<Rightarrow> string \<Rightarrow> labels \<Rightarrow> kobj" where
  "EgressAllowlist VanillaPolicyProvider = Vanilla_EgressAllowlist"
| "EgressAllowlist CiliumPolicyProvider = Cilium_EgressAllowlist"

fun IngressAllow :: "policyProvider \<Rightarrow> string \<Rightarrow> labels \<Rightarrow> kobj" where
  "IngressAllow VanillaPolicyProvider = Vanilla_IngressAllow"
| "IngressAllow CiliumPolicyProvider = Cilium_IngressAllow"

fun policy_kind :: "policyProvider \<Rightarrow> kind" where
  "policy_kind VanillaPolicyProvider = NetworkPolicyKind"
| "policy_kind CiliumPolicyProvider = CiliumPolicyKind"

locale policy_provider =
  fixes deny egress ingress :: "string \<Rightarrow> labels \<Rightarrow> kobj" and pkind :: kind
  assumes deny_key: "obj_key (deny n l) = (pkind, n, slugFromLabels l @ ''-deny-all'')"
    and egress_key: "obj_key (egress n l) = (pkind, n, slugFromLabels l @ ''-egress-allow'')"
    and ingress_key: "obj_key (ingress n l) = (pkind, n, slugFromLabels l @ ''-ingress-allow'')"
    and policy_labels: "obj_labels (deny n l) = l" "obj_labels (egress n l) = l" "obj_labels (ingress n l) = l"
begin

lemma suffixes_differ:
  "s @ ''-deny-all'' \<noteq> s' @ ''-egress-allow''"
  "s @ ''-deny-all'' \<noteq> s' @ ''-ingress-allow''"
  "s @ ''-egress-allow'' \<noteq> s' @ ''-ingress-allow''"
proof -
  have "rev (s @ ''-deny-all'') \<noteq> rev (s' @ ''-egress-allow'')"
    "rev (s @ ''-deny-all'') \<noteq> rev (s' @ ''-ingress-allow'')"
    "rev (s @ ''-egress-allow'') \<noteq> rev (s' @ ''-ingress-allow'')"
    by simp_all
  then show "s @ ''-deny-all'' \<noteq> s' @ ''-egress-allow''"
    "s @ ''-deny-all'' \<noteq> s' @ ''-ingress-allow''"
    "s @ ''-egress-allow'' \<noteq> s' @ ''-ingress-allow''" by metis+
qed

text \<open>No two policies of a namespace clash, unless they are the same policy of the same slug.\<close>

lemma keys_apart:
  "obj_key (deny n l) \<noteq> obj_key (egress n' l')"
  "obj_key (deny n l) \<noteq> obj_key (ingress n' l')"
  "obj_key (egress n l) \<noteq> obj_key (ingress n' l')"
  by (simp_all only: deny_key egress_key ingress_key prod.inject suffixes_differ simp_thms)

lemma keys_by_slug:
  "obj_key (deny n l) = obj_key (deny n l') \<longleftrightarrow> slugFromLabels l = slugFromLabels l'"
  "obj_key (egress n l) = obj_key (egress n l') \<longleftrightarrow> slugFromLabels l = slugFromLabels l'"
  "obj_key (ingress n l) = obj_key (ingress n l') \<longleftrightarrow> slugFromLabels l = slugFromLabels l'"
  by (simp_all add: deny_key egress_key ingress_key)

text \<open>Every policy leads the watch handler back to the exam of its labels.\<close>

lemma leads_back:
  "x \<in> {deny n l, egress n l, ingress n l} \<Longrightarrow> l = (Labels e sid slug)(LabelPort \<mapsto> p) \<Longrightarrow>
   Name e \<noteq> '''' \<Longrightarrow> Namespace e \<noteq> '''' \<Longrightarrow> requestsForOwnedObject x = [(Namespace e, Name e)]"
  by (auto simp: requestsForOwnedObject_def policy_labels map_get_def Let_def)

end

interpretation vanilla: policy_provider Vanilla_DenyAll Vanilla_EgressAllowlist Vanilla_IngressAllow NetworkPolicyKind
  by unfold_locales
    (simp_all add: Vanilla_DenyAll_def Vanilla_EgressAllowlist_def Vanilla_IngressAllow_def obj_key_def Let_def)

interpretation cilium: policy_provider Cilium_DenyAll Cilium_EgressAllowlist Cilium_IngressAllow CiliumPolicyKind
  by unfold_locales
    (simp_all add: Cilium_DenyAll_def Cilium_EgressAllowlist_def Cilium_IngressAllow_def ciliumPolicy_def
      obj_key_def Let_def)

interpretation provider: policy_provider "DenyAll p" "EgressAllowlist p" "IngressAllow p" "policy_kind p" for p
  by (cases p) (simp_all add: vanilla.policy_provider_axioms cilium.policy_provider_axioms)

section \<open>Choosing the provider\<close>

text \<open>
  The discovery client is nil or answers for a group and version with an error flag and
  the kinds it serves, or no list.
\<close>

type_synonym discovery = "string \<Rightarrow> bool \<times> string list option"

definition SelectPolicyProvider :: "discovery option \<Rightarrow> policyProvider" where
  "SelectPolicyProvider disc =
     (case disc of
        None \<Rightarrow> VanillaPolicyProvider
      | Some d \<Rightarrow>
          (case d ''cilium.io/v2'' of (err, resources) \<Rightarrow>
             (case resources of
                Some ks \<Rightarrow> if \<not> err \<and> list_ex (\<lambda>k. k = ''CiliumNetworkPolicy'') ks
                           then CiliumPolicyProvider else VanillaPolicyProvider
              | None \<Rightarrow> VanillaPolicyProvider)))"

section \<open>The labels of the policies\<close>

text \<open>The labels of an instance's policies: the pod's labels and the port.\<close>

definition policyLabels :: "exam \<Rightarrow> string \<Rightarrow> string \<Rightarrow> labels" where
  "policyLabels e studentID slug =
     (Labels e studentID slug)(LabelPort \<mapsto> dec_int (sint (Port (Template (Spec e)))))"

lemma policyLabels_slug [simp]: "slugFromLabels (policyLabels e sid slug) = slug"
  by (simp add: slugFromLabels_def policyLabels_def map_get_def)

lemma policyLabels_LabelSlug [simp]: "policyLabels e sid slug LabelSlug = Some slug"
  by (simp add: policyLabels_def)

lemma policyLabels_upd_status [simp]: "policyLabels (upd_status f e) = policyLabels e"
  by (simp add: policyLabels_def fun_eq_iff)

lemma sint32_bounds: "min_int64 \<le> sint (p :: int32)" "sint (p :: int32) \<le> max_int64"
  using sint_ge [of p] sint_lt [of p] by (simp_all add: min_int64_def max_int64_def)

lemma port_roundtrip: "word_of_int (fst (Atoi (portFromLabels (policyLabels e sid slug)))) = Port (Template (Spec e))"
  by (simp add: portFromLabels_def policyLabels_def map_get_def Atoi_dec_int sint32_bounds Let_def of_int_sint)

section \<open>Properties\<close>

text \<open>
  The provider contract holds for both backends: deny-all, egress and ingress policies
  of one namespace never overwrite one another, whatever the slugs, and each is keyed by its
  slug alone, so creating a policy again for the same slug always meets the existing one.
\<close>
theorem policies_never_clash:
  "obj_key (DenyAll p n l) \<noteq> obj_key (EgressAllowlist p n' l') \<and>
   obj_key (DenyAll p n l) \<noteq> obj_key (IngressAllow p n' l') \<and>
   obj_key (EgressAllowlist p n l) \<noteq> obj_key (IngressAllow p n' l') \<and>
   (obj_key (IngressAllow p n l) = obj_key (IngressAllow p n l') \<longleftrightarrow> slugFromLabels l = slugFromLabels l') \<and>
   (obj_key (DenyAll p n l) = obj_key (DenyAll p n l') \<longleftrightarrow> slugFromLabels l = slugFromLabels l')"
  using provider.keys_apart [of p n l n' l'] provider.keys_by_slug [of p n l l'] by blast

end
