(* ===== verification/Schedule.thy ===== *)
theory Schedule
  imports ExamTypes
begin

text \<open>
  The timing functions of \<^verbatim>\<open>internal/controller/exam_controller.go\<close>: the lock time, the
  four times computed from a specification, and the phase the clock asks for. The stages of
  the documented lifecycle are ordered, and the phase function is shown to move along that
  order one edge at a time.
\<close>

section \<open>Lock time and schedule\<close>

definition effectiveMultiplier :: "f64 \<Rightarrow> f64" where
  "effectiveMultiplier m = (if f64_eq m (Fin 0) then Fin (3 / 2) else m)"

definition computeLockTime :: "time \<Rightarrow> duration \<Rightarrow> f64 \<Rightarrow> time" where
  "computeLockTime unlock d multiplier = time_add unlock (dur_scale d (effectiveMultiplier multiplier))"

record schedule =
  provisionTime :: time
  emailTime :: time
  lockTime :: time
  retentionDeadline :: time

definition computeSchedule :: "exam \<Rightarrow> schedule" where
  "computeSchedule exam =
     (let unlock = Unlock (Schedule (Spec exam));
          d = Duration (Schedule (Spec exam));
          mult = effectiveMultiplier (TimeMultiplier (Schedule (Spec exam)));
          provBefore = (if ProvisionBefore (Schedule (Spec exam)) = 0 then Hour
                        else ProvisionBefore (Schedule (Spec exam)));
          emailBefore = (if Before (SpecEmail (Spec exam)) = 0 then 30 * Minute
                         else Before (SpecEmail (Spec exam)));
          retention = (if Retention (Schedule (Spec exam)) = 0 then 24 * Hour
                       else Retention (Schedule (Spec exam)));
          lock = computeLockTime unlock d mult
      in \<lparr>provisionTime = time_add unlock (- provBefore),
          emailTime = time_add unlock (- emailBefore),
          lockTime = lock,
          retentionDeadline = time_add lock retention\<rparr>)"

section \<open>The phase the clock asks for\<close>

definition determineDesiredPhase :: "exam \<Rightarrow> time \<Rightarrow> examPhase" where
  "determineDesiredPhase exam now =
     (let current = ExPhase (ExStatus exam); s = computeSchedule exam in
      case current of
        PhaseEmpty \<Rightarrow> if time_before now (provisionTime s) then PhasePending else PhaseProvisioning
      | PhasePending \<Rightarrow> if time_before now (provisionTime s) then PhasePending else PhaseProvisioning
      | PhaseProvisioning \<Rightarrow> PhaseProvisioning
      | PhaseReady \<Rightarrow>
          if time_before now (Unlock (Schedule (Spec exam))) then PhaseReady else PhaseUnlocked
      | PhaseUnlocked \<Rightarrow> if time_before now (lockTime s) then PhaseUnlocked else PhaseLocked
      | PhaseLocked \<Rightarrow>
          (case RetentionDeadline (ExStatus exam) of
             None \<Rightarrow> PhaseLocked
           | Some deadline \<Rightarrow> if \<not> time_before now deadline then PhaseTearingDown else PhaseLocked)
      | PhaseTearingDown \<Rightarrow> PhaseTearingDown
      | PhaseOther _ \<Rightarrow> current)"

section \<open>Stages of the lifecycle\<close>

datatype stage = Waiting | Provisioning | Ready | Unlocked | Locked | TearingDown

fun stage_rank :: "stage \<Rightarrow> nat" where
  "stage_rank Waiting = 0"
| "stage_rank Provisioning = 1"
| "stage_rank Ready = 2"
| "stage_rank Unlocked = 3"
| "stage_rank Locked = 4"
| "stage_rank TearingDown = 5"

lemma stage_rank_inject [simp]: "stage_rank a = stage_rank b \<longleftrightarrow> a = b"
  by (cases a; cases b) auto

instantiation stage :: linorder
begin

definition less_eq_stage :: "stage \<Rightarrow> stage \<Rightarrow> bool" where
  "less_eq_stage a b \<longleftrightarrow> stage_rank a \<le> stage_rank b"

definition less_stage :: "stage \<Rightarrow> stage \<Rightarrow> bool" where
  "less_stage a b \<longleftrightarrow> stage_rank a < stage_rank b"

instance
  by standard (auto simp: less_eq_stage_def less_stage_def)

end

text \<open>The stage of a phase; a phase outside the lifecycle has none.\<close>

fun stage_of :: "examPhase \<Rightarrow> stage option" where
  "stage_of PhaseEmpty = Some Waiting"
| "stage_of PhasePending = Some Waiting"
| "stage_of PhaseProvisioning = Some Provisioning"
| "stage_of PhaseReady = Some Ready"
| "stage_of PhaseUnlocked = Some Unlocked"
| "stage_of PhaseLocked = Some Locked"
| "stage_of PhaseTearingDown = Some TearingDown"
| "stage_of (PhaseOther _) = None"

text \<open>
  The abstract timetable: when the clock lets a stage end. Provisioning ends when the
  instances are healthy, not by the clock.
\<close>

fun due :: "exam \<Rightarrow> time \<Rightarrow> stage \<Rightarrow> bool" where
  "due e now Waiting \<longleftrightarrow> provisionTime (computeSchedule e) \<le> now"
| "due e now Provisioning \<longleftrightarrow> False"
| "due e now Ready \<longleftrightarrow> Unlock (Schedule (Spec e)) \<le> now"
| "due e now Unlocked \<longleftrightarrow> lockTime (computeSchedule e) \<le> now"
| "due e now Locked \<longleftrightarrow>
     (case RetentionDeadline (ExStatus e) of None \<Rightarrow> False | Some d \<Rightarrow> d \<le> now)"
| "due e now TearingDown \<longleftrightarrow> False"

fun next_stage :: "stage \<Rightarrow> stage" where
  "next_stage Waiting = Provisioning"
| "next_stage Provisioning = Ready"
| "next_stage Ready = Unlocked"
| "next_stage Unlocked = Locked"
| "next_stage Locked = TearingDown"
| "next_stage TearingDown = TearingDown"

definition timetable_step :: "exam \<Rightarrow> time \<Rightarrow> stage \<Rightarrow> stage" where
  "timetable_step e now s = (if due e now s then next_stage s else s)"

lemma next_stage_ge: "s \<le> next_stage s"
  by (cases s) (simp_all add: less_eq_stage_def)

lemma timetable_step_cases: "timetable_step e now s = s \<or> timetable_step e now s = next_stage s"
  by (simp add: timetable_step_def)

lemma timetable_step_ge: "s \<le> timetable_step e now s"
  by (simp add: timetable_step_def next_stage_ge)

lemma determineDesiredPhase_stage:
  "stage_of (determineDesiredPhase e now) = map_option (timetable_step e now) (stage_of (ExPhase (ExStatus e)))"
  by (cases "ExPhase (ExStatus e)")
    (auto simp: determineDesiredPhase_def timetable_step_def time_before_def Let_def split: option.splits)

lemma computeSchedule_upd_status [simp]: "computeSchedule (upd_status f e) = computeSchedule e"
  by (simp add: computeSchedule_def Let_def)

lemma effectiveMultiplier_idem [simp]:
  "effectiveMultiplier (effectiveMultiplier m) = effectiveMultiplier m"
  by (simp add: effectiveMultiplier_def f64_eq_def)

lemma lockTime_eq:
  "lockTime (computeSchedule e) =
    Unlock (Schedule (Spec e)) +
    nanos (dur_scale (Duration (Schedule (Spec e))) (effectiveMultiplier (TimeMultiplier (Schedule (Spec e)))))"
  by (simp add: computeSchedule_def computeLockTime_def time_add_def Let_def)

section \<open>Properties\<close>

text \<open>
  C26: the phase the clock asks for refines the abstract timetable: its stage is the current
  stage or the next one, the next one exactly when the timetable says the current stage has
  ended, so the clock alone never skips a stage, never goes back, and never leaves
  Provisioning or TearingDown.
\<close>
theorem determineDesiredPhase_refines_timetable:
  "stage_of (determineDesiredPhase e now) =
     map_option (timetable_step e now) (stage_of (ExPhase (ExStatus e)))"
  by (rule determineDesiredPhase_stage)

end
