(* ===== verification/Environment.thy ===== *)
theory Environment
  imports NetworkPolicy Notifier Namespace
begin

text \<open>
  The world around the controller. Everything that is not code of the repository (the API
  server behind the client, the clock, the random source, SMTP and HTTP, Prometheus) is a
  parameter: a function that answers a call from the log of everything that happened before
  it. Such a function can be any server, with any failures, delays and concurrent changes.
  Each call appends one event with its arguments and its answer; effectful code is a state
  monad over that log, newest event first.

  The record \<open>reconciler\<close> is the struct \<^verbatim>\<open>ExamReconciler\<close> with its client and the process
  environment. Its embedded client is never nil in a running manager, so the guards
  \<^verbatim>\<open>r.Client != nil\<close> of the slug lookups are true.
\<close>

section \<open>Events\<close>

datatype api_error = NotFound | AlreadyExists | Conflict | OtherApiError string

definition IsNotFound :: "api_error \<Rightarrow> bool" where
  "IsNotFound e \<longleftrightarrow> e = NotFound"

definition IsAlreadyExists :: "api_error \<Rightarrow> bool" where
  "IsAlreadyExists e \<longleftrightarrow> e = AlreadyExists"

text \<open>The metric vectors of \<^verbatim>\<open>internal/metrics/metrics.go\<close>.\<close>

datatype metric_vec =
    PhaseTransitions | InstancesTotalVec | InstancesHealthyVec | InstancesFailedVec
  | EmailsSentVec | EmailsFailedVec | DryRunPassedVec | DryRunFailedVec
  | SecondsUntilUnlock | SecondsUntilLock | ProvisionDuration | PhaseDuration | SpareSwaps

datatype metric_op =
    MSet metric_vec "string list" f64
  | MInc metric_vec "string list"
  | MObserve metric_vec "string list" f64
  | MDelete metric_vec "string list"
  | MDeletePartial metric_vec "(string \<times> string) list"
  | MReconcileDuration f64
  | MReconcileErrors

datatype http_result = BadURL string | NoResponse string | Response int

datatype event =
    EvNow time
  | EvGetExam "string \<times> string" "api_error + exam"
  | EvGetSecret "string \<times> string" "api_error + secretData"
  | EvList kind string labels "api_error + kobj list"
  | EvCreate kobj "api_error option"
  | EvDelete okey "api_error option"
  | EvApply kobj "api_error option"
  | EvUpdate exam "api_error + exam"
  | EvStatusUpdate exam "api_error option"
  | EvSlug "rand_error + string"
  | EvSmtp string "(string \<times> string) option" string "string list" string "string option"
  | EvSend string "string list" string "string option"
  | EvSleep duration
  | EvHTTP duration string http_result
  | EvCheckHealth string "string option"
  | EvCheckBlocked string "string option"
  | EvMetric metric_op

type_synonym log = "event list"
type_synonym 'a io = "(log, 'a) state"

section \<open>The reconciler and its environment\<close>

record platformConfig =
  BaseDomain :: string
  IngressTLSSecretName :: string
  SMTPSecretName :: string
  SecretNamespace :: string

datatype senderField = NoSender | IsRetrySender | OtherSender

datatype checkerField = NoChecker | OtherChecker

text \<open>
  The answers of the client, of the injected interfaces, of the helper functions of
  \<^verbatim>\<open>apimachinery\<close> and \<^verbatim>\<open>controller-runtime\<close> that edit conditions and finalizers, and of
  the process environment. Setting a condition reads the clock for its transition time.
\<close>

record reconciler =
  cl_GetExam :: "log \<Rightarrow> string \<times> string \<Rightarrow> api_error + exam"
  cl_GetSecret :: "log \<Rightarrow> string \<times> string \<Rightarrow> api_error + secretData"
  cl_List :: "log \<Rightarrow> kind \<Rightarrow> string \<Rightarrow> labels \<Rightarrow> api_error + kobj list"
  cl_Create :: "log \<Rightarrow> kobj \<Rightarrow> api_error option"
  cl_Delete :: "log \<Rightarrow> okey \<Rightarrow> api_error option"
  cl_Apply :: "log \<Rightarrow> kobj \<Rightarrow> api_error option"
  cl_Update :: "log \<Rightarrow> exam \<Rightarrow> api_error + exam"
  cl_StatusUpdate :: "log \<Rightarrow> exam \<Rightarrow> api_error option"
  Platform :: platformConfig
  PolicyProvider :: policyProvider
  Sender :: senderField
  injected_Send :: "log \<Rightarrow> string \<Rightarrow> string list \<Rightarrow> string \<Rightarrow> string option"
  Now :: "(log \<Rightarrow> time) option"
  Metrics :: bool
  Checker :: checkerField
  injected_CheckHealth :: "log \<Rightarrow> string \<Rightarrow> string option"
  injected_CheckBlocked :: "log \<Rightarrow> string \<Rightarrow> string option"
  meta_SetStatusCondition :: "log \<Rightarrow> condition list \<Rightarrow> condition \<Rightarrow> condition list"
  meta_IsStatusConditionTrue :: "condition list \<Rightarrow> conditionType \<Rightarrow> bool"
  ctl_ContainsFinalizer :: "exam \<Rightarrow> string \<Rightarrow> bool"
  ctl_AddFinalizer :: "exam \<Rightarrow> string \<Rightarrow> exam"
  ctl_RemoveFinalizer :: "exam \<Rightarrow> string \<Rightarrow> exam"
  os_Now :: "log \<Rightarrow> time"
  os_Entropy :: "log \<Rightarrow> byte list"
  os_SendMail :: "log \<Rightarrow> string \<Rightarrow> (string \<times> string) option \<Rightarrow> string \<Rightarrow> string list \<Rightarrow> string \<Rightarrow> string option"
  os_HTTP :: "log \<Rightarrow> duration \<Rightarrow> string \<Rightarrow> http_result"

definition rNow :: "reconciler \<Rightarrow> time io" where
  "rNow r = (case Now r of Some f \<Rightarrow> ask f EvNow | None \<Rightarrow> ask (os_Now r) EvNow)"

definition metaNow :: "reconciler \<Rightarrow> time io" where
  "metaNow r = ask (os_Now r) EvNow"

definition rGetExam :: "reconciler \<Rightarrow> string \<times> string \<Rightarrow> (api_error + exam) io" where
  "rGetExam r k = ask (\<lambda>h. cl_GetExam r h k) (EvGetExam k)"

definition rGetSecret :: "reconciler \<Rightarrow> string \<times> string \<Rightarrow> (api_error + secretData) io" where
  "rGetSecret r k = ask (\<lambda>h. cl_GetSecret r h k) (EvGetSecret k)"

definition rList :: "reconciler \<Rightarrow> kind \<Rightarrow> string \<Rightarrow> labels \<Rightarrow> (api_error + kobj list) io" where
  "rList r k ns sel = ask (\<lambda>h. cl_List r h k ns sel) (EvList k ns sel)"

definition rCreate :: "reconciler \<Rightarrow> kobj \<Rightarrow> api_error option io" where
  "rCreate r x = ask (\<lambda>h. cl_Create r h x) (EvCreate x)"

definition rDelete :: "reconciler \<Rightarrow> okey \<Rightarrow> api_error option io" where
  "rDelete r k = ask (\<lambda>h. cl_Delete r h k) (EvDelete k)"

definition rCreateOrUpdate :: "reconciler \<Rightarrow> kobj \<Rightarrow> api_error option io" where
  "rCreateOrUpdate r x = ask (\<lambda>h. cl_Apply r h x) (EvApply x)"

definition rUpdate :: "reconciler \<Rightarrow> exam \<Rightarrow> (api_error + exam) io" where
  "rUpdate r e = ask (\<lambda>h. cl_Update r h e) (EvUpdate e)"

definition rStatusUpdate :: "reconciler \<Rightarrow> exam \<Rightarrow> api_error option io" where
  "rStatusUpdate r e = ask (\<lambda>h. cl_StatusUpdate r h e) (EvStatusUpdate e)"

definition slugGenerate :: "reconciler \<Rightarrow> (rand_error + string) io" where
  "slugGenerate r = ask (\<lambda>h. fst (Generate (os_Entropy r h))) EvSlug"

text \<open>A library call that leaves no event.\<close>

definition reads :: "(log \<Rightarrow> 'a) \<Rightarrow> 'a io" where
  "reads f = State (\<lambda>h. (f h, h))"

lemma run_reads [simp]: "run_state (reads f) h = (f h, h)"
  by (simp add: reads_def)

definition metric :: "reconciler \<Rightarrow> metric_op \<Rightarrow> unit io" where
  "metric r op = (if Metrics r then emit (EvMetric op) else ret ())"

section \<open>Rules for the calls\<close>

text \<open>
  For each call, what its event must satisfy for the call to be harmless. A slug that the
  generator returns has the shape of a slug.
\<close>

lemma emits_calls [emit_rules]:
  "(\<And>t. E (EvNow t) \<and> Qt t) \<Longrightarrow> emits E (rNow r) Qt"
  "(\<And>t. E (EvNow t) \<and> Qt t) \<Longrightarrow> emits E (metaNow r) Qt"
  "(\<And>x. E (EvGetExam k x) \<and> Qe x) \<Longrightarrow> emits E (rGetExam r k) Qe"
  "(\<And>x. E (EvGetSecret k x) \<and> Qs x) \<Longrightarrow> emits E (rGetSecret r k) Qs"
  "(\<And>x. E (EvList kd n sel x) \<and> Ql x) \<Longrightarrow> emits E (rList r kd n sel) Ql"
  "(\<And>x. E (EvCreate ob x) \<and> Qc x) \<Longrightarrow> emits E (rCreate r ob) Qc"
  "(\<And>x. E (EvDelete ky x) \<and> Qc x) \<Longrightarrow> emits E (rDelete r ky) Qc"
  "(\<And>x. E (EvApply ob x) \<and> Qc x) \<Longrightarrow> emits E (rCreateOrUpdate r ob) Qc"
  "(\<And>x. E (EvUpdate ex x) \<and> Qe x) \<Longrightarrow> emits E (rUpdate r ex) Qe"
  "(\<And>x. E (EvStatusUpdate ex x) \<and> Qc x) \<Longrightarrow> emits E (rStatusUpdate r ex) Qc"
  by (auto simp: rNow_def metaNow_def rGetExam_def rGetSecret_def rList_def rCreate_def rDelete_def
      rCreateOrUpdate_def rUpdate_def rStatusUpdate_def intro!: emits_ask split: option.splits)

lemma emits_slugGenerate [emit_rules]:
  assumes "\<And>s. is_slug s \<Longrightarrow> E (EvSlug (Inr s)) \<and> Q (Inr s)"
    and "\<And>e. E (EvSlug (Inl e)) \<and> Q (Inl e)"
  shows "emits E (slugGenerate r) Q"
proof -
  have "E (EvSlug (fst (Generate rd))) \<and> Q (fst (Generate rd))" for rd
  proof (cases "Generate rd")
    case (Pair res rd')
    then show ?thesis using assms Generate_is_slug [of rd _ rd'] by (cases res) auto
  qed
  then show ?thesis unfolding emits_def slugGenerate_def by (auto intro: runs_ask)
qed

lemma emits_metric [emit_rules]: "E (EvMetric op) \<Longrightarrow> Q () \<Longrightarrow> emits E (metric r op) Q"
  by (auto simp: metric_def intro: emit_rules)

lemma emits_reads [emit_rules]: "(\<And>h. Q (f h)) \<Longrightarrow> emits E (reads f) Q"
  by (simp add: emits_def runs_def)

text \<open>
  What is documented of the condition helpers: setting a condition makes its type report
  its status and leaves every other type alone.
\<close>

definition condition_api :: "reconciler \<Rightarrow> bool" where
  "condition_api r \<longleftrightarrow>
     (\<forall>h cs c t. meta_IsStatusConditionTrue r (meta_SetStatusCondition r h cs c) t =
        (if t = Type c then Status c = ConditionTrue else meta_IsStatusConditionTrue r cs t))"

end
