(* ===== verification/Sample.thy ===== *)
theory Sample
  imports Environment SampleExam
begin

text \<open>
  A concrete environment, for runs of the model on concrete input: a server that holds one
  exam and no other object and accepts every call, a clock that stands still, a mail server
  that accepts every message. The condition and finalizer helpers behave as documented.
\<close>

definition sample_reconciler :: "exam \<Rightarrow> time \<Rightarrow> reconciler" where
  "sample_reconciler e t =
     \<lparr>cl_GetExam = \<lambda>h k. if k = (Namespace e, Name e) then Inr e else Inl NotFound, cl_GetSecret = \<lambda>h k. Inl NotFound, cl_List = \<lambda>h k n sel. Inr [],
      cl_Create = \<lambda>h x. None, cl_Delete = \<lambda>h k. None, cl_Apply = \<lambda>h x. None,
      cl_Update = \<lambda>h e'. Inr e', cl_StatusUpdate = \<lambda>h e'. None,
      Platform = \<lparr>BaseDomain = ''exam.otu.ca'', IngressTLSSecretName = '''', SMTPSecretName = '''',
                  SecretNamespace = ''''\<rparr>,
      PolicyProvider = VanillaPolicyProvider, Sender = OtherSender, injected_Send = \<lambda>h from to msg. None,
      Now = Some (\<lambda>h. t), Metrics = False, Checker = OtherChecker,
      injected_CheckHealth = \<lambda>h u. None, injected_CheckBlocked = \<lambda>h u. None,
      meta_SetStatusCondition = \<lambda>h cs c. c # filter (\<lambda>d. Type d \<noteq> Type c) cs,
      meta_IsStatusConditionTrue = \<lambda>cs ty. list_ex (\<lambda>d. Type d = ty \<and> Status d = ConditionTrue) cs,
      ctl_ContainsFinalizer = \<lambda>e f. f \<in> set (Finalizers e),
      ctl_AddFinalizer = \<lambda>e f. e\<lparr>Finalizers := Finalizers e @ [f]\<rparr>,
      ctl_RemoveFinalizer = \<lambda>e f. e\<lparr>Finalizers := removeAll f (Finalizers e)\<rparr>,
      os_Now = \<lambda>h. t, os_Entropy = \<lambda>h. replicate 64 0,
      os_SendMail = \<lambda>h addr auth from to msg. None, os_HTTP = \<lambda>h d u. Response 200\<rparr>"

lemma sample_simps [simp]:
  "cl_GetExam (sample_reconciler e t) h k = (if k = (Namespace e, Name e) then Inr e else Inl NotFound)"
  "cl_GetSecret (sample_reconciler e t) h k = Inl NotFound"
  "cl_List (sample_reconciler e t) h kd n sel = Inr []"
  "cl_Create (sample_reconciler e t) h x = None"
  "cl_Delete (sample_reconciler e t) h ky = None"
  "cl_Apply (sample_reconciler e t) h x = None"
  "cl_Update (sample_reconciler e t) h e' = Inr e'"
  "cl_StatusUpdate (sample_reconciler e t) h e' = None"
  "Platform (sample_reconciler e t) =
     \<lparr>BaseDomain = ''exam.otu.ca'', IngressTLSSecretName = '''', SMTPSecretName = '''', SecretNamespace = ''''\<rparr>"
  "PolicyProvider (sample_reconciler e t) = VanillaPolicyProvider"
  "Sender (sample_reconciler e t) = OtherSender"
  "injected_Send (sample_reconciler e t) h fr to msg = None"
  "Now (sample_reconciler e t) = Some (\<lambda>h. t)"
  "Metrics (sample_reconciler e t) = False"
  "Checker (sample_reconciler e t) = OtherChecker"
  "injected_CheckHealth (sample_reconciler e t) h u = None"
  "injected_CheckBlocked (sample_reconciler e t) h u = None"
  "meta_SetStatusCondition (sample_reconciler e t) h cs c = c # filter (\<lambda>d. Type d \<noteq> Type c) cs"
  "meta_IsStatusConditionTrue (sample_reconciler e t) cs ty =
     list_ex (\<lambda>d. Type d = ty \<and> Status d = ConditionTrue) cs"
  "ctl_ContainsFinalizer (sample_reconciler e t) e' f = (f \<in> set (Finalizers e'))"
  "ctl_AddFinalizer (sample_reconciler e t) e' f = e'\<lparr>Finalizers := Finalizers e' @ [f]\<rparr>"
  "ctl_RemoveFinalizer (sample_reconciler e t) e' f = e'\<lparr>Finalizers := removeAll f (Finalizers e')\<rparr>"
  "os_Now (sample_reconciler e t) h = t"
  "os_Entropy (sample_reconciler e t) h = replicate 64 0"
  "os_SendMail (sample_reconciler e t) h addr auth fr to msg = None"
  "os_HTTP (sample_reconciler e t) h d u = Response 200"
  by (simp_all add: sample_reconciler_def)

lemma sample_condition_api: "condition_api (sample_reconciler e t)"
  by (auto simp: condition_api_def list_ex_iff)

end
