(* ===== verification/Metrics.thy ===== *)
theory Metrics
  imports Sample
begin

text \<open>
  \<^verbatim>\<open>internal/metrics/metrics.go\<close>: the label names of the metric vectors and the cleanup of an
  exam's series. The series that exist after a log of operations are those a Prometheus
  vector keeps: an update creates the series of its label values, a deletion removes the
  series with those label values, a partial match removes every series that has them.
\<close>

definition examLabels :: "string list" where
  "examLabels = [''exam'', ''namespace'']"

fun vec_labels :: "metric_vec \<Rightarrow> string list" where
  "vec_labels PhaseTransitions = [''exam'', ''namespace'', ''from'', ''to'']"
| "vec_labels ProvisionDuration = [''exam'', ''namespace'', ''student'']"
| "vec_labels PhaseDuration = [''exam'', ''namespace'', ''phase'']"
| "vec_labels _ = examLabels"

definition LabelValues :: "string \<Rightarrow> string \<Rightarrow> string list" where
  "LabelValues name namespace = [name, namespace]"

fun do_metrics :: "reconciler \<Rightarrow> metric_op list \<Rightarrow> unit io" where
  "do_metrics r [] = ret ()"
| "do_metrics r (op # ops) = do { _ \<leftarrow> metric r op; do_metrics r ops }"

definition cleanup_ops :: "string \<Rightarrow> string \<Rightarrow> metric_op list" where
  "cleanup_ops name namespace =
     (let match = [(''exam'', name), (''namespace'', namespace)]; lv = [name, namespace] in
      [MDeletePartial PhaseTransitions match,
       MDelete InstancesTotalVec lv,
       MDelete InstancesHealthyVec lv,
       MDelete InstancesFailedVec lv,
       MDelete EmailsSentVec lv,
       MDelete EmailsFailedVec lv,
       MDelete DryRunPassedVec lv,
       MDelete DryRunFailedVec lv,
       MDelete SecondsUntilUnlock lv,
       MDelete SecondsUntilLock lv,
       MDeletePartial ProvisionDuration match,
       MDeletePartial PhaseDuration match,
       MDelete SpareSwaps lv])"

definition CleanupExam :: "reconciler \<Rightarrow> string \<Rightarrow> string \<Rightarrow> unit io" where
  "CleanupExam r name namespace = do_metrics r (cleanup_ops name namespace)"

section \<open>The series of a vector\<close>

definition partial_match :: "metric_vec \<Rightarrow> (string \<times> string) list \<Rightarrow> string list \<Rightarrow> bool" where
  "partial_match v match lv \<longleftrightarrow> list_all (\<lambda>(k, x). map_of (zip (vec_labels v) lv) k = Some x) match"

fun apply_metric :: "metric_op \<Rightarrow> (metric_vec \<times> string list) set \<Rightarrow> (metric_vec \<times> string list) set" where
  "apply_metric (MSet v lv _) S = insert (v, lv) S"
| "apply_metric (MInc v lv) S = insert (v, lv) S"
| "apply_metric (MObserve v lv _) S = insert (v, lv) S"
| "apply_metric (MDelete v lv) S = S - {(v, lv)}"
| "apply_metric (MDeletePartial v match) S = {(w, lv) \<in> S. w = v \<longrightarrow> \<not> partial_match v match lv}"
| "apply_metric (MReconcileDuration _) S = S"
| "apply_metric MReconcileErrors S = S"

fun live_series :: "log \<Rightarrow> (metric_vec \<times> string list) set" where
  "live_series [] = {}"
| "live_series (EvMetric op # h) = apply_metric op (live_series h)"
| "live_series (_ # h) = live_series h"

text \<open>The series that carry the labels of one exam.\<close>

definition series_of :: "string \<Rightarrow> string \<Rightarrow> metric_vec \<times> string list \<Rightarrow> bool" where
  "series_of name namespace s \<longleftrightarrow>
     (case s of (v, lv) \<Rightarrow> length lv = length (vec_labels v) \<and> take 2 lv = [name, namespace])"

lemma run_do_metrics:
  "run_state (do_metrics r ops) h = ((), if Metrics r then rev (map EvMetric ops) @ h else h)"
  by (induction ops arbitrary: h) (auto simp: metric_def)

lemma live_series_append:
  "live_series (rev (map EvMetric ops) @ h) = fold apply_metric ops (live_series h)"
  by (induction ops arbitrary: h) auto

lemma emits_do_metrics [emit_rules]:
  "(\<And>op. op \<in> set ops \<Longrightarrow> E (EvMetric op)) \<Longrightarrow> Q () \<Longrightarrow> emits E (do_metrics r ops) Q"
  by (induction ops) (auto intro!: emit_rules emits_bind_True)

lemma emits_CleanupExam [emit_rules]:
  "(\<And>op. E (EvMetric op)) \<Longrightarrow> Q () \<Longrightarrow> emits E (CleanupExam r n ns) Q"
  by (simp add: CleanupExam_def emits_do_metrics)

text \<open>What the cleanup deletes, and that it is what carries the exam's labels.\<close>

definition cleanup_hits :: "string \<Rightarrow> string \<Rightarrow> metric_vec \<Rightarrow> string list \<Rightarrow> bool" where
  "cleanup_hits name namespace v lv \<longleftrightarrow>
     (if v \<in> {PhaseTransitions, ProvisionDuration, PhaseDuration}
      then partial_match v [(''exam'', name), (''namespace'', namespace)] lv
      else lv = [name, namespace])"

lemma cleanup_removes:
  "fold apply_metric (cleanup_ops name namespace) S = {(v, lv) \<in> S. \<not> cleanup_hits name namespace v lv}"
  (is "?L = ?R")
proof -
  have "(v, lv) \<in> ?L \<longleftrightarrow> (v, lv) \<in> ?R" for v lv
    by (cases v) (auto simp: cleanup_ops_def cleanup_hits_def Let_def)
  then show ?thesis by auto
qed

lemma cleanup_hits_series_of:
  "length lv = length (vec_labels v) \<Longrightarrow> cleanup_hits name namespace v lv \<longleftrightarrow> series_of name namespace (v, lv)"
  by (cases v; cases lv; cases "tl lv")
    (auto simp: series_of_def partial_match_def examLabels_def cleanup_hits_def)

text \<open>Every series has one value per label name, as Prometheus enforces.\<close>

definition arity_ok :: "log \<Rightarrow> bool" where
  "arity_ok h \<longleftrightarrow> (\<forall>(v, lv) \<in> live_series h. length lv = length (vec_labels v))"

lemma live_series_CleanupExam:
  assumes "Metrics r" "arity_ok h"
  shows "live_series (snd (run_state (CleanupExam r name namespace) h)) =
    {s \<in> live_series h. \<not> series_of name namespace s}"
proof -
  have "live_series (snd (run_state (CleanupExam r name namespace) h)) =
      {(v, lv) \<in> live_series h. \<not> cleanup_hits name namespace v lv}"
    using assms(1) by (simp add: CleanupExam_def run_do_metrics live_series_append cleanup_removes)
  also have "\<dots> = {s \<in> live_series h. \<not> series_of name namespace s}"
    using assms(2) by (auto simp: arity_ok_def cleanup_hits_series_of)
  finally show ?thesis .
qed

end
