(* ===== verification/Smoketest.thy ===== *)
theory Smoketest
  imports Environment "HOL-Library.Sublist"
begin

text \<open>
  \<^verbatim>\<open>internal/smoketest/runner.go\<close>: the HTTP probes and the dry run. The interface
  \<^verbatim>\<open>HealthChecker\<close> is the locale \<open>health_checker\<close>: a checker whose two probes answer from a
  fixed state of the network. It is interpreted on the HTTP checker over a fixed network
  and on the test double.
\<close>

section \<open>The HTTP checker\<close>

text \<open>The cached clients of the struct carry nothing but these timeouts.\<close>

record httpChecker =
  HealthTimeout :: duration
  BlockedTimeout :: duration

definition zero_checker :: httpChecker where
  "zero_checker = \<lparr>HealthTimeout = 0, BlockedTimeout = 0\<rparr>"

definition healthTimeout :: "httpChecker \<Rightarrow> duration" where
  "healthTimeout c = (if HealthTimeout c = 0 then 5 * Second else HealthTimeout c)"

definition blockedTimeout :: "httpChecker \<Rightarrow> duration" where
  "blockedTimeout c = (if BlockedTimeout c = 0 then 3 * Second else BlockedTimeout c)"

definition rHTTP :: "reconciler \<Rightarrow> duration \<Rightarrow> string \<Rightarrow> http_result io" where
  "rHTTP r timeout url = ask (\<lambda>h. os_HTTP r h timeout url) (EvHTTP timeout url)"

definition HTTP_CheckHealth :: "httpChecker \<Rightarrow> reconciler \<Rightarrow> string \<Rightarrow> string option io" where
  "HTTP_CheckHealth c r url = do {
     resp \<leftarrow> rHTTP r (healthTimeout c) url;
     case resp of
       BadURL e \<Rightarrow> ret (Some e)
     | NoResponse e \<Rightarrow> ret (Some e)
     | Response code \<Rightarrow>
         (if code < 200 \<or> 300 \<le> code then ret (Some (''HTTP '' @ dec_int code)) else ret None)
   }"

definition HTTP_CheckBlocked :: "httpChecker \<Rightarrow> reconciler \<Rightarrow> string \<Rightarrow> string option io" where
  "HTTP_CheckBlocked c r url = do {
     resp \<leftarrow> rHTTP r (blockedTimeout c) url;
     case resp of
       BadURL e \<Rightarrow> ret None
     | NoResponse e \<Rightarrow> ret None
     | Response code \<Rightarrow>
         ret (Some (''service reachable (HTTP '' @ dec_int code @ '') '' @
           [CHR 0xE2, CHR 0x80, CHR 0x94] @ '' NetworkPolicy not enforced''))
   }"

text \<open>The package-level checks build the zero checker.\<close>

definition CheckHealth :: "reconciler \<Rightarrow> string \<Rightarrow> string option io" where
  "CheckHealth r url = HTTP_CheckHealth zero_checker r url"

definition CheckBlocked :: "reconciler \<Rightarrow> string \<Rightarrow> string option io" where
  "CheckBlocked r url = HTTP_CheckBlocked zero_checker r url"

text \<open>The checker of a reconciler: the injected one, or the HTTP checker when it is nil.\<close>

definition rCheckHealth :: "reconciler \<Rightarrow> string \<Rightarrow> string option io" where
  "rCheckHealth r url =
     (case Checker r of
        NoChecker \<Rightarrow> HTTP_CheckHealth zero_checker r url
      | OtherChecker \<Rightarrow> ask (\<lambda>h. injected_CheckHealth r h url) (EvCheckHealth url))"

definition rCheckBlocked :: "reconciler \<Rightarrow> string \<Rightarrow> string option io" where
  "rCheckBlocked r url =
     (case Checker r of
        NoChecker \<Rightarrow> HTTP_CheckBlocked zero_checker r url
      | OtherChecker \<Rightarrow> ask (\<lambda>h. injected_CheckBlocked r h url) (EvCheckBlocked url))"

record fakeChecker =
  HealthErr :: "string option"
  BlockedErr :: "string option"

definition Fake_CheckHealth :: "fakeChecker \<Rightarrow> string \<Rightarrow> string option io" where
  "Fake_CheckHealth f url = ret (HealthErr f)"

definition Fake_CheckBlocked :: "fakeChecker \<Rightarrow> string \<Rightarrow> string option io" where
  "Fake_CheckBlocked f url = ret (BlockedErr f)"

section \<open>Running the checks\<close>

record target =
  TargetStudentID :: string
  TargetURL :: string

record failure =
  FailureStudent :: string
  FailureError :: string

record runResult =
  RunPassed :: int
  RunFailed :: int
  RunFailures :: "failure list"

record dryRunResult =
  DryResult :: runResult
  PolicyEnforced :: bool

fun RunAll_loop :: "(string \<Rightarrow> string option io) \<Rightarrow> target list \<Rightarrow> runResult \<Rightarrow> runResult io" where
  "RunAll_loop check [] res = ret res"
| "RunAll_loop check (t # ts) res = do {
     err \<leftarrow> check (TargetURL t);
     RunAll_loop check ts
       (case err of
          Some e \<Rightarrow> res\<lparr>RunFailed := RunFailed res + 1,
             RunFailures := RunFailures res @ [\<lparr>FailureStudent = TargetStudentID t, FailureError = e\<rparr>]\<rparr>
        | None \<Rightarrow> res\<lparr>RunPassed := RunPassed res + 1\<rparr>)
   }"

definition RunAll :: "(string \<Rightarrow> string option io) \<Rightarrow> target list \<Rightarrow> runResult io" where
  "RunAll check targets = RunAll_loop check targets \<lparr>RunPassed = 0, RunFailed = 0, RunFailures = []\<rparr>"

definition RunDryRun ::
    "(string \<Rightarrow> string option io) \<Rightarrow> (string \<Rightarrow> string option io) \<Rightarrow> target list \<Rightarrow> string \<Rightarrow> dryRunResult io" where
  "RunDryRun check checkBlocked targets negativeURL = do {
     result \<leftarrow> RunAll check targets;
     err \<leftarrow> checkBlocked negativeURL;
     ret \<lparr>DryResult = result, PolicyEnforced = (err = None)\<rparr>
   }"

section \<open>What a run reports\<close>

text \<open>
  For any checker: every target is counted once, and the failures name the targets that
  failed, in order.
\<close>

definition run_ok :: "target list \<Rightarrow> runResult \<Rightarrow> bool" where
  "run_ok targets res \<longleftrightarrow>
     RunPassed res + RunFailed res = int (length targets) \<and> 0 \<le> RunPassed res \<and>
     int (length (RunFailures res)) = RunFailed res \<and>
     subseq (map FailureStudent (RunFailures res)) (map TargetStudentID targets)"

lemma emits_RunAll_loop:
  assumes "\<And>u. emits E (check u) (\<lambda>_. True)" and "run_ok seen res"
  shows "emits E (RunAll_loop check ts res) (run_ok (seen @ ts))"
  using assms(2)
proof (induction ts arbitrary: seen res)
  case Nil
  then show ?case by (auto intro: emit_rules)
next
  case (Cons t ts)
  have "run_ok (seen @ [t]) (case err of
      Some e \<Rightarrow> res\<lparr>RunFailed := RunFailed res + 1,
         RunFailures := RunFailures res @ [\<lparr>FailureStudent = TargetStudentID t, FailureError = e\<rparr>]\<rparr>
    | None \<Rightarrow> res\<lparr>RunPassed := RunPassed res + 1\<rparr>)" for err
    using Cons.prems
    by (auto simp: run_ok_def split: option.splits intro: list_emb_append_mono subseq_order.order_trans
        [OF _ list_emb_append2])
  from Cons.IH [OF this] show ?case
    by (auto intro!: emits_bind_True assms(1))
qed

lemma emits_RunAll [emit_rules]:
  assumes "\<And>u. emits E (check u) (\<lambda>_. True)" and "\<And>res. run_ok ts res \<Longrightarrow> Q res"
  shows "emits E (RunAll check ts) Q"
proof -
  have "emits E (RunAll_loop check ts \<lparr>RunPassed = 0, RunFailed = 0, RunFailures = []\<rparr>) (run_ok ([] @ ts))"
    by (rule emits_RunAll_loop) (simp_all add: assms(1) run_ok_def)
  then show ?thesis
    using assms(2) by (auto simp: RunAll_def elim: emits_conseq)
qed

lemma emits_RunDryRun [emit_rules]:
  assumes "\<And>u. emits E (check u) (\<lambda>_. True)" "\<And>u. emits E (checkBlocked u) (\<lambda>_. True)"
    and "\<And>res b. run_ok ts res \<Longrightarrow> Q \<lparr>DryResult = res, PolicyEnforced = b\<rparr>"
  shows "emits E (RunDryRun check checkBlocked ts url) Q"
  unfolding RunDryRun_def
  by (rule emits_bind [where R = "run_ok ts"])
    (auto intro!: emit_rules emits_bind_True assms)

section \<open>Checkers over a fixed network\<close>

locale health_checker =
  fixes checkHealth checkBlocked :: "string \<Rightarrow> string option io"
    and healthy blocked :: "string \<Rightarrow> bool"
  assumes health_answer: "fst (run_state (checkHealth u) h) = None \<longleftrightarrow> healthy u"
    and blocked_answer: "fst (run_state (checkBlocked u) h) = None \<longleftrightarrow> blocked u"
begin

lemma RunAll_loop_answers:
  "run_state (RunAll_loop checkHealth ts res) h = (res', h') \<Longrightarrow>
     RunPassed res' = RunPassed res + int (length (filter (healthy \<circ> TargetURL) ts)) \<and>
     map FailureStudent (RunFailures res') =
       map FailureStudent (RunFailures res) @ map TargetStudentID (filter (Not \<circ> healthy \<circ> TargetURL) ts) \<and>
     RunFailed res' = RunFailed res + int (length (filter (Not \<circ> healthy \<circ> TargetURL) ts))"
proof (induction ts arbitrary: res h)
  case Nil
  then show ?case by simp
next
  case (Cons t ts)
  obtain err h1 where 1: "run_state (checkHealth (TargetURL t)) h = (err, h1)" by (rule prod.exhaust)
  then have healthy: "err = None \<longleftrightarrow> healthy (TargetURL t)" using health_answer by (metis fst_conv)
  show ?case
  proof (cases err)
    case None
    with Cons.prems 1 have "run_state (RunAll_loop checkHealth ts (res\<lparr>RunPassed := RunPassed res + 1\<rparr>)) h1 = (res', h')"
      by simp
    from Cons.IH [OF this] healthy None show ?thesis by simp
  next
    case (Some e)
    with Cons.prems 1 have "run_state (RunAll_loop checkHealth ts (res\<lparr>RunFailed := RunFailed res + 1,
        RunFailures := RunFailures res @ [\<lparr>FailureStudent = TargetStudentID t, FailureError = e\<rparr>]\<rparr>)) h1 = (res', h')"
      by simp
    from Cons.IH [OF this] healthy Some show ?thesis by simp
  qed
qed

lemma RunDryRun_answers:
  assumes "run_state (RunDryRun checkHealth checkBlocked ts url) h = (dr, h')"
  shows "RunPassed (DryResult dr) = int (length (filter (healthy \<circ> TargetURL) ts))"
    and "RunFailed (DryResult dr) = int (length (filter (Not \<circ> healthy \<circ> TargetURL) ts))"
    and "map FailureStudent (RunFailures (DryResult dr)) = map TargetStudentID (filter (Not \<circ> healthy \<circ> TargetURL) ts)"
    and "PolicyEnforced dr \<longleftrightarrow> blocked url"
proof -
  obtain res h1 where 1: "run_state (RunAll checkHealth ts) h = (res, h1)" by (rule prod.exhaust)
  obtain err h2 where 2: "run_state (checkBlocked url) h1 = (err, h2)" by (rule prod.exhaust)
  from 2 have "err = None \<longleftrightarrow> blocked url" using blocked_answer by (metis fst_conv)
  with assms 1 2 have dr: "dr = \<lparr>DryResult = res, PolicyEnforced = blocked url\<rparr>"
    by (simp add: RunDryRun_def)
  from RunAll_loop_answers [OF 1 [unfolded RunAll_def]] dr
  show "RunPassed (DryResult dr) = int (length (filter (healthy \<circ> TargetURL) ts))"
    "RunFailed (DryResult dr) = int (length (filter (Not \<circ> healthy \<circ> TargetURL) ts))"
    "map FailureStudent (RunFailures (DryResult dr)) = map TargetStudentID (filter (Not \<circ> healthy \<circ> TargetURL) ts)"
    "PolicyEnforced dr \<longleftrightarrow> blocked url" by simp_all
qed

end

text \<open>A network whose answers depend on the URL only: not on the time or the timeout.\<close>

definition over_network :: "(string \<Rightarrow> http_result) \<Rightarrow> reconciler \<Rightarrow> bool" where
  "over_network net r \<longleftrightarrow> Checker r = NoChecker \<and> os_HTTP r = (\<lambda>h timeout url. net url)"

definition on_network :: "(string \<Rightarrow> http_result) \<Rightarrow> reconciler \<Rightarrow> reconciler" where
  "on_network net r = r\<lparr>Checker := NoChecker, os_HTTP := (\<lambda>h timeout url. net url)\<rparr>"

definition http_healthy :: "(string \<Rightarrow> http_result) \<Rightarrow> string \<Rightarrow> bool" where
  "http_healthy net url = (case net url of Response code \<Rightarrow> 200 \<le> code \<and> code < 300 | _ \<Rightarrow> False)"

definition http_silent :: "(string \<Rightarrow> http_result) \<Rightarrow> string \<Rightarrow> bool" where
  "http_silent net url = (case net url of Response _ \<Rightarrow> False | _ \<Rightarrow> True)"

lemma over_network_eq: "over_network net r \<Longrightarrow> on_network net r = r"
  by (simp add: over_network_def on_network_def)

interpretation http: health_checker "rCheckHealth (on_network net r)" "rCheckBlocked (on_network net r)"
    "http_healthy net" "http_silent net" for net r
  by unfold_locales
    (simp_all add: rCheckHealth_def rCheckBlocked_def HTTP_CheckHealth_def HTTP_CheckBlocked_def rHTTP_def
      on_network_def http_healthy_def http_silent_def split: http_result.splits)

interpretation fake: health_checker "Fake_CheckHealth f" "Fake_CheckBlocked f"
    "\<lambda>_. HealthErr f = None" "\<lambda>_. BlockedErr f = None" for f
  by unfold_locales (simp_all add: Fake_CheckHealth_def Fake_CheckBlocked_def)

text \<open>The probes of a reconciler are reads: they append probe events only.\<close>

lemma emits_rCheckHealth [emit_rules]:
  "(\<And>d x. E (EvHTTP d u x)) \<Longrightarrow> (\<And>x. E (EvCheckHealth u x)) \<Longrightarrow> (\<And>x. Q x) \<Longrightarrow> emits E (rCheckHealth r u) Q"
  by (auto simp: rCheckHealth_def HTTP_CheckHealth_def rHTTP_def
      intro!: emits_ask emits_bind_True emit_rules split: checkerField.splits http_result.splits)

lemma emits_rCheckBlocked [emit_rules]:
  "(\<And>d x. E (EvHTTP d u x)) \<Longrightarrow> (\<And>x. E (EvCheckBlocked u x)) \<Longrightarrow> (\<And>x. Q x) \<Longrightarrow> emits E (rCheckBlocked r u) Q"
  by (auto simp: rCheckBlocked_def HTTP_CheckBlocked_def rHTTP_def
      intro!: emits_ask emits_bind_True emit_rules split: checkerField.splits http_result.splits)

end
