(* ===== verification/Mailer.thy ===== *)
theory Mailer
  imports Sample
begin

text \<open>
  Sending mail: \<^verbatim>\<open>SMTPSender\<close> of \<^verbatim>\<open>internal/notifier/email.go\<close>, and the functions of
  \<^verbatim>\<open>internal/controller/exam_controller.go\<close> that read the SMTP secret and send a message
  through the retrying sender. Errors of the controller are values of \<open>go_error\<close>, one
  constructor per place that makes or wraps an error.
\<close>

section \<open>Errors\<close>

datatype go_error =
    ApiErr api_error
  | SMTPNotConfigured
  | ReadSMTPSecret string string api_error
  | SendFailed string
  | SendRetries "string retry_error"
  | RandFailed rand_error
  | SlugForStudent string go_error
  | SlugForSpare nat go_error
  | ReadTLSSecret string string api_error
  | CopyTLSSecret string string api_error
  | BaseDomainMissing
  | Joined "go_error option" go_error

section \<open>Platform settings\<close>

definition platformSecretNamespace :: "reconciler \<Rightarrow> exam \<Rightarrow> string" where
  "platformSecretNamespace r e =
     (if SecretNamespace (Platform r) \<noteq> '''' then SecretNamespace (Platform r) else Namespace e)"

definition validatePlatformConfig :: "reconciler \<Rightarrow> go_error option" where
  "validatePlatformConfig r = (if BaseDomain (Platform r) = '''' then Some BaseDomainMissing else None)"

definition instanceURL :: "reconciler \<Rightarrow> string \<Rightarrow> string" where
  "instanceURL r s = ''https://'' @ s @ ''.'' @ BaseDomain (Platform r)"

section \<open>The SMTP sender\<close>

record smtpSender =
  SmtpHost :: string
  SmtpPort :: int
  SmtpUsername :: string
  SmtpPassword :: string

definition SMTPSender_Send :: "reconciler \<Rightarrow> smtpSender \<Rightarrow> string \<Rightarrow> string list \<Rightarrow> string \<Rightarrow> string option io" where
  "SMTPSender_Send r s from to msg =
     (let addr = SmtpHost s @ '':'' @ dec_int (SmtpPort s);
          auth = (if SmtpUsername s \<noteq> '''' \<or> SmtpPassword s \<noteq> ''''
                  then Some (SmtpUsername s, SmtpPassword s) else None)
      in ask (\<lambda>h. os_SendMail r h addr auth from to msg) (EvSmtp addr auth from to msg))"

definition rSleep :: "duration \<Rightarrow> unit io" where
  "rSleep d = emit (EvSleep d)"

fun smtp_attempts :: "log \<Rightarrow> nat" where
  "smtp_attempts [] = 0"
| "smtp_attempts (EvSmtp _ _ _ _ _ _ # h) = Suc (smtp_attempts h)"
| "smtp_attempts (_ # h) = smtp_attempts h"

interpretation smtp: paced_sender "SMTPSender_Send r s" smtp_attempts rSleep for r s
  by unfold_locales (auto simp: SMTPSender_Send_def rSleep_def Let_def)

section \<open>Resolving the sender\<close>

datatype sender_value = Injected | RetrySMTP smtpSender int

definition resolvedSender :: "reconciler \<Rightarrow> exam \<Rightarrow> (go_error + sender_value) io" where
  "resolvedSender r e =
     (if Sender r = OtherSender then ret (Inr Injected)
      else if SMTPSecretName (Platform r) = '''' then ret (Inl SMTPNotConfigured)
      else do {
        secret \<leftarrow> rGetSecret r (platformSecretNamespace r e, SMTPSecretName (Platform r));
        case secret of
          Inl err \<Rightarrow> ret (Inl (ReadSMTPSecret (SMTPSecretName (Platform r)) (platformSecretNamespace r e) err))
        | Inr s \<Rightarrow>
            (let p = fst (Atoi (map_get (SecretEntries s) ''port''));
                 port = (if p = 0 then 587 else p)
             in ret (Inr (RetrySMTP
                  \<lparr>SmtpHost = map_get (SecretEntries s) ''host'', SmtpPort = port,
                   SmtpUsername = map_get (SecretEntries s) ''username'',
                   SmtpPassword = map_get (SecretEntries s) ''password''\<rparr> 3)))
      })"

definition sender_Send ::
    "reconciler \<Rightarrow> sender_value \<Rightarrow> string \<Rightarrow> string list \<Rightarrow> string \<Rightarrow> go_error option io" where
  "sender_Send r v from to msg =
     (case v of
        Injected \<Rightarrow> do {
          err \<leftarrow> ask (\<lambda>h. injected_Send r h from to msg) (EvSend from to msg);
          ret (map_option SendFailed err)
        }
      | RetrySMTP s n \<Rightarrow> do {
          err \<leftarrow> RetrySender_Send rSleep (NewRetrySender (SMTPSender_Send r s) n) from to msg;
          ret (map_option SendRetries err)
        })"

definition sendEmail :: "reconciler \<Rightarrow> exam \<Rightarrow> string list \<Rightarrow> string \<Rightarrow> go_error option io" where
  "sendEmail r e to msg = do {
     sender \<leftarrow> resolvedSender r e;
     case sender of
       Inl err \<Rightarrow> ret (Some err)
     | Inr v \<Rightarrow> sender_Send r v (From (SpecEmail (Spec e))) to msg
   }"

section \<open>What sending mail does\<close>

text \<open>The events of sending mail: reading a secret, mail attempts and waits.\<close>

fun is_mail_event :: "event \<Rightarrow> bool" where
  "is_mail_event (EvGetSecret _ _) = True"
| "is_mail_event (EvSmtp _ _ _ _ _ _) = True"
| "is_mail_event (EvSend _ _ _ _) = True"
| "is_mail_event (EvSleep _) = True"
| "is_mail_event _ = False"

lemma emits_retry_loop:
  assumes "emits E inner (\<lambda>_. True)" "\<And>d. emits E (sleep d) (\<lambda>_. True)"
  shows "emits E (retry_loop inner sleep mx as err) (\<lambda>_. True)"
  by (induction as arbitrary: err) (auto intro!: emit_rules emits_bind_True assms)

lemma emits_SMTPSender_Send: "emits is_mail_event (SMTPSender_Send r s from to msg) (\<lambda>_. True)"
  by (auto simp: SMTPSender_Send_def Let_def intro!: emits_ask)

lemma emits_sendEmail_mail: "emits is_mail_event (sendEmail r e to msg) (\<lambda>_. True)"
  unfolding sendEmail_def resolvedSender_def sender_Send_def RetrySender_Send_def NewRetrySender_def
  by (auto intro!: emit_rules emits_bind_True emits_retry_loop emits_SMTPSender_Send emits_ask
      simp: rSleep_def Let_def split: sum.splits sender_value.splits)

lemma emits_sendEmail [emit_rules]:
  "(\<And>ev. is_mail_event ev \<Longrightarrow> E ev) \<Longrightarrow> (\<And>x. Q x) \<Longrightarrow> emits E (sendEmail r e to msg) Q"
  by (rule emits_conseq [OF emits_sendEmail_mail]) auto

section \<open>Properties\<close>

text \<open>
  C40: with the production sender one mail costs at most four SMTP attempts: the retrying
  sender is built with three retries. A mail that was sent took one to four attempts, a mail
  reported as failed after its retries took exactly four, and with any other error (no SMTP
  secret configured, or it cannot be read) none was made.
\<close>
theorem smtp_attempt_budget:
  assumes "Sender r \<noteq> OtherSender" "run_state (sendEmail r e to msg) h = (err, h')"
  shows "case err of
      None \<Rightarrow> smtp_attempts h < smtp_attempts h' \<and> smtp_attempts h' \<le> smtp_attempts h + 4
    | Some (SendRetries (AfterRetries n _)) \<Rightarrow> n = 3 \<and> smtp_attempts h' = smtp_attempts h + 4
    | Some _ \<Rightarrow> smtp_attempts h' = smtp_attempts h"
proof (cases "SMTPSecretName (Platform r) = ''''")
  case True
  with assms show ?thesis by (auto simp: sendEmail_def resolvedSender_def)
next
  case False
  obtain secret h1 where get: "run_state (rGetSecret r (platformSecretNamespace r e, SMTPSecretName (Platform r))) h = (secret, h1)"
    by (rule prod.exhaust)
  then have h1: "smtp_attempts h1 = smtp_attempts h" by (auto simp: rGetSecret_def)
  show ?thesis
  proof (cases secret)
    case (Inl a)
    with False assms get h1 show ?thesis by (auto simp: sendEmail_def resolvedSender_def run_bind_lazy)
  next
    case (Inr x)
    then obtain s where "run_state (sender_Send r (RetrySMTP s 3) (From (SpecEmail (Spec e))) to msg) h1 = (err, h')"
      using False assms get by (auto simp: sendEmail_def resolvedSender_def run_bind_lazy Let_def)
    then obtain q where q: "run_state (RetrySender_Send rSleep (NewRetrySender (SMTPSender_Send r s) 3)
        (From (SpecEmail (Spec e))) to msg) h1 = (q, h')" "err = map_option SendRetries q"
      by (auto simp: sender_Send_def run_bind_lazy split: prod.splits)
    with smtp.retry_counts [OF q(1)] h1 show ?thesis by (cases q) (auto split: retry_error.splits)
  qed
qed

text \<open>An SMTP secret with a host alone, and a mail server that refuses every message.\<close>

definition refusing_server :: reconciler where
  "refusing_server = (sample_reconciler (sample_exam PhaseReady) 0)
     \<lparr>Sender := NoSender,
      Platform := \<lparr>BaseDomain = ''exam.otu.ca'', IngressTLSSecretName = '''', SMTPSecretName = ''smtp'', SecretNamespace = ''''\<rparr>,
      cl_GetSecret := \<lambda>h k. Inr \<lparr>SecretType = '''', SecretEntries = [''host'' \<mapsto> ''mail'']\<rparr>,
      os_SendMail := \<lambda>h addr auth from to msg. Some ''refused''\<rparr>"

theorem smtp_attempt_budget_witness:
  "smtp_attempts (snd (run_state (sendEmail refusing_server (sample_exam PhaseReady) [''a@otu.ca''] ''hello'') [])) = 4"
proof -
  obtain err h' where run: "run_state (sendEmail refusing_server (sample_exam PhaseReady) [''a@otu.ca''] ''hello'') [] = (err, h')"
    by (rule prod.exhaust)
  have "Sender refusing_server \<noteq> OtherSender" by (simp add: refusing_server_def)
  note budget = smtp_attempt_budget [OF this run]
  have "\<exists>n x. err = Some (SendRetries (AfterRetries n x))"
    using run by (auto simp: sendEmail_def resolvedSender_def sender_Send_def RetrySender_Send_def NewRetrySender_def
        refusing_server_def rGetSecret_def SMTPSender_Send_def rSleep_def run_bind_lazy Let_def upto_rec1)
  with budget run show ?thesis by auto
qed

end
