(* ===== verification/Instances.thy ===== *)
theory Instances
  imports Mailer Metrics "HOL-Library.Char_ord" "HOL-Library.List_Lexorder"
begin

text \<open>
  The helpers of \<^verbatim>\<open>internal/controller/exam_controller.go\<close> that create, find and clean up the
  instances of an exam. The Go code passes a pointer to the exam and writes through it; here
  an operation returns the exam it leaves. Index expressions that could be out of range
  panic in Go: the value \<open>Panics\<close>.
\<close>

datatype 'a go = Panics | Returns 'a

lemma emits_case_go [emit_rules]:
  "(x = Panics \<Longrightarrow> emits E m Q) \<Longrightarrow> (\<And>y. x = Returns y \<Longrightarrow> emits E (f y) Q) \<Longrightarrow>
    emits E (case x of Panics \<Rightarrow> m | Returns y \<Rightarrow> f y) Q"
  by (cases x) auto

section \<open>Conditions, selectors and labels\<close>

definition new_condition :: "conditionType \<Rightarrow> conditionStatus \<Rightarrow> conditionReason \<Rightarrow> string \<Rightarrow> condition" where
  "new_condition t st rs msg = \<lparr>Type = t, Status = st, Reason = rs, Message = msg,
     ObservedGeneration = 0, LastTransitionTime = zero_time\<rparr>"

definition setCondition :: "reconciler \<Rightarrow> exam \<Rightarrow> condition \<Rightarrow> exam io" where
  "setCondition r e c = do {
     cs \<leftarrow> reads (\<lambda>h. meta_SetStatusCondition r h (Conditions (ExStatus e)) (c\<lparr>ObservedGeneration := Generation e\<rparr>));
     ret (upd_status (\<lambda>s. s\<lparr>Conditions := cs\<rparr>) e)
   }"

definition examResourceLabels :: "exam \<Rightarrow> labels" where
  "examResourceLabels e = OwnerLabels e"

definition examResourceSelector :: "exam \<Rightarrow> labels" where
  "examResourceSelector e = examResourceLabels e"

definition examStudentSelector :: "exam \<Rightarrow> string \<Rightarrow> labels" where
  "examStudentSelector e studentID = (examResourceLabels e)(LabelStudent \<mapsto> studentID)"

definition examMetricLabelValues :: "exam \<Rightarrow> string list" where
  "examMetricLabelValues e = LabelValues (Name e) (Namespace e)"

definition phaseTransitionMetricLabelValues :: "exam \<Rightarrow> examPhase \<Rightarrow> examPhase \<Rightarrow> string list" where
  "phaseTransitionMetricLabelValues e p q = examMetricLabelValues e @ [phase_string p, phase_string q]"

section \<open>Creating an instance\<close>

text \<open>The tests \<^verbatim>\<open>err != nil && !IsAlreadyExists(err)\<close> and \<^verbatim>\<open>err != nil && !IsNotFound(err)\<close>.\<close>

definition ignore_exists :: "api_error option \<Rightarrow> api_error option" where
  "ignore_exists err = (case err of None \<Rightarrow> None | Some x \<Rightarrow> if \<not> IsAlreadyExists x then Some x else None)"

definition ignore_missing :: "api_error option \<Rightarrow> api_error option" where
  "ignore_missing err = (case err of None \<Rightarrow> None | Some x \<Rightarrow> if \<not> IsNotFound x then Some x else None)"

text \<open>The repeated \<^verbatim>\<open>if err := r.Create(...); err != nil && !IsAlreadyExists(err) { return err }\<close>.\<close>

fun create_each :: "reconciler \<Rightarrow> kobj list \<Rightarrow> go_error option io" where
  "create_each r [] = ret None"
| "create_each r (x # xs) = do {
     err \<leftarrow> rCreate r x;
     case ignore_exists err of
       Some a \<Rightarrow> ret (Some (ApiErr a))
     | None \<Rightarrow> create_each r xs
   }"

definition instance_objects :: "policyProvider \<Rightarrow> exam \<Rightarrow> string \<Rightarrow> string \<Rightarrow> string \<Rightarrow> kobj list" where
  "instance_objects p e ns studentID s =
     [Deployment e ns studentID s, Service e ns studentID s,
      DenyAll p ns (policyLabels e studentID s), EgressAllowlist p ns (policyLabels e studentID s)]"

definition provisionInstance :: "reconciler \<Rightarrow> exam \<Rightarrow> string \<Rightarrow> string \<Rightarrow> string \<Rightarrow> go_error option io" where
  "provisionInstance r e ns studentID s = create_each r (instance_objects (PolicyProvider r) e ns studentID s)"

definition reconcilePlatformTLSSecret :: "reconciler \<Rightarrow> exam \<Rightarrow> string \<Rightarrow> go_error option io" where
  "reconcilePlatformTLSSecret r e examNS =
     (let name = IngressTLSSecretName (Platform r); sourceNS = platformSecretNamespace r e in
      if name = '''' then ret None
      else do {
        source \<leftarrow> rGetSecret r (sourceNS, name);
        case source of
          Inl err \<Rightarrow> ret (Some (ReadTLSSecret name sourceNS err))
        | Inr secret \<Rightarrow> do {
            err \<leftarrow> rCreateOrUpdate r
              (KSecret \<lparr>ObjName = name, ObjNamespace = examNS, ObjLabels = examResourceLabels e\<rparr> secret);
            ret (map_option (CopyTLSSecret name examNS) err)
          }
      })"

section \<open>Slugs\<close>

fun recorded_slug :: "string \<Rightarrow> studentStatus list \<Rightarrow> string option" where
  "recorded_slug studentID [] = None"
| "recorded_slug studentID (s # ss) =
     (if ID s = studentID \<and> Slug s \<noteq> '''' then Some (Slug s) else recorded_slug studentID ss)"

definition new_slug :: "reconciler \<Rightarrow> (go_error + string) io" where
  "new_slug r = do {
     s \<leftarrow> slugGenerate r;
     ret (case s of Inl err \<Rightarrow> Inl (RandFailed err) | Inr x \<Rightarrow> Inr x)
   }"

definition findOrGenerateSlug :: "reconciler \<Rightarrow> exam \<Rightarrow> string \<Rightarrow> string \<Rightarrow> (go_error + string) io" where
  "findOrGenerateSlug r e ns studentID =
     (case recorded_slug studentID (StatusStudents (ExStatus e)) of
        Some s \<Rightarrow> ret (Inr s)
      | None \<Rightarrow> do {
          deps \<leftarrow> rList r DeploymentKind ns (examStudentSelector e studentID);
          case deps of
            Inl _ \<Rightarrow> new_slug r
          | Inr items \<Rightarrow>
              (case items of
                 [] \<Rightarrow> new_slug r
               | d # _ \<Rightarrow>
                   (let s = map_get (obj_labels d) LabelSlug
                    in if s \<noteq> '''' then ret (Inr s) else new_slug r))
        })"

definition spare_slugs :: "kobj list \<Rightarrow> string list" where
  "spare_slugs items =
     sort [s. d \<leftarrow> items, obj_labels d LabelStudent = None, s \<leftarrow> [map_get (obj_labels d) LabelSlug], s \<noteq> '''']"

definition findOrGenerateSpareSlug :: "reconciler \<Rightarrow> exam \<Rightarrow> string \<Rightarrow> nat \<Rightarrow> (go_error + string) io" where
  "findOrGenerateSpareSlug r e ns index =
     (let spares = StatusSpares (ExStatus e) in
      if index < length spares \<and> SpareSlug (spares ! index) \<noteq> '''' then ret (Inr (SpareSlug (spares ! index)))
      else do {
        deps \<leftarrow> rList r DeploymentKind ns (examResourceSelector e);
        case deps of
          Inl _ \<Rightarrow> new_slug r
        | Inr items \<Rightarrow>
            (let spareDeployments = spare_slugs items
             in if index < length spareDeployments then ret (Inr (spareDeployments ! index)) else new_slug r)
      })"

section \<open>Recording an instance in the status\<close>

definition padded :: "'a \<Rightarrow> nat \<Rightarrow> 'a list \<Rightarrow> 'a list" where
  "padded z index xs = xs @ replicate (Suc index - length xs) z"

definition setStudentStatus :: "reconciler \<Rightarrow> exam \<Rightarrow> nat \<Rightarrow> string \<Rightarrow> studentPhase \<Rightarrow> exam go" where
  "setStudentStatus r e index s p =
     (if index < length (Students (Spec e))
      then Returns (upd_status (\<lambda>st. st\<lparr>StatusStudents := (padded zero_student index (StatusStudents st))
             [index := \<lparr>ID = StudentID (Students (Spec e) ! index), Slug = s, URL = instanceURL r s,
                        Phase = p, EmailStatus = EmailPending, EmailSentAt = None\<rparr>]\<rparr>) e)
      else Panics)"

definition setSpareStatus :: "reconciler \<Rightarrow> exam \<Rightarrow> nat \<Rightarrow> string \<Rightarrow> studentPhase \<Rightarrow> exam" where
  "setSpareStatus r e index s p =
     upd_status (\<lambda>st. st\<lparr>StatusSpares := (padded zero_spare index (StatusSpares st))
       [index := \<lparr>SpareSlug = s, SpareURL = instanceURL r s, SparePhase = p\<rparr>]\<rparr>) e"

section \<open>Health and orphans\<close>

fun ReadyReplicas :: "kobj \<Rightarrow> int32" where
  "ReadyReplicas (KDeployment m s n) = n"
| "ReadyReplicas _ = 0"

text \<open>The expected number of deployments, a 64-bit sum.\<close>

definition expected_instances :: "exam \<Rightarrow> int64" where
  "expected_instances e = of_nat (length (Students (Spec e))) + Spares (Spec e)"

definition allInstancesHealthy :: "reconciler \<Rightarrow> exam \<Rightarrow> string \<Rightarrow> bool io" where
  "allInstancesHealthy r e ns = do {
     deps \<leftarrow> rList r DeploymentKind ns (examResourceSelector e);
     case deps of
       Inl _ \<Rightarrow> ret False
     | Inr items \<Rightarrow>
         ret (list_all (\<lambda>d. \<not> sint (ReadyReplicas d) < 1) items \<and>
              (of_nat (length items) :: int64) = expected_instances e)
   }"

definition validSlugs :: "exam \<Rightarrow> string \<Rightarrow> bool" where
  "validSlugs e s \<longleftrightarrow> s \<noteq> '''' \<and>
     (s \<in> set (map Slug (StatusStudents (ExStatus e))) \<or> s \<in> set (map SpareSlug (StatusSpares (ExStatus e))))"

fun delete_orphans :: "reconciler \<Rightarrow> (string \<Rightarrow> bool) \<Rightarrow> kobj list \<Rightarrow> api_error option io" where
  "delete_orphans r slugs [] = ret None"
| "delete_orphans r slugs (x # xs) =
     (let s = map_get (obj_labels x) LabelSlug in
      if s \<noteq> '''' \<and> \<not> slugs s
      then do {
        err \<leftarrow> rDelete r (obj_key x);
        case ignore_missing err of
          Some a \<Rightarrow> ret (Some a)
        | None \<Rightarrow> delete_orphans r slugs xs
      }
      else delete_orphans r slugs xs)"

fun cleanup_kinds :: "reconciler \<Rightarrow> (string \<Rightarrow> bool) \<Rightarrow> string \<Rightarrow> labels \<Rightarrow> kind list \<Rightarrow> api_error option io" where
  "cleanup_kinds r slugs ns sel [] = ret None"
| "cleanup_kinds r slugs ns sel (k # ks) = do {
     found \<leftarrow> rList r k ns sel;
     case found of
       Inl err \<Rightarrow> ret (Some err)
     | Inr items \<Rightarrow> do {
         err \<leftarrow> delete_orphans r slugs items;
         case err of
           Some a \<Rightarrow> ret (Some a)
         | None \<Rightarrow> cleanup_kinds r slugs ns sel ks
       }
   }"

definition orphan_kinds :: "policyProvider \<Rightarrow> kind list" where
  "orphan_kinds p =
     [DeploymentKind, ServiceKind, NetworkPolicyKind] @ (if p = CiliumPolicyProvider then [CiliumPolicyKind] else [])"

definition cleanupOrphanedResources :: "reconciler \<Rightarrow> exam \<Rightarrow> string \<Rightarrow> api_error option io" where
  "cleanupOrphanedResources r e ns =
     cleanup_kinds r (validSlugs e) ns (examResourceSelector e) (orphan_kinds (PolicyProvider r))"

end
