(* ===== verification/Operations.thy ===== *)
theory Operations
  imports Instances Smoketest Schedule
begin

text \<open>
  The remaining helpers of \<^verbatim>\<open>internal/controller/exam_controller.go\<close>, in use once the
  instances exist: the drift correction of policies and routes, the student mails, the dry
  run and the metrics summary.
\<close>

section \<open>Policies and routes\<close>

type_synonym slugEntry = "string \<times> string"

definition collectSlugs :: "exam \<Rightarrow> slugEntry list" where
  "collectSlugs e =
     map (\<lambda>s. (ID s, Slug s)) (StatusStudents (ExStatus e)) @
     map (\<lambda>s. ('''', SpareSlug s)) (StatusSpares (ExStatus e))"

text \<open>One turn of the loop: its errors are logged and dropped.\<close>

definition enforce_entry :: "reconciler \<Rightarrow> exam \<Rightarrow> bool \<Rightarrow> string \<times> string \<Rightarrow> unit io" where
  "enforce_entry r e unlocked entry =
     (case entry of (studentID, slug) \<Rightarrow>
       let ns = examNamespace (Name e) (Namespace e);
           labels = policyLabels e studentID slug;
           ingressAllow = IngressAllow (PolicyProvider r) ns labels in
       do {
         _ \<leftarrow> rCreate r (DenyAll (PolicyProvider r) ns labels);
         _ \<leftarrow> rCreate r (EgressAllowlist (PolicyProvider r) ns labels);
         if unlocked
         then do {
           _ \<leftarrow> rCreate r (Ingress e ns studentID slug (BaseDomain (Platform r)) (IngressTLSSecretName (Platform r)));
           _ \<leftarrow> rCreate r ingressAllow;
           ret ()
         }
         else do {
           _ \<leftarrow> rDelete r (obj_key ingressAllow);
           ret ()
         }
       })"

fun enforce_entries :: "reconciler \<Rightarrow> exam \<Rightarrow> bool \<Rightarrow> (string \<times> string) list \<Rightarrow> unit io" where
  "enforce_entries r e unlocked [] = ret ()"
| "enforce_entries r e unlocked (x # xs) = do {
     _ \<leftarrow> enforce_entry r e unlocked x;
     enforce_entries r e unlocked xs
   }"

definition enforcePolicies :: "reconciler \<Rightarrow> exam \<Rightarrow> bool \<Rightarrow> unit io" where
  "enforcePolicies r e unlocked = do {
     _ \<leftarrow> reconcilePlatformTLSSecret r e (examNamespace (Name e) (Namespace e));
     enforce_entries r e unlocked (collectSlugs e)
   }"

fun delete_each :: "reconciler \<Rightarrow> kobj list \<Rightarrow> api_error option io" where
  "delete_each r [] = ret None"
| "delete_each r (x # xs) = do {
     err \<leftarrow> rDelete r (obj_key x);
     case ignore_missing err of
       Some a \<Rightarrow> ret (Some a)
     | None \<Rightarrow> delete_each r xs
   }"

definition deleteIngresses :: "reconciler \<Rightarrow> exam \<Rightarrow> string \<Rightarrow> api_error option io" where
  "deleteIngresses r e ns = do {
     found \<leftarrow> rList r IngressKind ns (examResourceSelector e);
     case found of
       Inl err \<Rightarrow> ret (Some err)
     | Inr items \<Rightarrow> delete_each r items
   }"

section \<open>Student mails\<close>

text \<open>The index at which the loop over the status stops: the first pending mail.\<close>

fun next_pending :: "studentStatus list \<Rightarrow> nat option" where
  "next_pending [] = None"
| "next_pending (s # ss) = (if EmailStatus s = EmailPending then Some 0 else map_option Suc (next_pending ss))"

definition upd_student :: "nat \<Rightarrow> (studentStatus \<Rightarrow> studentStatus) \<Rightarrow> exam \<Rightarrow> exam" where
  "upd_student i f e =
     upd_status (\<lambda>st. st\<lparr>StatusStudents := (StatusStudents st)[i := f (StatusStudents st ! i)]\<rparr>) e"

definition sendNextPendingEmail :: "reconciler \<Rightarrow> exam \<Rightarrow> (exam \<times> bool) go io" where
  "sendNextPendingEmail r e =
     (case next_pending (StatusStudents (ExStatus e)) of
        None \<Rightarrow> ret (Returns (e, False))
      | Some i \<Rightarrow>
          if i \<ge> length (Students (Spec e)) then ret Panics
          else
            (let student = Students (Spec e) ! i;
                 msg = BuildStudentMessage (From (SpecEmail (Spec e))) (Email student) (Subject (SpecEmail (Spec e)))
                         (URL (StatusStudents (ExStatus e) ! i)) in
             do {
               now \<leftarrow> metaNow r;
               err \<leftarrow> sendEmail r e [Email student] msg;
               case err of
                 Some _ \<Rightarrow> do {
                   _ \<leftarrow> metric r (MInc EmailsFailedVec (examMetricLabelValues e));
                   ret (Returns (upd_student i (\<lambda>s. s\<lparr>EmailStatus := EmailFailed\<rparr>) e, True))
                 }
               | None \<Rightarrow> do {
                   _ \<leftarrow> metric r (MInc EmailsSentVec (examMetricLabelValues e));
                   ret (Returns (upd_student i (\<lambda>s. s\<lparr>EmailStatus := EmailSent, EmailSentAt := Some now\<rparr>) e, True))
                 }
             }))"

section \<open>The dry run\<close>

definition probe_url :: "exam \<Rightarrow> string \<Rightarrow> string" where
  "probe_url e slug =
     ''http://'' @ slug @ ''.'' @ examNamespace (Name e) (Namespace e) @ '':'' @ dec_int (sint (Port (Template (Spec e))))"

definition dry_run_targets :: "exam \<Rightarrow> target list" where
  "dry_run_targets e =
     map (\<lambda>s. \<lparr>TargetStudentID = ID s, TargetURL = probe_url e (Slug s)\<rparr>) (StatusStudents (ExStatus e)) @
     map (\<lambda>s. \<lparr>TargetStudentID = ''spare-'' @ SpareSlug s, TargetURL = probe_url e (SpareSlug s)\<rparr>)
       (StatusSpares (ExStatus e))"

definition negative_url :: "exam \<Rightarrow> string" where
  "negative_url e = (case StatusStudents (ExStatus e) of [] \<Rightarrow> '''' | s # _ \<Rightarrow> probe_url e (Slug s))"

fun bool_string :: "bool \<Rightarrow> string" where
  "bool_string True = ''true''"
| "bool_string False = ''false''"

definition dry_run_status :: "dryRunResult \<Rightarrow> time \<Rightarrow> dryRunStatus" where
  "dry_run_status dr now =
     \<lparr>CompletedAt = Some now, Passed = RunPassed (DryResult dr), Failed = RunFailed (DryResult dr),
      Failures = map (\<lambda>f. \<lparr>FailStudent = FailureStudent f, FailError = FailureError f\<rparr>) (RunFailures (DryResult dr))\<rparr>"

definition runDryRun :: "reconciler \<Rightarrow> exam \<Rightarrow> exam io" where
  "runDryRun r e = do {
     dr \<leftarrow> RunDryRun (rCheckHealth r) (rCheckBlocked r) (dry_run_targets e) (negative_url e);
     now \<leftarrow> metaNow r;
     let e1 = upd_status (\<lambda>st. st\<lparr>ExDryRun := Some (dry_run_status dr now)\<rparr>) e;
     e2 \<leftarrow> setCondition r e1 (new_condition ConditionNetworkPolicyEnforced
       (if \<not> PolicyEnforced dr then ConditionFalse else ConditionTrue)
       (if \<not> PolicyEnforced dr then ReasonNotEnforced else ReasonVerified)
       (''Negative connectivity test: policyEnforced='' @ bool_string (PolicyEnforced dr)));
     e3 \<leftarrow> (if RunFailed (DryResult dr) > 0
       then setCondition r e2 (new_condition ConditionDryRunFailed ConditionTrue ReasonSomeFailed
         (dec_int (RunFailed (DryResult dr)) @ '' of '' @
          dec_int (RunPassed (DryResult dr) + RunFailed (DryResult dr)) @ '' checks failed''))
       else ret e2);
     _ \<leftarrow> metric r (MSet DryRunPassedVec (examMetricLabelValues e) (f64_of_int (RunPassed (DryResult dr))));
     _ \<leftarrow> metric r (MSet DryRunFailedVec (examMetricLabelValues e) (f64_of_int (RunFailed (DryResult dr))));
     ret e3
   }"

section \<open>The metrics summary\<close>

definition count_list_of :: "('a \<Rightarrow> bool) \<Rightarrow> 'a list \<Rightarrow> int" where
  "count_list_of P xs = int (length (filter P xs))"

definition summary :: "exam \<Rightarrow> metricsSummary" where
  "summary e =
     (let students = StatusStudents (ExStatus e); spares = StatusSpares (ExStatus e) in
      \<lparr>TotalStudents = int (length (Students (Spec e))),
       TotalSpares = sint (Spares (Spec e)),
       EmailsSent = count_list_of (\<lambda>s. EmailStatus s = EmailSent) students,
       EmailsFailed = count_list_of (\<lambda>s. EmailStatus s = EmailFailed) students,
       InstancesHealthy = count_list_of (\<lambda>s. Phase s \<noteq> StudentFailed) students +
         count_list_of (\<lambda>s. SparePhase s \<noteq> StudentFailed) spares,
       InstancesFailed = count_list_of (\<lambda>s. Phase s = StudentFailed) students +
         count_list_of (\<lambda>s. SparePhase s = StudentFailed) spares\<rparr>)"

definition updateMetricsSummary :: "reconciler \<Rightarrow> exam \<Rightarrow> exam io" where
  "updateMetricsSummary r e = do {
     let m = summary e;
     let l = examMetricLabelValues e;
     _ \<leftarrow> metric r (MSet InstancesTotalVec l (f64_of_int (sint (expected_instances e))));
     _ \<leftarrow> metric r (MSet InstancesHealthyVec l (f64_of_int (InstancesHealthy m)));
     _ \<leftarrow> metric r (MSet InstancesFailedVec l (f64_of_int (InstancesFailed m)));
     ret (upd_status (\<lambda>st. st\<lparr>ExMetrics := Some m\<rparr>) e)
   }"

end
