(* ===== verification/Phases.thy ===== *)
theory Phases
  imports Operations
begin

text \<open>
  The phase handlers of \<^verbatim>\<open>internal/controller/exam_controller.go\<close>, one definition per handler,
  long handlers in the pieces their comments separate. A handler returns the exam it leaves,
  the delay of the next pass (zero for none) and its error; \<open>Panics\<close> stands for a nil
  dereference or an index out of range.
\<close>

type_synonym handled = "exam \<times> duration \<times> go_error option"

section \<open>Provisioning\<close>

definition observe_provision :: "reconciler \<Rightarrow> exam \<Rightarrow> bool \<Rightarrow> string \<Rightarrow> unit io" where
  "observe_provision r e wasProvisioned who =
     (case ProvisionTime (ExStatus e) of
        None \<Rightarrow> ret ()
      | Some pt \<Rightarrow>
          if \<not> wasProvisioned \<and> Metrics r
          then do {
            t \<leftarrow> rNow r;
            metric r (MObserve ProvisionDuration [Name e, Namespace e, who] (dur_seconds (time_sub t pt)))
          }
          else ret ())"

definition was_student_provisioned :: "exam \<Rightarrow> nat \<Rightarrow> bool" where
  "was_student_provisioned e i \<longleftrightarrow>
     i < length (StatusStudents (ExStatus e)) \<and> Phase (StatusStudents (ExStatus e) ! i) = StudentProvisioned"

definition was_spare_provisioned :: "exam \<Rightarrow> nat \<Rightarrow> bool" where
  "was_spare_provisioned e i \<longleftrightarrow>
     i < length (StatusSpares (ExStatus e)) \<and> SparePhase (StatusSpares (ExStatus e) ! i) = StudentProvisioned"

fun provision_students ::
    "reconciler \<Rightarrow> string \<Rightarrow> (nat \<times> examStudent) list \<Rightarrow> exam \<Rightarrow> bool \<Rightarrow> (exam \<times> bool \<times> go_error option) go io" where
  "provision_students r ns [] e allHealthy = ret (Returns (e, allHealthy, None))"
| "provision_students r ns ((i, student) # rest) e allHealthy = do {
     found \<leftarrow> findOrGenerateSlug r e ns (StudentID student);
     case found of
       Inl err \<Rightarrow> ret (Returns (e, allHealthy, Some (SlugForStudent (StudentID student) err)))
     | Inr s \<Rightarrow> do {
         err \<leftarrow> provisionInstance r e ns (StudentID student) s;
         case err of
           Some _ \<Rightarrow>
             (case setStudentStatus r e i s StudentFailed of
                Panics \<Rightarrow> ret Panics
              | Returns e1 \<Rightarrow> provision_students r ns rest e1 False)
         | None \<Rightarrow>
             (case setStudentStatus r e i s StudentProvisioned of
                Panics \<Rightarrow> ret Panics
              | Returns e1 \<Rightarrow> do {
                  _ \<leftarrow> observe_provision r e1 (was_student_provisioned e i) (StudentID student);
                  provision_students r ns rest e1 allHealthy
                })
       }
   }"

fun provision_spares ::
    "reconciler \<Rightarrow> string \<Rightarrow> nat list \<Rightarrow> exam \<Rightarrow> bool \<Rightarrow> (exam \<times> bool \<times> go_error option) io" where
  "provision_spares r ns [] e allHealthy = ret (e, allHealthy, None)"
| "provision_spares r ns (i # rest) e allHealthy = do {
     found \<leftarrow> findOrGenerateSpareSlug r e ns i;
     case found of
       Inl err \<Rightarrow> ret (e, allHealthy, Some (SlugForSpare i err))
     | Inr s \<Rightarrow> do {
         err \<leftarrow> provisionInstance r e ns '''' s;
         case err of
           Some _ \<Rightarrow> provision_spares r ns rest e False
         | None \<Rightarrow> do {
             let e1 = setSpareStatus r e i s StudentProvisioned;
             _ \<leftarrow> observe_provision r e1 (was_spare_provisioned e i) s;
             provision_spares r ns rest e1 allHealthy
           }
       }
   }"

text \<open>The move to Ready, with the mail of the spare URLs to the instructor.\<close>

definition enter_ready :: "reconciler \<Rightarrow> exam \<Rightarrow> exam io" where
  "enter_ready r e = do {
     e1 \<leftarrow> setCondition r e (new_condition ConditionProvisioned ConditionTrue ReasonAllHealthy '''');
     phaseNow \<leftarrow> rNow r;
     let e2 = upd_status (\<lambda>st. st\<lparr>ExPhase := PhaseReady, PhaseEntryTime := Some phaseNow\<rparr>) e1;
     _ \<leftarrow> metric r (MDelete PhaseDuration [Name e, Namespace e, phase_string PhaseProvisioning]);
     _ \<leftarrow> metric r (MInc PhaseTransitions (phaseTransitionMetricLabelValues e PhaseProvisioning PhaseReady));
     if sint (Spares (Spec e)) > 0
     then do {
       let m = SpecEmail (Spec e);
       let urls = map SpareURL (StatusSpares (ExStatus e2));
       _ \<leftarrow> sendEmail r e2 [InstructorEmail m] (BuildSparesMessage (From m) (InstructorEmail m) (Subject m) urls);
       ret e2
     }
     else ret e2
   }"

definition finish_provisioning :: "reconciler \<Rightarrow> exam \<Rightarrow> string \<Rightarrow> bool \<Rightarrow> handled io" where
  "finish_provisioning r e ns allHealthy = do {
     e1 \<leftarrow> (if \<not> allHealthy
       then setCondition r e (new_condition ConditionProvisioningDegraded ConditionTrue ReasonSomeInstancesFailed
         ''One or more instances failed to provision'')
       else ret e);
     _ \<leftarrow> cleanupOrphanedResources r e1 ns;
     healthy \<leftarrow> allInstancesHealthy r e1 ns;
     if healthy
     then do {
       e2 \<leftarrow> enter_ready r e1;
       ret (e2, 0, None)
     }
     else ret (e1, 10 * Second, None)
   }"

definition provision_instances :: "reconciler \<Rightarrow> exam \<Rightarrow> string \<Rightarrow> handled go io" where
  "provision_instances r e ns = do {
     students \<leftarrow> provision_students r ns (enumerate 0 (Students (Spec e))) e True;
     case students of
       Panics \<Rightarrow> ret Panics
     | Returns (e1, ok1, err1) \<Rightarrow>
         (case err1 of
            Some x \<Rightarrow> ret (Returns (e1, 0, Some x))
          | None \<Rightarrow> do {
              (e2, ok2, err2) \<leftarrow> provision_spares r ns [0..<nat (sint (Spares (Spec e)))] e1 ok1;
              case err2 of
                Some x \<Rightarrow> ret (Returns (e2, 0, Some x))
              | None \<Rightarrow> do {
                  res \<leftarrow> finish_provisioning r e2 ns ok2;
                  ret (Returns res)
                }
            })
   }"

definition reconcileProvisioning :: "reconciler \<Rightarrow> exam \<Rightarrow> handled go io" where
  "reconcileProvisioning r e =
     (let ns = examNamespace (Name e) (Namespace e) in
      do {
        err \<leftarrow> rCreate r (KNamespace \<lparr>ObjName = ns, ObjNamespace = '''', ObjLabels = examResourceLabels e\<rparr>);
        case ignore_exists err of
          Some a \<Rightarrow> ret (Returns (e, 0, Some (ApiErr a)))
        | None \<Rightarrow> do {
            tls \<leftarrow> reconcilePlatformTLSSecret r e ns;
            case tls of
              Some x \<Rightarrow> ret (Returns (e, 0, Some x))
            | None \<Rightarrow> provision_instances r e ns
          }
      })"

section \<open>Ready\<close>

text \<open>
  The mail step: \<open>Some interval\<close> when a mail was attempted and the pass ends there. The
  condition test of the code is \<open>cond\<close>.
\<close>

definition cond :: "reconciler \<Rightarrow> exam \<Rightarrow> conditionType \<Rightarrow> bool" where
  "cond r e t = meta_IsStatusConditionTrue r (Conditions (ExStatus e)) t"

definition ready_mail :: "reconciler \<Rightarrow> exam \<Rightarrow> time \<Rightarrow> (exam \<times> duration option) go io" where
  "ready_mail r e now =
     (if \<not> cond r e ConditionAllEmailsSent \<and> \<not> time_before now (emailTime (computeSchedule e))
      then do {
        let sendInterval = (if sint (SendInterval (SpecEmail (Spec e))) \<le> 0 then Second
                            else SendInterval (SpecEmail (Spec e)));
        sent \<leftarrow> sendNextPendingEmail r e;
        case sent of
          Panics \<Rightarrow> ret Panics
        | Returns (e1, b) \<Rightarrow>
            if b then ret (Returns (e1, Some sendInterval))
            else do {
              e2 \<leftarrow> setCondition r e1 (new_condition ConditionAllEmailsSent ConditionTrue ReasonComplete '''');
              ret (Returns (e2, None))
            }
      }
      else ret (Returns (e, None)))"

definition dry_run_time :: "exam \<Rightarrow> examDryRunSpec \<Rightarrow> time" where
  "dry_run_time e d = time_add (Unlock (Schedule (Spec e))) (- DryRunBefore d)"

definition ready_dry_run :: "reconciler \<Rightarrow> exam \<Rightarrow> time \<Rightarrow> exam io" where
  "ready_dry_run r e now =
     (case DryRun (Schedule (Spec e)) of
        None \<Rightarrow> ret e
      | Some d \<Rightarrow>
          if \<not> cond r e ConditionDryRunComplete \<and> \<not> time_before now (dry_run_time e d)
          then do {
            e1 \<leftarrow> runDryRun r e;
            setCondition r e1 (new_condition ConditionDryRunComplete ConditionTrue ReasonComplete '''')
          }
          else ret e)"

definition next_wake :: "reconciler \<Rightarrow> exam \<Rightarrow> time" where
  "next_wake r e =
     (let unlock = Unlock (Schedule (Spec e));
          emailT = emailTime (computeSchedule e);
          w1 = (if \<not> cond r e ConditionAllEmailsSent \<and> time_before emailT unlock then emailT else unlock)
      in case DryRun (Schedule (Spec e)) of
           None \<Rightarrow> w1
         | Some d \<Rightarrow>
             if \<not> cond r e ConditionDryRunComplete \<and> time_before (dry_run_time e d) w1 then dry_run_time e d else w1)"

definition reconcileReady :: "reconciler \<Rightarrow> exam \<Rightarrow> time \<Rightarrow> handled go io" where
  "reconcileReady r e now = do {
     mailed \<leftarrow> ready_mail r e now;
     case mailed of
       Panics \<Rightarrow> ret Panics
     | Returns (e1, stop) \<Rightarrow>
         (case stop of
            Some interval \<Rightarrow> ret (Returns (e1, interval, None))
          | None \<Rightarrow> do {
              e2 \<leftarrow> ready_dry_run r e1 now;
              _ \<leftarrow> enforcePolicies r e2 False;
              ret (Returns (e2, dur_max (time_sub (next_wake r e2) now) 0, None))
            })
   }"

section \<open>Unlocked and Locked\<close>

text \<open>Every instance that has not failed moves to the given phase.\<close>

definition set_phase :: "studentPhase \<Rightarrow> studentStatus \<Rightarrow> studentStatus" where
  "set_phase p s = (if Phase s \<noteq> StudentFailed then s\<lparr>Phase := p\<rparr> else s)"

definition set_spare_phase :: "studentPhase \<Rightarrow> spareStatus \<Rightarrow> spareStatus" where
  "set_spare_phase p s = (if SparePhase s \<noteq> StudentFailed then s\<lparr>SparePhase := p\<rparr> else s)"

definition set_phases :: "studentPhase \<Rightarrow> exam \<Rightarrow> exam" where
  "set_phases p = upd_status (\<lambda>st. st\<lparr>StatusStudents := map (set_phase p) (StatusStudents st),
     StatusSpares := map (set_spare_phase p) (StatusSpares st)\<rparr>)"

definition failed_emails :: "exam \<Rightarrow> string list" where
  "failed_emails e = map ID (filter (\<lambda>s. EmailStatus s = EmailFailed) (StatusStudents (ExStatus e)))"

text \<open>A notification of the instructor, sent until it succeeded once.\<close>

definition notify_instructor :: "reconciler \<Rightarrow> exam \<Rightarrow> conditionType \<Rightarrow> string \<Rightarrow> exam io" where
  "notify_instructor r e t msg =
     (if \<not> cond r e t
      then do {
        err \<leftarrow> sendEmail r e [InstructorEmail (SpecEmail (Spec e))] msg;
        case err of
          Some _ \<Rightarrow> ret e
        | None \<Rightarrow> setCondition r e (new_condition t ConditionTrue ReasonSent '''')
      }
      else ret e)"

definition unlock_message :: "exam \<Rightarrow> string" where
  "unlock_message e =
     (let m = SpecEmail (Spec e) in
      BuildUnlockNotification (From m) (InstructorEmail m) (Subject m)
        (int (length (Students (Spec e)))) (sint (Spares (Spec e))) (failed_emails e))"

definition reconcileUnlock :: "reconciler \<Rightarrow> exam \<Rightarrow> time \<Rightarrow> handled go io" where
  "reconcileUnlock r e now = do {
     _ \<leftarrow> enforcePolicies r e True;
     let e1 = set_phases StudentUnlocked e;
     e2 \<leftarrow> notify_instructor r e1 ConditionInstructorNotifiedUnlock (unlock_message e1);
     let e3 = upd_status (\<lambda>st. st\<lparr>ExMessage := ''Exam in progress '' @ [CHR 0xE2, CHR 0x80, CHR 0x94, CHR 0x20] @
        dec_int (int (length (Students (Spec e)))) @ '' students, '' @ dec_int (sint (Spares (Spec e))) @ '' spares''\<rparr>) e2;
     case ComputedLockTime (ExStatus e3) of
       None \<Rightarrow> ret Panics
     | Some lt \<Rightarrow> ret (Returns (e3, dur_max (time_sub lt now) 0, None))
   }"

definition lock_message :: "exam \<Rightarrow> string" where
  "lock_message e =
     (let m = SpecEmail (Spec e); students = StatusStudents (ExStatus e) in
      BuildLockNotification (From m) (InstructorEmail m) (Subject m) (int (length (Students (Spec e))))
        (count_list_of (\<lambda>s. Phase s \<noteq> StudentFailed) students) (count_list_of (\<lambda>s. Phase s = StudentFailed) students))"

definition reconcileLocked :: "reconciler \<Rightarrow> exam \<Rightarrow> time \<Rightarrow> handled go io" where
  "reconcileLocked r e now =
     (let ns = examNamespace (Name e) (Namespace e) in
      do {
        _ \<leftarrow> enforcePolicies r e False;
        err \<leftarrow> deleteIngresses r e ns;
        case err of
          Some a \<Rightarrow> ret (Returns (e, 0, Some (ApiErr a)))
        | None \<Rightarrow> do {
            let e1 = set_phases StudentLocked e;
            e2 \<leftarrow> notify_instructor r e1 ConditionInstructorNotifiedLock (lock_message e1);
            let e3 = upd_status (\<lambda>st. st\<lparr>ExMessage := ''Exam ended, instances retained for investigation''\<rparr>) e2;
            case RetentionDeadline (ExStatus e3) of
              None \<Rightarrow> ret Panics
            | Some d \<Rightarrow> ret (Returns (e3, dur_max (time_sub d now) 0, None))
          }
      })"

section \<open>Teardown\<close>

definition reconcileTeardown :: "reconciler \<Rightarrow> exam \<Rightarrow> (exam \<times> go_error option) io" where
  "reconcileTeardown r e =
     (let ns = examNamespace (Name e) (Namespace e) in
      do {
        err \<leftarrow> rDelete r (NamespaceKind, '''', ns);
        case ignore_missing err of
          Some a \<Rightarrow> ret (e, Some (ApiErr a))
        | None \<Rightarrow> do {
            _ \<leftarrow> (if Metrics r then CleanupExam r (Name e) (Namespace e) else ret ());
            phaseNow \<leftarrow> rNow r;
            ret (upd_status (\<lambda>st. st\<lparr>ExPhase := PhaseTearingDown, PhaseEntryTime := Some phaseNow,
                   ExMessage := ''Namespace deleted''\<rparr>) e, None)
          }
      })"

end
