(* ===== verification/Controller.thy ===== *)
theory Controller
  imports Phases
begin

text \<open>
  \<^verbatim>\<open>Reconcile\<close> of \<^verbatim>\<open>internal/controller/exam_controller.go\<close>: one pass over one exam. The
  pieces follow the code: the deletion path, the transition the clock asks for, the dispatch
  to the phase handlers, the gauges, and the status write at the end.
\<close>

definition finalizerName :: string where
  "finalizerName = ''exam.otu.ca/cleanup''"

type_synonym reconcile_result = "duration \<times> go_error option"

section \<open>Deletion\<close>

text \<open>The negation of \<^verbatim>\<open>exam.DeletionTimestamp.IsZero()\<close>.\<close>

definition deleting :: "exam \<Rightarrow> bool" where
  "deleting e = (case DeletionTimestamp e of None \<Rightarrow> False | Some t \<Rightarrow> t \<noteq> zero_time)"

definition reconcile_deleted :: "reconciler \<Rightarrow> exam \<Rightarrow> reconcile_result io" where
  "reconcile_deleted r e =
     (if ctl_ContainsFinalizer r e finalizerName
      then do {
        (e1, err) \<leftarrow> reconcileTeardown r e;
        case err of
          Some x \<Rightarrow> ret (0, Some x)
        | None \<Rightarrow> do {
            updated \<leftarrow> rUpdate r (ctl_RemoveFinalizer r e1 finalizerName);
            case updated of
              Inl a \<Rightarrow> ret (0, Some (ApiErr a))
            | Inr _ \<Rightarrow> ret (0, None)
          }
      }
      else ret (0, None))"

text \<open>The finalizer, added on first sight. The client decodes the answer of the server into the exam.\<close>

definition ensure_finalizer :: "reconciler \<Rightarrow> exam \<Rightarrow> (api_error + exam) io" where
  "ensure_finalizer r e =
     (if \<not> ctl_ContainsFinalizer r e finalizerName
      then rUpdate r (ctl_AddFinalizer r e finalizerName)
      else ret (Inr e))"

section \<open>The transition\<close>

definition set_times :: "exam \<Rightarrow> exam" where
  "set_times e =
     (let s = computeSchedule e in
      upd_status (\<lambda>st. st\<lparr>ComputedLockTime := Some (lockTime s), ProvisionTime := Some (provisionTime s),
        EmailTime := Some (emailTime s), RetentionDeadline := Some (retentionDeadline s)\<rparr>) e)"

definition transition :: "reconciler \<Rightarrow> exam \<Rightarrow> time \<Rightarrow> exam io" where
  "transition r e now =
     (let oldPhase = ExPhase (ExStatus e); desiredPhase = determineDesiredPhase e now in
      if oldPhase \<noteq> desiredPhase
      then do {
        _ \<leftarrow> (if oldPhase \<noteq> PhaseEmpty
              then metric r (MDelete PhaseDuration [Name e, Namespace e, phase_string oldPhase])
              else ret ());
        phaseNow \<leftarrow> rNow r;
        let e1 = upd_status (\<lambda>st. st\<lparr>ExPhase := desiredPhase, PhaseEntryTime := Some phaseNow\<rparr>) e;
        _ \<leftarrow> metric r (MInc PhaseTransitions (phaseTransitionMetricLabelValues e1 oldPhase desiredPhase));
        ret e1
      }
      else ret e)"

section \<open>Dispatch\<close>

definition dispatch :: "reconciler \<Rightarrow> exam \<Rightarrow> time \<Rightarrow> handled go io" where
  "dispatch r e now =
     (case ExPhase (ExStatus e) of
        PhasePending \<Rightarrow>
          ret (Returns (e, dur_max (time_sub (provisionTime (computeSchedule e)) now) 0, None))
      | PhaseProvisioning \<Rightarrow> reconcileProvisioning r e
      | PhaseReady \<Rightarrow> reconcileReady r e now
      | PhaseUnlocked \<Rightarrow> reconcileUnlock r e now
      | PhaseLocked \<Rightarrow> reconcileLocked r e now
      | PhaseTearingDown \<Rightarrow> do {
          (e1, err) \<leftarrow> reconcileTeardown r e;
          ret (Returns (e1, 0, err))
        }
      | _ \<Rightarrow> ret (Returns (e, 0, None)))"

section \<open>The end of a pass\<close>

definition update_gauges :: "reconciler \<Rightarrow> exam \<Rightarrow> time \<Rightarrow> unit io" where
  "update_gauges r e now =
     (if Metrics r
      then do {
        let l = examMetricLabelValues e;
        _ \<leftarrow> metric r (MSet SecondsUntilUnlock l
          (f64_max (dur_seconds (time_sub (Unlock (Schedule (Spec e))) now)) (Fin 0)));
        _ \<leftarrow> metric r (MSet SecondsUntilLock l
          (f64_max (dur_seconds (time_sub (lockTime (computeSchedule e)) now)) (Fin 0)));
        case PhaseEntryTime (ExStatus e) of
          None \<Rightarrow> ret ()
        | Some t0 \<Rightarrow> do {
            t \<leftarrow> rNow r;
            metric r (MSet PhaseDuration [Name e, Namespace e, phase_string (ExPhase (ExStatus e))]
              (dur_seconds (time_sub t t0)))
          }
      }
      else ret ())"

definition report :: "reconciler \<Rightarrow> exam \<Rightarrow> time \<Rightarrow> exam io" where
  "report r e now =
     (if ExPhase (ExStatus e) \<noteq> PhaseTearingDown
      then do {
        _ \<leftarrow> update_gauges r e now;
        updateMetricsSummary r e
      }
      else ret e)"

definition join_status_error :: "go_error option \<Rightarrow> api_error option \<Rightarrow> go_error option" where
  "join_status_error err statusErr =
     (case statusErr of None \<Rightarrow> err | Some a \<Rightarrow> Some (Joined err (ApiErr a)))"

definition record_duration :: "reconciler \<Rightarrow> time \<Rightarrow> go_error option \<Rightarrow> unit io" where
  "record_duration r start err =
     (if Metrics r
      then do {
        t \<leftarrow> rNow r;
        _ \<leftarrow> metric r (MReconcileDuration (dur_seconds (time_sub t start)));
        if err \<noteq> None then metric r MReconcileErrors else ret ()
      }
      else ret ())"

definition finish_pass :: "reconciler \<Rightarrow> time \<Rightarrow> time \<Rightarrow> handled \<Rightarrow> reconcile_result io" where
  "finish_pass r start now res =
     (case res of (e, result, err) \<Rightarrow> do {
        e1 \<leftarrow> report r e now;
        statusErr \<leftarrow> rStatusUpdate r e1;
        let err1 = join_status_error err statusErr;
        _ \<leftarrow> record_duration r start err1;
        ret (result, err1)
      })"

section \<open>One pass\<close>

definition reconcile_exam :: "reconciler \<Rightarrow> time \<Rightarrow> exam \<Rightarrow> reconcile_result go io" where
  "reconcile_exam r start e =
     (let e1 = set_times e in
      do {
        now \<leftarrow> rNow r;
        e2 \<leftarrow> transition r e1 now;
        handled \<leftarrow> dispatch r e2 now;
        case handled of
          Panics \<Rightarrow> ret Panics
        | Returns res \<Rightarrow> do {
            out \<leftarrow> finish_pass r start now res;
            ret (Returns out)
          }
      })"

definition Reconcile :: "reconciler \<Rightarrow> string \<times> string \<Rightarrow> reconcile_result go io" where
  "Reconcile r req = do {
     start \<leftarrow> rNow r;
     got \<leftarrow> rGetExam r req;
     case got of
       Inl a \<Rightarrow> ret (Returns (0, if IsNotFound a then None else Some (ApiErr a)))
     | Inr e \<Rightarrow>
         if deleting e
         then do {
           out \<leftarrow> reconcile_deleted r e;
           ret (Returns out)
         }
         else do {
           kept \<leftarrow> ensure_finalizer r e;
           case kept of
             Inl a \<Rightarrow> ret (Returns (0, Some (ApiErr a)))
           | Inr e1 \<Rightarrow> reconcile_exam r start e1
         }
   }"

end
