(* ===== verification/Webhook.thy ===== *)
theory Webhook
  imports Schedule Sample
begin

text \<open>
  The validating webhook of \<^verbatim>\<open>api/v1alpha1/exam_webhook.go\<close>. A rejection is a value of
  \<open>validation_error\<close>, one constructor per message. \<^verbatim>\<open>validation.IsValidLabelValue\<close> of
  \<^verbatim>\<open>apimachinery\<close> is a parameter that returns its list of complaints; the clock reading of
  the lock time guard is an argument.
\<close>

datatype validation_error =
    NoStudents
  | DurationNotPositive
  | MultiplierTooSmall
  | InstructorEmailMissing
  | SparesNegative
  | EmailBeforeTooShort duration nat duration f64
  | ProvisionBeforeTooShort duration duration
  | InvalidStudentID nat string string
  | ImageImmutable examPhase
  | PortImmutable examPhase
  | ResourcesImmutable examPhase
  | UnlockImmutable examPhase
  | SparesImmutable examPhase
  | StudentsLengthImmutable
  | StudentIDImmutable nat
  | DurationImmutable examPhase
  | MultiplierImmutable examPhase
  | LockTimeInPast time

fun first_invalid_id :: "(string \<Rightarrow> string list) \<Rightarrow> nat \<Rightarrow> examStudent list \<Rightarrow> validation_error option" where
  "first_invalid_id IsValidLabelValue i [] = None"
| "first_invalid_id IsValidLabelValue i (s # ss) =
     (case IsValidLabelValue (StudentID s) of
        e # _ \<Rightarrow> Some (InvalidStudentID i (StudentID s) e)
      | [] \<Rightarrow> first_invalid_id IsValidLabelValue (Suc i) ss)"

definition sendInterval :: "examSpec \<Rightarrow> duration" where
  "sendInterval sp = (if sint (SendInterval (SpecEmail sp)) \<le> 0 then Second else SendInterval (SpecEmail sp))"

definition emailBefore :: "examSpec \<Rightarrow> duration" where
  "emailBefore sp = (if Before (SpecEmail sp) = 0 then 30 * Minute else Before (SpecEmail sp))"

definition provisionBefore :: "examSpec \<Rightarrow> duration" where
  "provisionBefore sp = (if ProvisionBefore (Schedule sp) = 0 then Hour else ProvisionBefore (Schedule sp))"

text \<open>\<^verbatim>\<open>float64(len(students)) * sendInterval.Seconds() * 1.5\<close>\<close>

definition minEmailTime :: "examSpec \<Rightarrow> f64" where
  "minEmailTime sp =
     f64_mul (f64_mul (f64_of_int (int (length (Students sp)))) (dur_seconds (sendInterval sp))) (Fin (3 / 2))"

definition validateFields :: "(string \<Rightarrow> string list) \<Rightarrow> exam \<Rightarrow> validation_error option" where
  "validateFields IsValidLabelValue exam =
     (let sp = Spec exam in
      if Students sp = [] then Some NoStudents
      else if sint (Duration (Schedule sp)) \<le> 0 then Some DurationNotPositive
      else if f64_lt (effectiveMultiplier (TimeMultiplier (Schedule sp))) (Fin 1) then Some MultiplierTooSmall
      else if InstructorEmail (SpecEmail sp) = '''' then Some InstructorEmailMissing
      else if sint (Spares sp) < 0 then Some SparesNegative
      else if f64_lt (dur_seconds (emailBefore sp)) (minEmailTime sp)
        then Some (EmailBeforeTooShort (emailBefore sp) (length (Students sp)) (sendInterval sp) (minEmailTime sp))
      else if sint (provisionBefore sp) \<le> sint (emailBefore sp)
        then Some (ProvisionBeforeTooShort (provisionBefore sp) (emailBefore sp))
      else first_invalid_id IsValidLabelValue 0 (Students sp))"

definition ValidateCreate :: "(string \<Rightarrow> string list) \<Rightarrow> exam \<Rightarrow> validation_error option" where
  "ValidateCreate IsValidLabelValue exam = validateFields IsValidLabelValue exam"

text \<open>The index loop over the students of the old list; the lists have the same length.\<close>

fun first_changed_id :: "nat \<Rightarrow> examStudent list \<Rightarrow> examStudent list \<Rightarrow> validation_error option" where
  "first_changed_id i (s # ss) (s' # ss') =
     (if StudentID s \<noteq> StudentID s' then Some (StudentIDImmutable i) else first_changed_id (Suc i) ss ss')"
| "first_changed_id i _ _ = None"

definition timing_changed :: "exam \<Rightarrow> exam \<Rightarrow> bool" where
  "timing_changed oldExam newExam \<longleftrightarrow>
     Duration (Schedule (Spec oldExam)) \<noteq> Duration (Schedule (Spec newExam)) \<or>
     \<not> f64_eq (TimeMultiplier (Schedule (Spec oldExam))) (TimeMultiplier (Schedule (Spec newExam)))"

definition newLockTime :: "exam \<Rightarrow> time" where
  "newLockTime newExam =
     time_add (Unlock (Schedule (Spec newExam)))
       (dur_scale (Duration (Schedule (Spec newExam))) (effectiveMultiplier (TimeMultiplier (Schedule (Spec newExam)))))"

definition ValidateUpdate ::
    "(string \<Rightarrow> string list) \<Rightarrow> time \<Rightarrow> exam \<Rightarrow> exam \<Rightarrow> validation_error option" where
  "ValidateUpdate IsValidLabelValue now oldExam newExam =
     (case validateFields IsValidLabelValue newExam of
        Some err \<Rightarrow> Some err
      | None \<Rightarrow>
          (let phase = ExPhase (ExStatus oldExam); old = Spec oldExam; new = Spec newExam in
           if phase = PhasePending \<or> phase = PhaseEmpty then None
           else if Image (Template old) \<noteq> Image (Template new) then Some (ImageImmutable phase)
           else if Port (Template old) \<noteq> Port (Template new) then Some (PortImmutable phase)
           else if Resources (Template old) \<noteq> Resources (Template new) then Some (ResourcesImmutable phase)
           else if Unlock (Schedule old) \<noteq> Unlock (Schedule new) then Some (UnlockImmutable phase)
           else if Spares old \<noteq> Spares new then Some (SparesImmutable phase)
           else if length (Students old) \<noteq> length (Students new) then Some StudentsLengthImmutable
           else
             (case first_changed_id 0 (Students old) (Students new) of
                Some err \<Rightarrow> Some err
              | None \<Rightarrow>
                  if phase = PhaseLocked \<or> phase = PhaseTearingDown
                  then
                    (if Duration (Schedule old) \<noteq> Duration (Schedule new) then Some (DurationImmutable phase)
                     else if \<not> f64_eq (TimeMultiplier (Schedule old)) (TimeMultiplier (Schedule new))
                     then Some (MultiplierImmutable phase)
                     else None)
                  else if phase = PhaseUnlocked \<and> timing_changed oldExam newExam \<and> time_before (newLockTime newExam) now
                  then Some (LockTimeInPast (newLockTime newExam))
                  else None)))"

definition ValidateDelete :: "exam \<Rightarrow> validation_error option" where
  "ValidateDelete exam = None"

section \<open>Facts\<close>

lemma first_changed_id_None:
  "length ss = length ss' \<Longrightarrow> first_changed_id i ss ss' = None \<longleftrightarrow> map StudentID ss = map StudentID ss'"
  by (induction ss ss' arbitrary: i rule: list_induct2) auto

lemma first_invalid_id_None:
  "first_invalid_id f i ss = None \<longleftrightarrow> (\<forall>s \<in> set ss. f (StudentID s) = [])"
  by (induction ss arbitrary: i) (auto split: list.splits)

lemma newLockTime_eq: "newLockTime e = lockTime (computeSchedule e)"
  by (simp add: newLockTime_def lockTime_eq time_add_def)

text \<open>A lower bound on a float, infinity included.\<close>

fun f64_ge :: "rat \<Rightarrow> f64 \<Rightarrow> bool" where
  "f64_ge v (Fin a) \<longleftrightarrow> v \<le> a"
| "f64_ge v PInf \<longleftrightarrow> True"
| "f64_ge v NInf \<longleftrightarrow> False"
| "f64_ge v NaN \<longleftrightarrow> False"

fun f64_nonpos :: "f64 \<Rightarrow> bool" where
  "f64_nonpos (Fin a) \<longleftrightarrow> a \<le> 0"
| "f64_nonpos NInf \<longleftrightarrow> True"
| "f64_nonpos _ \<longleftrightarrow> False"

lemma round_f64_ge:
  assumes "is_f64_rat v" "0 \<le> v" "v \<le> x" "0 < x"
  shows "f64_ge v (round_f64 x)"
proof -
  have "v \<le> round_rat x" using assms by (intro round_ge)
  moreover have "\<not> round_rat x \<le> - (2 ^ 1024)"
  proof -
    have "- (2 ^ 1024) < (0::rat)" by simp
    with \<open>v \<le> round_rat x\<close> assms(2) show ?thesis by linarith
  qed
  ultimately show ?thesis by (simp add: round_f64_def Let_def)
qed

lemma round_f64_nonpos: "x \<le> 0 \<Longrightarrow> f64_nonpos (round_f64 x)"
proof -
  assume "x \<le> 0"
  then have "rne (x / 2 powi ulp_exp x) \<le> rne (of_int 0)"
    by (intro rne_mono) (simp add: divide_nonpos_pos)
  then have "rne (x / 2 powi ulp_exp x) \<le> 0"
    by (simp only: rne_of_int)
  then have "round_rat x \<le> 0"
    by (simp add: round_rat_def mult_nonpos_nonneg)
  moreover have "(0::rat) < 2 ^ 1024" by simp
  then have "\<not> 2 ^ 1024 \<le> round_rat x" using \<open>round_rat x \<le> 0\<close> by linarith
  ultimately show ?thesis by (simp add: round_f64_def Let_def)
qed

lemma f64_mul_ge:
  assumes "is_f64_rat v" "0 < v" "f64_ge v a" "f64_ge 1 b"
  shows "f64_ge v (f64_mul a b)"
proof (cases a; cases b)
  fix x y assume "a = Fin x" "b = Fin y"
  moreover then have "v \<le> x" "1 \<le> y" "0 < x" using assms by auto
  moreover then have "x \<le> x * y" by (simp add: mult_le_cancel_left1)
  ultimately show ?thesis using assms(1,2) by (auto intro!: round_f64_ge order_trans [of v x "x * y"])
qed (use assms in \<open>auto simp: f64_inf_def\<close>)

lemma f64_add_ge:
  assumes "is_f64_rat v" "0 < v" "f64_ge v a \<and> f64_ge 0 b \<or> f64_ge 0 a \<and> f64_ge v b"
  shows "f64_ge v (f64_add a b)"
proof (cases a; cases b)
  fix x y assume "a = Fin x" "b = Fin y"
  moreover then have "v \<le> x + y" using assms(2,3) by auto
  ultimately show ?thesis using assms(1,2) by (auto intro!: round_f64_ge)
qed (use assms in auto)

lemma f64_add_nonpos: "f64_nonpos a \<Longrightarrow> f64_nonpos b \<Longrightarrow> f64_nonpos (f64_add a b)"
  by (cases a; cases b) (auto intro: round_f64_nonpos)

text \<open>A negative duration has no positive number of seconds; a positive one has some.\<close>

lemma dur_seconds_nonpos:
  assumes "nanos d \<le> 0"
  shows "f64_nonpos (dur_seconds d)"
proof -
  have q: "trunc_div (nanos d) 1000000000 \<le> 0"
    using assms by (simp add: trunc_div_def sgn_if pos_imp_zdiv_nonneg_iff)
  have "- nanos d = 1000000000 * (- nanos d div 1000000000) + - nanos d mod 1000000000"
    by (simp only: mult_div_mod_eq)
  moreover have "0 \<le> - nanos d mod 1000000000" by simp
  moreover have "trunc_div (nanos d) 1000000000 = - (- nanos d div 1000000000)"
    using assms by (simp add: trunc_div_def sgn_if)
  ultimately have r: "trunc_mod (nanos d) 1000000000 \<le> 0"
    unfolding trunc_mod_def by linarith
  have "f64_nonpos (f64_of_int (trunc_div (nanos d) 1000000000))"
    unfolding f64_of_int_def using q by (intro round_f64_nonpos) simp
  moreover have "f64_nonpos (f64_div_by (f64_of_int (trunc_mod (nanos d) 1000000000)) 1000000000)"
  proof -
    have "f64_nonpos (f64_of_int (trunc_mod (nanos d) 1000000000))"
      unfolding f64_of_int_def using r by (intro round_f64_nonpos) simp
    then show ?thesis
      by (cases "f64_of_int (trunc_mod (nanos d) 1000000000)")
        (auto simp: f64_inf_def intro!: round_f64_nonpos divide_nonpos_pos)
  qed
  ultimately show ?thesis unfolding dur_seconds_def by (rule f64_add_nonpos)
qed

lemma is_f64_small: "is_f64_rat (1 / 2 ^ 30)"
  unfolding is_f64_rat_def by (intro exI [of _ 1] exI [of _ "- 30"]) (simp add: power_int_minus field_simps)

lemma f64_of_int_ge: "1 \<le> i \<Longrightarrow> f64_ge 1 (f64_of_int i)"
  unfolding f64_of_int_def using is_f64_rat_int [of 1] by (intro round_f64_ge) simp_all

lemma f64_of_int_ge0: "0 \<le> i \<Longrightarrow> f64_ge 0 (f64_of_int i)"
  using f64_of_int_ge [of i] by (cases "i = 0"; cases "f64_of_int i") (auto simp: f64_of_int_def round_f64_def round_rat_def)

lemma dur_seconds_pos:
  assumes "0 < nanos d"
  shows "f64_ge (1 / 2 ^ 30) (dur_seconds d)"
proof -
  define q r where qr: "q = nanos d div 1000000000" "r = nanos d mod 1000000000"
  have d: "trunc_div (nanos d) 1000000000 = q"
    using assms by (simp add: trunc_div_def qr sgn_if)
  have m: "trunc_mod (nanos d) 1000000000 = r"
    unfolding trunc_mod_def d by (simp add: qr minus_mult_div_eq_mod)
  have r: "0 \<le> r" "r < 1000000000" "0 \<le> q" using assms by (simp_all add: qr pos_imp_zdiv_nonneg_iff)
  have one: "q \<noteq> 0 \<or> r \<noteq> 0"
    using assms mult_div_mod_eq [of 1000000000 "nanos d"] by (auto simp: qr)
  have exact: "f64_of_int r = Fin (of_int r)" using r by (intro f64_of_int_exact) simp_all
  have low: "f64_ge v a \<Longrightarrow> w \<le> v \<Longrightarrow> f64_ge w a" for v w a by (cases a) auto
  show ?thesis
  proof (cases "q = 0")
    case True
    then have "1 \<le> r" using one r by simp
    then have "(1::rat) \<le> of_int r" by simp
    then have "f64_ge (1 / 2 ^ 30) (round_f64 (of_int r / 1000000000))"
      by (intro round_f64_ge is_f64_small) (simp_all add: field_simps)
    then show ?thesis
      unfolding dur_seconds_def d m exact using r is_f64_small
      by (intro f64_add_ge) (simp_all add: f64_of_int_ge0)
  next
    case False
    then have "f64_ge (1 / 2 ^ 30) (f64_of_int q)" using r low [OF f64_of_int_ge [of q]] by simp
    moreover have "f64_ge 0 (round_f64 (of_int r / 1000000000))"
      using r is_f64_rat_int [of 0] round_f64_ge [of 0 "of_int r / 1000000000"]
      by (cases "r = 0") (simp_all add: round_f64_def round_rat_def)
    ultimately show ?thesis
      unfolding dur_seconds_def d m exact using is_f64_small
      by (intro f64_add_ge) simp_all
  qed
qed

lemma minEmailTime_pos:
  assumes "Students sp \<noteq> []"
  shows "f64_ge (1 / 2 ^ 30) (minEmailTime sp)"
proof -
  have "0 < nanos (sendInterval sp)" by (simp add: sendInterval_def Second_def)
  from dur_seconds_pos [OF this] have s: "f64_ge (1 / 2 ^ 30) (dur_seconds (sendInterval sp))" .
  have n: "f64_ge 1 (f64_of_int (int (length (Students sp))))"
    using assms by (intro f64_of_int_ge) (cases "Students sp", auto)
  have swap: "f64_mul a b = f64_mul b a" for a b
    by (cases a; cases b) (simp_all add: mult.commute)
  have "f64_ge (1 / 2 ^ 30) (f64_mul (f64_of_int (int (length (Students sp)))) (dur_seconds (sendInterval sp)))"
    unfolding swap [of "f64_of_int _"] using is_f64_small s n by (intro f64_mul_ge) simp_all
  from f64_mul_ge [OF is_f64_small _ this, of "Fin (3 / 2)"] show ?thesis
    unfolding minEmailTime_def by simp
qed

lemma accepted_email_positive:
  assumes "Students sp \<noteq> []" "\<not> f64_lt (dur_seconds (emailBefore sp)) (minEmailTime sp)"
  shows "0 < nanos (emailBefore sp)"
proof (rule ccontr)
  assume "\<not> 0 < nanos (emailBefore sp)"
  then have "f64_nonpos (dur_seconds (emailBefore sp))" by (intro dur_seconds_nonpos) simp
  with minEmailTime_pos [OF assms(1)] assms(2) show False
    by (cases "dur_seconds (emailBefore sp)"; cases "minEmailTime sp") auto
qed

lemma validateFields_None:
  "validateFields f e = None \<longleftrightarrow>
     Students (Spec e) \<noteq> [] \<and> 0 < nanos (Duration (Schedule (Spec e))) \<and>
     \<not> f64_lt (effectiveMultiplier (TimeMultiplier (Schedule (Spec e)))) (Fin 1) \<and>
     InstructorEmail (SpecEmail (Spec e)) \<noteq> '''' \<and> 0 \<le> sint (Spares (Spec e)) \<and>
     \<not> f64_lt (dur_seconds (emailBefore (Spec e))) (minEmailTime (Spec e)) \<and>
     nanos (emailBefore (Spec e)) < nanos (provisionBefore (Spec e)) \<and>
     (\<forall>s \<in> set (Students (Spec e)). f (StudentID s) = [])"
  by (auto simp: validateFields_def Let_def first_invalid_id_None)

lemma accepted_times:
  assumes "validateFields f e = None"
  shows "provisionTime (computeSchedule e) = Unlock (Schedule (Spec e)) - nanos (provisionBefore (Spec e))"
    "emailTime (computeSchedule e) = Unlock (Schedule (Spec e)) - nanos (emailBefore (Spec e))"
    "0 < nanos (emailBefore (Spec e))" "nanos (emailBefore (Spec e)) < nanos (provisionBefore (Spec e))"
proof -
  show pos: "0 < nanos (emailBefore (Spec e))" "nanos (emailBefore (Spec e)) < nanos (provisionBefore (Spec e))"
    using assms accepted_email_positive [of "Spec e"] by (auto simp: validateFields_None)
  then have "nanos (emailBefore (Spec e)) \<noteq> min_int64" "nanos (provisionBefore (Spec e)) \<noteq> min_int64"
    by (auto simp: min_int64_def)
  then show "provisionTime (computeSchedule e) = Unlock (Schedule (Spec e)) - nanos (provisionBefore (Spec e))"
    "emailTime (computeSchedule e) = Unlock (Schedule (Spec e)) - nanos (emailBefore (Spec e))"
    by (simp_all add: computeSchedule_def time_add_def provisionBefore_def emailBefore_def Let_def
        flip: ns_uminus)
qed

section \<open>What an accepted update keeps\<close>

lemma ValidateUpdate_None:
  assumes "ValidateUpdate f now old new = None" "stage_of (ExPhase (ExStatus old)) \<noteq> Some Waiting"
  shows "validateFields f new = None" "Template (Spec new) = Template (Spec old)"
    "Unlock (Schedule (Spec new)) = Unlock (Schedule (Spec old))" "Spares (Spec new) = Spares (Spec old)"
    "map StudentID (Students (Spec new)) = map StudentID (Students (Spec old))"
    "ExPhase (ExStatus old) \<in> {PhaseLocked, PhaseTearingDown} \<Longrightarrow>
       lockTime (computeSchedule new) = lockTime (computeSchedule old)"
    "ExPhase (ExStatus old) = PhaseUnlocked \<Longrightarrow>
       lockTime (computeSchedule new) = lockTime (computeSchedule old) \<or> now \<le> lockTime (computeSchedule new)"
proof -
  have phase: "ExPhase (ExStatus old) \<noteq> PhasePending" "ExPhase (ExStatus old) \<noteq> PhaseEmpty"
    using assms(2) by auto
  note u = assms(1) [unfolded ValidateUpdate_def Let_def]
  show f: "validateFields f new = None" using u by (auto split: option.splits)
  have t: "Image (Template (Spec old)) = Image (Template (Spec new))" "Port (Template (Spec old)) = Port (Template (Spec new))"
    "Resources (Template (Spec old)) = Resources (Template (Spec new))"
    and unlock: "Unlock (Schedule (Spec old)) = Unlock (Schedule (Spec new))" and s: "Spares (Spec old) = Spares (Spec new)"
    and len: "length (Students (Spec old)) = length (Students (Spec new))"
    and ids: "first_changed_id 0 (Students (Spec old)) (Students (Spec new)) = None"
    using u phase f by (auto split: if_splits option.splits)
  show "Template (Spec new) = Template (Spec old)" using t by simp
  show "Unlock (Schedule (Spec new)) = Unlock (Schedule (Spec old))" "Spares (Spec new) = Spares (Spec old)"
    using unlock s by simp_all
  show "map StudentID (Students (Spec new)) = map StudentID (Students (Spec old))"
    using ids first_changed_id_None [OF len] by simp
  have same: "lockTime (computeSchedule new) = lockTime (computeSchedule old)" if "\<not> timing_changed old new"
    using that unlock by (simp add: lockTime_eq timing_changed_def f64_eq_def)
  show "lockTime (computeSchedule new) = lockTime (computeSchedule old)"
    if "ExPhase (ExStatus old) \<in> {PhaseLocked, PhaseTearingDown}"
    by (rule same) (use u that f t unlock s len ids in \<open>auto simp: timing_changed_def split: if_splits\<close>)
  show "lockTime (computeSchedule new) = lockTime (computeSchedule old) \<or> now \<le> lockTime (computeSchedule new)"
    if "ExPhase (ExStatus old) = PhaseUnlocked"
    using same u that f t unlock s len ids by (auto simp: newLockTime_eq time_before_def split: if_splits)
qed

section \<open>Concrete exams\<close>

lemma round_f64_exact:
  assumes "is_f64_rat x" "0 \<le> x" "x < 2 ^ 1024"
  shows "round_f64 x = Fin x"
proof -
  have "- (2 ^ 1024) < (0::rat)" by simp
  with assms(2,3) have "\<not> x \<le> - (2 ^ 1024)" "\<not> 2 ^ 1024 \<le> x" by linarith+
  with round_exact [OF assms(1,2)] show ?thesis by (simp add: round_f64_def Let_def)
qed

lemma round_f64_int: "0 \<le> i \<Longrightarrow> i < 2 ^ 53 \<Longrightarrow> round_f64 (of_int i) = Fin (of_int i)"
  using f64_of_int_exact [of i] by (simp add: f64_of_int_def)

lemma dur_seconds_whole:
  assumes "nanos d = k * 1000000000" "0 \<le> k" "k < 2 ^ 53"
  shows "dur_seconds d = Fin (of_int k)"
proof -
  have "trunc_div (nanos d) 1000000000 = k" using assms(1,2) by (simp add: trunc_div_def sgn_if)
  moreover have "f64_of_int 0 = Fin 0" using f64_of_int_exact [of 0] by simp
  ultimately show ?thesis
    using assms round_f64_int [of k] round_f64_int [of 0]
    by (simp add: dur_seconds_def trunc_mod_def f64_of_int_def)
qed

definition many_students :: "nat \<Rightarrow> examSpec" where
  "many_students n = sample_spec\<lparr>Students := replicate n \<lparr>StudentID = ''100000001'', Email = ''a@otu.ca''\<rparr>\<rparr>"

lemma minEmailTime_many:
  assumes "0 < n" "n < 2 ^ 50"
  shows "minEmailTime (many_students (2 * n)) = Fin (of_nat (3 * n))"
proof -
  have s: "dur_seconds (sendInterval (many_students (2 * n))) = Fin 1"
    using dur_seconds_whole [of "Second" 1] by (simp add: sendInterval_def many_students_def sample_spec_def Second_def)
  have n: "f64_of_int (int (length (Students (many_students (2 * n))))) = Fin (of_nat (2 * n))"
    using f64_of_int_exact [of "int (2 * n)"] assms by (simp add: many_students_def sample_spec_def)
  have "round_f64 (of_nat (2 * n)) = Fin (of_nat (2 * n))" "round_f64 (of_nat (3 * n)) = Fin (of_nat (3 * n))"
    using round_f64_int [of "int (2 * n)"] round_f64_int [of "int (3 * n)"] assms by simp_all
  then show ?thesis by (simp add: minEmailTime_def s n)
qed

lemma accepts_two_students: "validateFields (\<lambda>_. []) (e\<lparr>Spec := many_students 2\<rparr>) = None"
proof -
  have "dur_seconds (30 * Minute) = Fin 1800"
    using dur_seconds_whole [of "30 * Minute" 1800] by (simp add: Minute_def)
  moreover have "minEmailTime (many_students 2) = Fin 3" using minEmailTime_many [of 1] by simp
  ultimately show ?thesis
    by (simp add: validateFields_None) (simp add: many_students_def sample_spec_def emailBefore_def provisionBefore_def Hour_def Minute_def
        effectiveMultiplier_def f64_eq_def)
qed

text \<open>An exam with another duration and multiplier.\<close>

definition with_timing :: "duration \<Rightarrow> f64 \<Rightarrow> exam \<Rightarrow> exam" where
  "with_timing d m e = e\<lparr>Spec := (Spec e)\<lparr>Schedule := (Schedule (Spec e))\<lparr>Duration := d, TimeMultiplier := m\<rparr>\<rparr>\<rparr>"

lemma validateFields_timing:
  assumes "validateFields f e = None"
  shows "validateFields f (with_timing d m e) = None \<longleftrightarrow>
    0 < nanos d \<and> \<not> f64_lt (effectiveMultiplier m) (Fin 1)"
proof -
  have "minEmailTime (Spec (with_timing d m e)) = minEmailTime (Spec e)"
    "emailBefore (Spec (with_timing d m e)) = emailBefore (Spec e)"
    "provisionBefore (Spec (with_timing d m e)) = provisionBefore (Spec e)"
    by (simp_all add: with_timing_def minEmailTime_def sendInterval_def emailBefore_def provisionBefore_def)
  then show ?thesis using assms by (simp add: validateFields_None) (simp add: with_timing_def)
qed

lemma overflowing_product: "f64_mul (f64_of_int (nanos (word_of_int (2 ^ 62) :: duration))) (effectiveMultiplier (Fin 4)) = Fin (2 ^ 64)"
proof -
  have n: "nanos (word_of_int (2 ^ 62) :: duration) = 2 ^ 62"
    by (rule ns_word_of_int) (simp_all add: min_int64_def max_int64_def)
  have "is_f64_rat (2 ^ 62)" "is_f64_rat (2 ^ 64)"
    unfolding is_f64_rat_def by (rule exI [of _ 1], rule exI [of _ 62], simp, rule exI [of _ 1], rule exI [of _ 64], simp)
  moreover have "(2::rat) ^ 62 < 2 ^ 1024" "(2::rat) ^ 64 < 2 ^ 1024"
    by (rule power_strict_increasing; simp)+
  ultimately have "round_f64 (2 ^ 62) = Fin (2 ^ 62)" "round_f64 (2 ^ 64) = Fin (2 ^ 64)"
    by (intro round_f64_exact; simp)+
  then show ?thesis by (simp add: n f64_of_int_def effectiveMultiplier_def f64_eq_def)
qed

section \<open>Properties\<close>

text \<open>
  C27: the times of an accepted exam are in order: provisioning starts before the mails are
  due, and the mails are due before the unlock time. If moreover the scaling of the duration
  stays in range (a duration below 2^53 nanoseconds, a product of at most 2^62), the exam locks
  after it unlocks and runs at least its base duration.
\<close>
theorem accepted_timetable_in_order:
  assumes "ValidateCreate f e = None"
  shows "provisionTime (computeSchedule e) < emailTime (computeSchedule e) \<and>
    emailTime (computeSchedule e) < Unlock (Schedule (Spec e)) \<and>
    (\<forall>q. effectiveMultiplier (TimeMultiplier (Schedule (Spec e))) = Fin q \<longrightarrow>
       scale_in_range (Duration (Schedule (Spec e))) q \<longrightarrow>
       Unlock (Schedule (Spec e)) + nanos (Duration (Schedule (Spec e))) \<le> lockTime (computeSchedule e) \<and>
       Unlock (Schedule (Spec e)) < lockTime (computeSchedule e))"
proof -
  have v: "validateFields f e = None" using assms by (simp add: ValidateCreate_def)
  have "1 \<le> q" "0 < nanos (Duration (Schedule (Spec e)))"
    if "effectiveMultiplier (TimeMultiplier (Schedule (Spec e))) = Fin q" for q
    using v that by (auto simp: validateFields_None)
  with dur_scale_ge accepted_times [OF v] show ?thesis by (fastforce simp: lockTime_eq)
qed

definition two_students :: "examPhase \<Rightarrow> exam" where
  "two_students p = (sample_exam p)\<lparr>Spec := many_students 2\<rparr>"

theorem accepted_timetable_in_order_witness:
  "provisionTime (computeSchedule (two_students PhaseEmpty)) < emailTime (computeSchedule (two_students PhaseEmpty)) \<and>
   Unlock (Schedule (Spec (two_students PhaseEmpty))) < lockTime (computeSchedule (two_students PhaseEmpty))"
proof -
  have "ValidateCreate (\<lambda>_. []) (two_students PhaseEmpty) = None"
    by (simp add: ValidateCreate_def two_students_def accepts_two_students)
  moreover have "effectiveMultiplier (TimeMultiplier (Schedule (Spec (two_students PhaseEmpty)))) = Fin 1"
    "scale_in_range (Duration (Schedule (Spec (two_students PhaseEmpty)))) 1"
    by (simp_all add: two_students_def many_students_def sample_spec_def effectiveMultiplier_def f64_eq_def
        scale_in_range_def Hour_def)
  ultimately show ?thesis using accepted_timetable_in_order [of "\<lambda>_. []" "two_students PhaseEmpty"] by blast
qed

text \<open>
  C28: once an exam is past Pending, an accepted update keeps what its instances were built
  from: the template, the unlock time, the number of spares and the list of student ids. Once
  it is Locked or TearingDown it keeps the lock time, and while the exam is Unlocked it cannot
  lock it in the past: the lock time stays, or the new one has not passed at the check.
\<close>
theorem update_keeps_provisioned_parts:
  assumes "ValidateUpdate f now old new = None" "ExPhase (ExStatus old) \<noteq> PhaseEmpty"
    "ExPhase (ExStatus old) \<noteq> PhasePending"
  shows "Template (Spec new) = Template (Spec old) \<and> Unlock (Schedule (Spec new)) = Unlock (Schedule (Spec old)) \<and>
    Spares (Spec new) = Spares (Spec old) \<and>
    map StudentID (Students (Spec new)) = map StudentID (Students (Spec old)) \<and>
    (ExPhase (ExStatus old) \<in> {PhaseLocked, PhaseTearingDown} \<longrightarrow>
       lockTime (computeSchedule new) = lockTime (computeSchedule old)) \<and>
    (ExPhase (ExStatus old) = PhaseUnlocked \<longrightarrow>
       lockTime (computeSchedule new) = lockTime (computeSchedule old) \<or> now \<le> lockTime (computeSchedule new))"
proof -
  have "stage_of (ExPhase (ExStatus old)) \<noteq> Some Waiting"
    using assms(2,3) by (cases "ExPhase (ExStatus old)") auto
  from ValidateUpdate_None [OF assms(1) this] show ?thesis by blast
qed

lemma update_two_students: "ValidateUpdate (\<lambda>_. []) 0 (two_students p) (two_students p) = None"
proof -
  have "first_changed_id 0 ss ss = None" for ss by (simp add: first_changed_id_None)
  then show ?thesis
    by (simp add: ValidateUpdate_def two_students_def accepts_two_students timing_changed_def Let_def)
      (simp add: f64_eq_def many_students_def sample_spec_def)
qed

theorem update_keeps_provisioned_parts_witness:
  "map StudentID (Students (Spec (two_students PhaseReady))) = [''100000001'', ''100000001'']"
proof -
  have "ExPhase (ExStatus (two_students PhaseReady)) = PhaseReady"
    by (simp add: two_students_def sample_exam_def)
  with update_keeps_provisioned_parts [OF update_two_students [of PhaseReady]]
  show ?thesis by (simp add: two_students_def many_students_def sample_spec_def numeral_2_eq_2)
qed

text \<open>
  Student ids need not be unique: the webhook accepts an exam with two students of one
  id, although the reference of the resource documents the id as unique.
\<close>
theorem duplicate_student_ids_accepted:
  "ValidateCreate (\<lambda>_. []) (two_students PhaseEmpty) = None \<and>
   \<not> distinct (map StudentID (Students (Spec (two_students PhaseEmpty))))"
  by (simp add: ValidateCreate_def two_students_def accepts_two_students)
    (simp add: many_students_def numeral_2_eq_2)

text \<open>
  C29: the timing of an exam is bounded below only. For an exam the webhook accepts, any other
  duration and multiplier are accepted exactly if the duration is positive and the effective
  multiplier is not below one; so the scaled duration may leave the 64-bit range, and the
  lock time then lies at the distance from the unlock time that the conversion of the platform
  happens to give for the product.
\<close>
theorem timing_bounded_below_only:
  assumes "ValidateCreate f e = None"
  shows "(ValidateCreate f (with_timing d m e) = None \<longleftrightarrow>
      0 < nanos d \<and> \<not> f64_lt (effectiveMultiplier m) (Fin 1)) \<and>
    (f64_mul (f64_of_int (nanos d)) (effectiveMultiplier m) = Fin x \<longrightarrow> 2 ^ 63 \<le> x \<longrightarrow>
      lockTime (computeSchedule (with_timing d m e)) =
        Unlock (Schedule (Spec e)) + nanos (out_of_range_int64 (Fin x)))"
proof (intro conjI impI)
  show "ValidateCreate f (with_timing d m e) = None \<longleftrightarrow> 0 < nanos d \<and> \<not> f64_lt (effectiveMultiplier m) (Fin 1)"
    using assms validateFields_timing by (simp add: ValidateCreate_def)
next
  assume p: "f64_mul (f64_of_int (nanos d)) (effectiveMultiplier m) = Fin x" "2 ^ 63 \<le> x"
  then have "2 ^ 63 \<le> trunc_rat x" by (simp add: trunc_rat_def le_floor_iff)
  then have "dur_scale d (effectiveMultiplier m) = out_of_range_int64 (Fin x)"
    by (simp add: dur_scale_def p(1) Let_def max_int64_def)
  then show "lockTime (computeSchedule (with_timing d m e)) =
      Unlock (Schedule (Spec e)) + nanos (out_of_range_int64 (Fin x))"
    by (simp add: lockTime_eq with_timing_def)
qed

theorem timing_bounded_below_only_witness:
  "ValidateCreate (\<lambda>_. []) (with_timing (word_of_int (2 ^ 62)) (Fin 4) (two_students PhaseEmpty)) = None \<and>
   lockTime (computeSchedule (with_timing (word_of_int (2 ^ 62)) (Fin 4) (two_students PhaseEmpty))) =
     Unlock (Schedule (Spec (two_students PhaseEmpty))) + nanos (out_of_range_int64 (Fin (2 ^ 64)))"
proof -
  have "ValidateCreate (\<lambda>_. []) (two_students PhaseEmpty) = None"
    by (simp add: ValidateCreate_def two_students_def accepts_two_students)
  note timing = timing_bounded_below_only [OF this, of "word_of_int (2 ^ 62)" "Fin 4"]
  have "0 < nanos (word_of_int (2 ^ 62) :: duration)" "\<not> f64_lt (effectiveMultiplier (Fin 4)) (Fin 1)"
    by (subst ns_word_of_int) (simp_all add: min_int64_def max_int64_def effectiveMultiplier_def f64_eq_def)
  moreover have "(2::rat) ^ 63 \<le> 2 ^ 64" by simp
  ultimately show ?thesis using timing [of "2 ^ 64"] overflowing_product by blast
qed

end
