(* ===== verification/Footprint.thy ===== *)
theory Footprint
  imports Controller
begin

text \<open>
  What the operations do to the world. \<open>allows C D M U\<close> is the set of events of a component
  that creates or applies only objects in \<open>C\<close>, deletes only keys in \<open>D\<close>, mails only the
  recipients in \<open>M\<close> and writes only exams in \<open>U\<close>; the rules below say for each operation
  which objects, keys, recipients and exams these must contain. Together with the event
  rule each operation has a postcondition that relates the exam it returns to the one it got.
\<close>

section \<open>Write footprints\<close>

fun allows :: "(kobj \<Rightarrow> bool) \<Rightarrow> (okey \<Rightarrow> bool) \<Rightarrow> (string list \<Rightarrow> bool) \<Rightarrow> (exam \<Rightarrow> bool) \<Rightarrow> event \<Rightarrow> bool" where
  "allows C D M U (EvCreate x _) = C x"
| "allows C D M U (EvApply x _) = C x"
| "allows C D M U (EvDelete k _) = D k"
| "allows C D M U (EvSmtp _ _ _ to _ _) = M to"
| "allows C D M U (EvSend _ to _ _) = M to"
| "allows C D M U (EvUpdate e _) = U e"
| "allows C D M U (EvStatusUpdate e _) = U e"
| "allows C D M U _ = True"

lemma emits_SMTP_to: "M to \<Longrightarrow> emits (allows C D M U) (SMTPSender_Send r s from to msg) (\<lambda>_. True)"
  by (auto simp: SMTPSender_Send_def Let_def intro!: emits_ask)

lemma emits_sendEmail_to [emit_rules]:
  assumes "M to" "\<And>x. Q x"
  shows "emits (allows C D M U) (sendEmail r e to msg) Q"
proof -
  have "emits (allows C D M U) (sendEmail r e to msg) (\<lambda>_. True)"
    unfolding sendEmail_def resolvedSender_def sender_Send_def RetrySender_Send_def NewRetrySender_def
    using assms(1)
    by (auto intro!: emit_rules emits_bind_True emits_retry_loop emits_SMTP_to emits_ask
        simp: rSleep_def Let_def split: sum.splits sender_value.splits)
  then show ?thesis by (rule emits_conseq) (auto simp: assms(2))
qed

lemma emits_create_each [emit_rules]:
  "(\<And>x. x \<in> set xs \<Longrightarrow> C x) \<Longrightarrow> (\<And>y. Q y) \<Longrightarrow> emits (allows C D M U) (create_each r xs) Q"
  by (induction xs) (auto intro!: emit_rules emits_bind_True)

lemma emits_provisionInstance [emit_rules]:
  assumes "\<And>x. x \<in> set (instance_objects (PolicyProvider r) e ns sid s) \<Longrightarrow> C x" "\<And>y. Q y"
  shows "emits (allows C D M U) (provisionInstance r e ns sid s) Q"
  using assms by (auto simp: provisionInstance_def intro!: emit_rules)

definition tls_copy :: "reconciler \<Rightarrow> exam \<Rightarrow> string \<Rightarrow> secretData \<Rightarrow> kobj" where
  "tls_copy r e ns d =
     KSecret \<lparr>ObjName = IngressTLSSecretName (Platform r), ObjNamespace = ns, ObjLabels = examResourceLabels e\<rparr> d"

lemma emits_reconcilePlatformTLSSecret [emit_rules]:
  assumes "\<And>d. C (tls_copy r e ns d)" "\<And>y. Q y"
  shows "emits (allows C D M U) (reconcilePlatformTLSSecret r e ns) Q"
  using assms by (auto simp: reconcilePlatformTLSSecret_def tls_copy_def Let_def intro!: emit_rules emits_bind_True)

lemma emits_new_slug [emit_rules]:
  "(\<And>s. is_slug s \<Longrightarrow> Q (Inr s)) \<Longrightarrow> (\<And>x. Q (Inl x)) \<Longrightarrow> emits (allows C D M U) (new_slug r) Q"
  unfolding new_slug_def
  by (rule emits_bind [where R = "\<lambda>x. case x of Inl _ \<Rightarrow> True | Inr s \<Rightarrow> is_slug s"])
    (auto intro!: emit_rules split: sum.splits)

lemma emits_findOrGenerateSlug [emit_rules]:
  assumes "\<And>s. recorded_slug sid (StatusStudents (ExStatus e)) = Some s \<Longrightarrow> Q (Inr s)"
    "\<And>s. recorded_slug sid (StatusStudents (ExStatus e)) = None \<Longrightarrow> s \<noteq> '''' \<Longrightarrow> Q (Inr s)" "\<And>x. Q (Inl x)"
  shows "emits (allows C D M U) (findOrGenerateSlug r e ns sid) Q"
proof -
  have "s \<noteq> ''''" if "is_slug s" for s
    using that by (auto simp: is_slug_def)
  with assms show ?thesis
    by (auto simp: findOrGenerateSlug_def Let_def intro!: emit_rules emits_bind_True split: list.splits)
qed

lemma set_spare_slugs: "s \<in> set (spare_slugs items) \<Longrightarrow> s \<noteq> ''''"
  by (auto simp: spare_slugs_def split: if_splits)

lemma emits_findOrGenerateSpareSlug [emit_rules]:
  assumes "\<And>s. s \<noteq> '''' \<Longrightarrow> Q (Inr s)" "\<And>x. Q (Inl x)"
  shows "emits (allows C D M U) (findOrGenerateSpareSlug r e ns i) Q"
proof -
  have "s \<noteq> ''''" if "is_slug s" for s
    using that by (auto simp: is_slug_def)
  with assms set_spare_slugs [OF nth_mem] show ?thesis
    by (auto simp: findOrGenerateSpareSlug_def Let_def intro!: emit_rules emits_bind_True)
qed

text \<open>Setting a condition changes nothing else.\<close>

definition only_conditions :: "exam \<Rightarrow> exam \<Rightarrow> bool" where
  "only_conditions e e' \<longleftrightarrow> (\<exists>cs. e' = upd_status (\<lambda>s. s\<lparr>Conditions := cs\<rparr>) e)"

lemma emits_setCondition [emit_rules]:
  "(\<And>cs. Q (upd_status (\<lambda>s. s\<lparr>Conditions := cs\<rparr>) e)) \<Longrightarrow> emits E (setCondition r e c) Q"
  unfolding setCondition_def
  by (rule emits_bind_True) (auto intro!: emit_rules)


section \<open>The footprint of an exam\<close>

text \<open>
  The objects an exam's pass may create: its namespace, the copied TLS secret, the objects
  of its instances, and only when \<open>opened\<close> their routes. The keys it may delete: its
  namespace, the ingress policies, and what a listing of its own objects returned.
\<close>

definition exam_ns :: "exam \<Rightarrow> string" where
  "exam_ns e = examNamespace (Name e) (Namespace e)"

definition exam_creates :: "reconciler \<Rightarrow> exam \<Rightarrow> bool \<Rightarrow> kobj \<Rightarrow> bool" where
  "exam_creates r e opened x \<longleftrightarrow>
     x = KNamespace \<lparr>ObjName = exam_ns e, ObjNamespace = '''', ObjLabels = OwnerLabels e\<rparr> \<or>
     (\<exists>d. x = tls_copy r e (exam_ns e) d) \<or>
     (\<exists>sid s. x \<in> set (instance_objects (PolicyProvider r) e (exam_ns e) sid s)) \<or>
     (\<exists>sid s. opened \<and>
        (x = Ingress e (exam_ns e) sid s (BaseDomain (Platform r)) (IngressTLSSecretName (Platform r)) \<or>
         x = IngressAllow (PolicyProvider r) (exam_ns e) (policyLabels e sid s)))"

definition listable :: "reconciler \<Rightarrow> exam \<Rightarrow> kind \<Rightarrow> kobj \<Rightarrow> bool" where
  "listable r e k x \<longleftrightarrow> k \<noteq> NamespaceKind \<and> (\<exists>h xs. cl_List r h k (exam_ns e) (OwnerLabels e) = Inr xs \<and> x \<in> set xs)"

definition exam_deletes :: "reconciler \<Rightarrow> exam \<Rightarrow> okey \<Rightarrow> bool" where
  "exam_deletes r e k \<longleftrightarrow>
     k = (NamespaceKind, '''', exam_ns e) \<or>
     (\<exists>sid s. k = obj_key (IngressAllow (PolicyProvider r) (exam_ns e) (policyLabels e sid s))) \<or>
     (\<exists>kd x. listable r e kd x \<and> k = obj_key x)"

definition footprint :: "reconciler \<Rightarrow> exam \<Rightarrow> bool \<Rightarrow> (string list \<Rightarrow> bool) \<Rightarrow> (exam \<Rightarrow> bool) \<Rightarrow> event \<Rightarrow> bool" where
  "footprint r e opened M U = allows (exam_creates r e opened) (exam_deletes r e) M U"

definition to_instructor :: "exam \<Rightarrow> string list \<Rightarrow> bool" where
  "to_instructor e to \<longleftrightarrow> to = [InstructorEmail (SpecEmail (Spec e))]"

text \<open>The addressee of the next pending mail.\<close>

definition to_student :: "exam \<Rightarrow> string list \<Rightarrow> bool" where
  "to_student e to \<longleftrightarrow> (\<exists>i. next_pending (StatusStudents (ExStatus e)) = Some i \<and>
     i < length (Students (Spec e)) \<and> to = [Email (Students (Spec e) ! i)])"

lemma resource_upd_status [simp]:
  "Deployment (upd_status f e) = Deployment e" "Service (upd_status f e) = Service e"
  "Ingress (upd_status f e) = Ingress e"
  by (simp_all add: Deployment_def Service_def Ingress_def fun_eq_iff)

lemma platformSecretNamespace_upd_status [simp]:
  "platformSecretNamespace r (upd_status f e) = platformSecretNamespace r e"
  by (simp add: platformSecretNamespace_def)

lemma footprint_upd_status [simp]:
  "exam_ns (upd_status f e) = exam_ns e"
  "to_instructor (upd_status f e) = to_instructor e"
  "listable r (upd_status f e) = listable r e"
  "exam_creates r (upd_status f e) = exam_creates r e"
  "exam_deletes r (upd_status f e) = exam_deletes r e"
  "footprint r (upd_status f e) = footprint r e"
proof -
  show ns: "exam_ns (upd_status f e) = exam_ns e"
    and "to_instructor (upd_status f e) = to_instructor e"
    by (simp_all add: exam_ns_def to_instructor_def fun_eq_iff)
  show c: "exam_creates r (upd_status f e) = exam_creates r e"
    by (simp add: ns exam_creates_def fun_eq_iff tls_copy_def instance_objects_def examResourceLabels_def)
  show l: "listable r (upd_status f e) = listable r e"
    by (simp add: ns listable_def fun_eq_iff)
  show d: "exam_deletes r (upd_status f e) = exam_deletes r e"
    by (simp add: ns l exam_deletes_def fun_eq_iff)
  show "footprint r (upd_status f e) = footprint r e"
    by (simp only: footprint_def fun_eq_iff c d) simp
qed

text \<open>Relations between an exam and what an operation leaves of it.\<close>

definition same_exam :: "exam \<Rightarrow> exam \<Rightarrow> bool" where
  "same_exam e e' \<longleftrightarrow> (\<exists>f. e' = upd_status f e) \<and>
     ComputedLockTime (ExStatus e') = ComputedLockTime (ExStatus e) \<and>
     ProvisionTime (ExStatus e') = ProvisionTime (ExStatus e) \<and>
     EmailTime (ExStatus e') = EmailTime (ExStatus e) \<and>
     RetentionDeadline (ExStatus e') = RetentionDeadline (ExStatus e)"

lemma same_exam_refl [simp]: "same_exam e e"
proof -
  have "e = upd_status (\<lambda>s. s) e" by (simp add: upd_status_def)
  then have "\<exists>f. e = upd_status f e" by (rule exI [of _ "\<lambda>s. s"])
  then show ?thesis by (simp add: same_exam_def)
qed

lemma same_exam_trans: "same_exam e e1 \<Longrightarrow> same_exam e1 e2 \<Longrightarrow> same_exam e e2"
  by (auto simp: same_exam_def)

lemma same_exam_upd:
  assumes "same_exam e e1"
    "ComputedLockTime (f (ExStatus e1)) = ComputedLockTime (ExStatus e1)"
    "ProvisionTime (f (ExStatus e1)) = ProvisionTime (ExStatus e1)"
    "EmailTime (f (ExStatus e1)) = EmailTime (ExStatus e1)"
    "RetentionDeadline (f (ExStatus e1)) = RetentionDeadline (ExStatus e1)"
  shows "same_exam e (upd_status f e1)"
  using assms by (auto simp: same_exam_def)

lemma same_examD:
  assumes "same_exam e e'"
  shows "Spec e' = Spec e" "Name e' = Name e" "Namespace e' = Namespace e" "footprint r e' = footprint r e"
    "exam_ns e' = exam_ns e" "to_instructor e' = to_instructor e"
    "listable r e' = listable r e" "exam_creates r e' = exam_creates r e" "exam_deletes r e' = exam_deletes r e"
    "Generation e' = Generation e" "DeletionTimestamp e' = DeletionTimestamp e" "Finalizers e' = Finalizers e"
    "ComputedLockTime (ExStatus e') = ComputedLockTime (ExStatus e)"
    "ProvisionTime (ExStatus e') = ProvisionTime (ExStatus e)"
    "EmailTime (ExStatus e') = EmailTime (ExStatus e)"
    "RetentionDeadline (ExStatus e') = RetentionDeadline (ExStatus e)"
  using assms by (auto simp: same_exam_def)

text \<open>
  A student record moves on without losing anything: identity, slug and URL stay, a mail
  that is not pending stays as it is, a failed instance stays failed.
\<close>

definition settled :: "studentStatus \<Rightarrow> studentStatus \<Rightarrow> bool" where
  "settled s s' \<longleftrightarrow> ID s' = ID s \<and> Slug s' = Slug s \<and> URL s' = URL s \<and>
     (EmailStatus s \<noteq> EmailPending \<longrightarrow> EmailStatus s' = EmailStatus s \<and> EmailSentAt s' = EmailSentAt s) \<and>
     (Phase s = StudentFailed \<longleftrightarrow> Phase s' = StudentFailed)"

definition moves_on :: "exam \<Rightarrow> exam \<Rightarrow> bool" where
  "moves_on e e' \<longleftrightarrow> same_exam e e' \<and> ExPhase (ExStatus e') = ExPhase (ExStatus e) \<and>
     map SpareSlug (StatusSpares (ExStatus e')) = map SpareSlug (StatusSpares (ExStatus e)) \<and>
     list_all2 settled (StatusStudents (ExStatus e)) (StatusStudents (ExStatus e'))"

text \<open>
  The records of an exam are identified if they stand, in order, for the first students of
  the specification and have a slug. They grow from one exam to the next if this is kept and,
  with distinct student ids, no slug that was given is changed.
\<close>

abbreviation records :: "exam \<Rightarrow> studentStatus list" where
  "records e \<equiv> StatusStudents (ExStatus e)"

definition identified :: "exam \<Rightarrow> bool" where
  "identified e \<longleftrightarrow> map ID (records e) = take (length (records e)) (map StudentID (Students (Spec e))) \<and>
     (\<forall>s \<in> set (records e). Slug s \<noteq> '''')"

definition all_recorded :: "exam \<Rightarrow> bool" where
  "all_recorded e \<longleftrightarrow> length (records e) = length (Students (Spec e))"

definition records_grow :: "exam \<Rightarrow> exam \<Rightarrow> bool" where
  "records_grow e e' \<longleftrightarrow> (identified e \<longrightarrow> identified e' \<and>
     (distinct (map StudentID (Students (Spec e))) \<longrightarrow> prefix (map Slug (records e)) (map Slug (records e'))))"

lemma records_grow_same: "Spec e' = Spec e \<Longrightarrow> records e' = records e \<Longrightarrow> records_grow e e'"
  by (simp add: records_grow_def identified_def)

lemma records_upd_status [simp]:
  assumes "StatusStudents (f (ExStatus x)) = records x"
  shows "records_grow e (upd_status f x) = records_grow e x" "identified (upd_status f x) = identified x"
    "all_recorded (upd_status f x) = all_recorded x"
  using assms by (simp_all add: records_grow_def identified_def all_recorded_def)

lemma records_grow_refl [simp]: "records_grow e e"
  by (simp add: records_grow_same)

lemma records_grow_trans: "records_grow e e1 \<Longrightarrow> records_grow e1 e2 \<Longrightarrow> Spec e1 = Spec e \<Longrightarrow> records_grow e e2"
  by (auto simp: records_grow_def intro: prefix_order.trans)

lemma records_grow_settled:
  assumes "Spec e' = Spec e" "list_all2 settled (records e) (records e')"
  shows "records_grow e e'"
proof -
  have "map ID (records e') = map ID (records e)" "map Slug (records e') = map Slug (records e)"
    using assms(2) by (induction rule: list_all2_induct) (simp_all add: settled_def)
  moreover have "Slug ` set (records e') = Slug ` set (records e)"
    using arg_cong [OF calculation(2), of set] by simp
  moreover have "length (records e') = length (records e)"
    using list_all2_lengthD [OF assms(2)] by simp
  ultimately show ?thesis
    using assms(1) by (auto simp: records_grow_def identified_def) (metis imageE imageI)
qed

lemma recorded_slug_nth:
  "distinct (map ID ss) \<Longrightarrow> i < length ss \<Longrightarrow> Slug (ss ! i) \<noteq> '''' \<Longrightarrow>
    recorded_slug (ID (ss ! i)) ss = Some (Slug (ss ! i))"
  by (induction ss arbitrary: i) (auto simp: nth_Cons in_set_conv_nth split: nat.splits, force)

lemma identified_nth:
  assumes "identified e" "i < length (records e)"
  shows "ID (records e ! i) = StudentID (Students (Spec e) ! i)" "i < length (Students (Spec e))"
    "Slug (records e ! i) \<noteq> ''''"
proof -
  have *: "map ID (records e) = take (length (records e)) (map StudentID (Students (Spec e)))"
    using assms(1) by (simp add: identified_def)
  from arg_cong [OF this, of length] assms(2) show i: "i < length (Students (Spec e))" by simp
  from arg_cong [OF *, of "\<lambda>xs. xs ! i"] assms(2) i show "ID (records e ! i) = StudentID (Students (Spec e) ! i)" by simp
  show "Slug (records e ! i) \<noteq> ''''" using assms by (simp add: identified_def)
qed

lemma identified_distinct:
  "identified e \<Longrightarrow> distinct (map StudentID (Students (Spec e))) \<Longrightarrow> distinct (map ID (records e))"
  by (auto simp: identified_def)

text \<open>Recording a student at the position it has in the specification, with the slug looked up for it.\<close>

lemma records_grow_student:
  assumes "setStudentStatus r e i s p = Returns e'" "identified e \<Longrightarrow> i \<le> length (records e)" "s \<noteq> ''''"
    and "\<And>s'. recorded_slug (StudentID (Students (Spec e) ! i)) (records e) = Some s' \<Longrightarrow> s = s'"
  shows "records_grow e e'"
proof (cases "identified e")
  case True
  have i: "i < length (Students (Spec e))" using assms(1) by (simp add: setStudentStatus_def split: if_splits)
  let ?new = "\<lparr>ID = StudentID (Students (Spec e) ! i), Slug = s, URL = instanceURL r s,
      Phase = p, EmailStatus = EmailPending, EmailSentAt = None\<rparr>"
  have spec: "Spec e' = Spec e" and recs: "records e' = (padded zero_student i (records e))[i := ?new]"
    using assms(1) i by (auto simp: setStudentStatus_def)
  have ids: "map ID (records e) = take (length (records e)) (map StudentID (Students (Spec e)))"
    using True by (simp add: identified_def)
  show ?thesis
  proof (cases "i < length (records e)")
    case inside: True
    then have recs': "records e' = (records e)[i := ?new]" by (simp add: recs padded_def)
    have "map ID (records e') = map ID (records e)"
      using identified_nth(1) [OF True inside] by (simp add: recs' map_update list_update_same_conv inside)
    moreover have "\<forall>x \<in> set (records e'). Slug x \<noteq> ''''"
      using True assms(3) set_update_subset_insert [of "records e" i ?new] by (auto simp: identified_def recs')
    ultimately have "identified e'" using ids by (simp add: identified_def spec recs')
    moreover have "map Slug (records e') = map Slug (records e)"
      if "distinct (map StudentID (Students (Spec e)))"
    proof -
      have "s = Slug (records e ! i)"
        using assms(4) recorded_slug_nth [OF identified_distinct [OF True that] inside]
          identified_nth [OF True inside] by simp
      then show ?thesis by (simp add: recs' map_update list_update_same_conv inside)
    qed
    ultimately show ?thesis by (simp add: records_grow_def)
  next
    case False
    with assms(2) True have n: "i = length (records e)" by simp
    then have recs': "records e' = records e @ [?new]" by (simp add: recs padded_def list_update_append)
    have "identified e'"
      using True ids i n assms(3) by (auto simp: identified_def spec recs' take_Suc_conv_app_nth)
    then show ?thesis by (simp add: records_grow_def recs')
  qed
qed (simp add: records_grow_def)

lemma settled_refl [simp]: "settled s s"
  by (simp add: settled_def)

lemma moves_on_refl [simp]: "moves_on e e"
  by (simp add: moves_on_def list_all2_refl)

lemma settled_trans: "settled a b \<Longrightarrow> settled b c \<Longrightarrow> settled a c"
  by (auto simp: settled_def)

lemma moves_on_trans: "moves_on e e1 \<Longrightarrow> moves_on e1 e2 \<Longrightarrow> moves_on e e2"
  unfolding moves_on_def
  by (auto intro: same_exam_trans list_all2_trans [of settled settled settled] settled_trans)

lemma moves_on_conditions:
  "moves_on e e1 \<Longrightarrow> moves_on e (upd_status (\<lambda>s. s\<lparr>Conditions := cs\<rparr>) e1)"
  by (auto simp: moves_on_def same_exam_def list_all2_refl)

lemma moves_onD: "moves_on e e' \<Longrightarrow> same_exam e e'"
  by (simp add: moves_on_def)

lemma moves_on_times:
  assumes "moves_on e e'"
  shows "ComputedLockTime (ExStatus e') = None \<Longrightarrow> ComputedLockTime (ExStatus e) = None"
    "RetentionDeadline (ExStatus e') = None \<Longrightarrow> RetentionDeadline (ExStatus e) = None"
  using same_examD [OF moves_onD [OF assms]] by simp_all

lemma moves_on_upd:
  assumes "moves_on e e1" and "same_exam e1 (upd_status f e1)"
    "ExPhase (f (ExStatus e1)) = ExPhase (ExStatus e1)"
    "map SpareSlug (StatusSpares (f (ExStatus e1))) = map SpareSlug (StatusSpares (ExStatus e1))"
    "list_all2 settled (StatusStudents (ExStatus e1)) (StatusStudents (f (ExStatus e1)))"
  shows "moves_on e (upd_status f e1)"
  using assms(1) by (rule moves_on_trans) (use assms(2-) in \<open>simp add: moves_on_def\<close>)

section \<open>Footprints of the helpers\<close>

lemma creates_instance:
  "x \<in> set (instance_objects (PolicyProvider r) e (exam_ns e) sid s) \<Longrightarrow> exam_creates r e b x"
  by (auto simp: exam_creates_def)

lemma creates_open:
  "b \<Longrightarrow> exam_creates r e b (Ingress e (exam_ns e) sid s (BaseDomain (Platform r)) (IngressTLSSecretName (Platform r)))"
  "b \<Longrightarrow> exam_creates r e b (IngressAllow (PolicyProvider r) (exam_ns e) (policyLabels e sid s))"
  by (auto simp: exam_creates_def)

lemma creates_base:
  "exam_creates r e b (KNamespace \<lparr>ObjName = exam_ns e, ObjNamespace = '''', ObjLabels = OwnerLabels e\<rparr>)"
  "exam_creates r e b (tls_copy r e (exam_ns e) d)"
  "exam_creates r e b (Deployment e (exam_ns e) sid s)"
  "exam_creates r e b (Service e (exam_ns e) sid s)"
  "exam_creates r e b (DenyAll (PolicyProvider r) (exam_ns e) (policyLabels e sid s))"
  "exam_creates r e b (EgressAllowlist (PolicyProvider r) (exam_ns e) (policyLabels e sid s))"
  by (auto simp: exam_creates_def instance_objects_def)

lemma deletes_base:
  "exam_deletes r e (NamespaceKind, '''', exam_ns e)"
  "exam_deletes r e (obj_key (IngressAllow (PolicyProvider r) (exam_ns e) (policyLabels e sid s)))"
  "listable r e kd x \<Longrightarrow> exam_deletes r e (obj_key x)"
  by (auto simp: exam_deletes_def)

lemma fp_provisionInstance [emit_rules]:
  "ns = exam_ns e \<Longrightarrow> (\<And>y. Q y) \<Longrightarrow> emits (footprint r e b M U) (provisionInstance r e ns sid s) Q"
  by (auto simp: footprint_def intro!: emit_rules creates_instance)

lemma fp_tls [emit_rules]:
  "ns = exam_ns e \<Longrightarrow> (\<And>y. Q y) \<Longrightarrow> emits (footprint r e b M U) (reconcilePlatformTLSSecret r e ns) Q"
  by (auto simp: footprint_def intro!: emit_rules creates_base)

lemma fp_findOrGenerateSlug [emit_rules]:
  assumes "\<And>s. recorded_slug sid (StatusStudents (ExStatus e)) = Some s \<Longrightarrow> Q (Inr s)"
    "\<And>s. recorded_slug sid (StatusStudents (ExStatus e)) = None \<Longrightarrow> s \<noteq> '''' \<Longrightarrow> Q (Inr s)" "\<And>x. Q (Inl x)"
  shows "emits (footprint r e' b M U) (findOrGenerateSlug r e ns sid) Q"
  using assms by (auto simp: footprint_def intro!: emit_rules)

lemma fp_findOrGenerateSpareSlug [emit_rules]:
  "(\<And>s. s \<noteq> '''' \<Longrightarrow> Q (Inr s)) \<Longrightarrow> (\<And>x. Q (Inl x)) \<Longrightarrow>
   emits (footprint r e' b M U) (findOrGenerateSpareSlug r e ns i) Q"
  by (auto simp: footprint_def intro!: emit_rules)

lemma fp_sendEmail [emit_rules]:
  "M to \<Longrightarrow> (\<And>x. Q x) \<Longrightarrow> emits (footprint r e' b M U) (sendEmail r e to msg) Q"
  by (auto simp: footprint_def intro!: emit_rules)

text \<open>Events that are in every footprint.\<close>

lemma fp_events [simp]:
  "footprint r e b M U (EvNow t)" "footprint r e b M U (EvMetric op)" "footprint r e b M U (EvList k n sel lr)"
  "footprint r e b M U (EvGetExam kk g)" "footprint r e b M U (EvSleep d)"
  "footprint r e b M U (EvHTTP d u hr)" "footprint r e b M U (EvCheckHealth u o1)" "footprint r e b M U (EvCheckBlocked u o1)"
  "footprint r e b M U (EvCreate x res) = exam_creates r e b x"
  "footprint r e b M U (EvDelete ky res) = exam_deletes r e ky"
  "footprint r e b M U (EvUpdate e1 ures) = U e1"
  "footprint r e b M U (EvStatusUpdate e1 res) = U e1"
  by (simp_all add: footprint_def)

text \<open>A listing returns only what can be listed.\<close>

lemma fp_list_items:
  assumes "kd \<noteq> NamespaceKind" and "\<And>xs. (\<And>x. x \<in> set xs \<Longrightarrow> listable r e kd x) \<Longrightarrow> Q (Inr xs)" "\<And>x. Q (Inl x)"
  shows "emits (footprint r e b M U) (rList r kd (exam_ns e) (OwnerLabels e)) Q"
proof -
  have "Q (cl_List r h kd (exam_ns e) (OwnerLabels e))" for h
  proof (cases "cl_List r h kd (exam_ns e) (OwnerLabels e)")
    case (Inl a)
    then show ?thesis using assms(3) by simp
  next
    case (Inr xs)
    with assms(1) have "\<And>x. x \<in> set xs \<Longrightarrow> listable r e kd x" by (auto simp: listable_def)
    with assms(2) Inr show ?thesis by simp
  qed
  then show ?thesis
    unfolding emits_def rList_def by (auto intro!: runs_ask)
qed

lemma fp_delete_orphans:
  "(\<And>x. x \<in> set xs \<Longrightarrow> listable r e kd x) \<Longrightarrow> (\<And>y. Q y) \<Longrightarrow>
   emits (footprint r e b M U) (delete_orphans r slugs xs) Q"
  by (induction xs) (auto simp: Let_def intro!: emit_rules emits_bind_True deletes_base(3) [where kd = kd])

lemma fp_cleanup_kinds:
  "NamespaceKind \<notin> set ks \<Longrightarrow> (\<And>y. Q y) \<Longrightarrow>
   emits (footprint r e b M U) (cleanup_kinds r slugs (exam_ns e) (OwnerLabels e) ks) Q"
proof (induction ks)
  case Nil
  then show ?case by (auto intro: emit_rules)
next
  case (Cons k ks)
  then have k: "k \<noteq> NamespaceKind" "NamespaceKind \<notin> set ks" by auto
  show ?case
    by (simp, rule emits_bind [OF fp_list_items [where
          Q = "\<lambda>res. case res of Inl _ \<Rightarrow> True | Inr xs \<Rightarrow> \<forall>x \<in> set xs. listable r e k x"]])
      (auto intro!: emit_rules emits_bind_True fp_delete_orphans Cons k split: sum.splits)
qed

lemma fp_cleanup [emit_rules]:
  "ns = exam_ns e \<Longrightarrow> (\<And>y. Q y) \<Longrightarrow> emits (footprint r e b M U) (cleanupOrphanedResources r e ns) Q"
  unfolding cleanupOrphanedResources_def examResourceSelector_def examResourceLabels_def
  by (simp, rule fp_cleanup_kinds) (auto simp: orphan_kinds_def)

lemma fp_healthy [emit_rules]:
  "(\<And>y. Q y) \<Longrightarrow> emits (footprint r e' b M U) (allInstancesHealthy r e ns) Q"
  by (auto simp: allInstancesHealthy_def intro!: emit_rules emits_bind_True)

lemma fp_delete_each:
  "(\<And>x. x \<in> set xs \<Longrightarrow> listable r e kd x) \<Longrightarrow> (\<And>y. Q y) \<Longrightarrow>
   emits (footprint r e b M U) (delete_each r xs) Q"
  by (induction xs) (auto intro!: emit_rules emits_bind_True deletes_base(3) [where kd = kd])

lemma fp_deleteIngresses [emit_rules]:
  "ns = exam_ns e \<Longrightarrow> (\<And>y. Q y) \<Longrightarrow> emits (footprint r e b M U) (deleteIngresses r e ns) Q"
  unfolding deleteIngresses_def examResourceSelector_def examResourceLabels_def
  by (simp, rule emits_bind [OF fp_list_items [where
        Q = "\<lambda>res. case res of Inl _ \<Rightarrow> True | Inr xs \<Rightarrow> \<forall>x \<in> set xs. listable r e IngressKind x"]])
    (auto intro!: emit_rules fp_delete_each split: sum.splits)

lemma fp_enforce_entry [emit_rules]:
  assumes "opened \<longrightarrow> b" "Q ()"
  shows "emits (footprint r e b M U) (enforce_entry r e opened x) Q"
  using assms
  by (auto simp: enforce_entry_def Let_def exam_ns_def [symmetric]
      intro!: emit_rules emits_bind_True creates_base creates_open deletes_base split: prod.splits)

lemma fp_enforcePolicies [emit_rules]:
  assumes "opened \<longrightarrow> b" "Q ()"
  shows "emits (footprint r e b M U) (enforcePolicies r e opened) Q"
proof -
  have "emits (footprint r e b M U) (enforce_entries r e opened xs) Q" for xs
    using assms by (induction xs) (auto intro!: emit_rules emits_bind_True)
  then show ?thesis
    by (auto simp: enforcePolicies_def exam_ns_def [symmetric] intro!: emit_rules emits_bind_True)
qed

lemma fp_enforce_same:
  "same_exam e e' \<Longrightarrow> opened \<longrightarrow> b \<Longrightarrow> Q () \<Longrightarrow> emits (footprint r e b M U) (enforcePolicies r e' opened) Q"
  using fp_enforcePolicies [of opened b Q r e' M U] by (simp add: same_examD(4))

lemma fp_CleanupExam [emit_rules]: "Q () \<Longrightarrow> emits (footprint r e b M U) (CleanupExam r n ns) Q"
  by (auto intro: emit_rules)

section \<open>Footprints of the handlers\<close>

fun go_post :: "bool \<Rightarrow> ('a \<Rightarrow> bool) \<Rightarrow> 'a go \<Rightarrow> bool" where
  "go_post p q Panics = p"
| "go_post p q (Returns x) = q x"

lemma emits_go_bind:
  assumes "emits E m (go_post p R)" "p \<Longrightarrow> emits E (f Panics) Q" "\<And>x. R x \<Longrightarrow> emits E (f (Returns x)) Q"
  shows "emits E (m \<bind> f) Q"
proof (rule emits_bind [OF assms(1)])
  fix x
  assume "go_post p R x"
  then show "emits E (f x) Q" using assms(2,3) by (cases x) auto
qed

text \<open>Binds whose first part is known: a condition is set, or a branch was taken.\<close>

lemma emits_bind_known:
  "(\<And>cs. emits E (f (upd_status (\<lambda>s. s\<lparr>Conditions := cs\<rparr>) e)) Q) \<Longrightarrow> emits E (setCondition r e c \<bind> f) Q"
  "(b \<Longrightarrow> emits E (m \<bind> g) Q) \<Longrightarrow> (\<not> b \<Longrightarrow> emits E (m' \<bind> g) Q) \<Longrightarrow> emits E ((if b then m else m') \<bind> g) Q"
  "emits E (g x) Q \<Longrightarrow> emits E (ret x \<bind> g) Q"
  "E (EvMetric op) \<Longrightarrow> emits E (k ()) Q \<Longrightarrow> emits E (metric r op \<bind> k) Q"
  "(\<And>t. E (EvNow t)) \<Longrightarrow> (\<And>t. emits E (l t) Q) \<Longrightarrow> emits E (metaNow r \<bind> l) Q"
  "(\<And>t. E (EvNow t)) \<Longrightarrow> (\<And>t. emits E (l t) Q) \<Longrightarrow> emits E (rNow r \<bind> l) Q"
proof -
  assume f: "\<And>cs. emits E (f (upd_status (\<lambda>s. s\<lparr>Conditions := cs\<rparr>) e)) Q"
  show "emits E (setCondition r e c \<bind> f) Q"
    by (rule emits_bind [OF emits_setCondition [where Q = "\<lambda>e'. \<exists>cs. e' = upd_status (\<lambda>s. s\<lparr>Conditions := cs\<rparr>) e"]])
      (use f in auto)
qed (auto intro!: emit_rules emits_bind_True intro: emits_bind [OF emits_ret [where Q = "\<lambda>y. y = x"]])

text \<open>One mail: the first pending one, marked as sent or failed.\<close>

definition mailed :: "exam \<Rightarrow> exam \<Rightarrow> bool" where
  "mailed e e' \<longleftrightarrow> (\<exists>i s'. next_pending (StatusStudents (ExStatus e)) = Some i \<and>
     e' = upd_status (\<lambda>st. st\<lparr>StatusStudents := (StatusStudents st)[i := s']\<rparr>) e \<and>
     settled (StatusStudents (ExStatus e) ! i) s' \<and> Phase s' = Phase (StatusStudents (ExStatus e) ! i) \<and>
     EmailStatus s' \<in> {EmailSent, EmailFailed})"

lemma next_pending_Some:
  "next_pending ss = Some i \<Longrightarrow>
     i < length ss \<and> EmailStatus (ss ! i) = EmailPending \<and> (\<forall>j < i. EmailStatus (ss ! j) \<noteq> EmailPending)"
  by (induction ss arbitrary: i) (auto simp: nth_Cons less_Suc_eq_0_disj split: if_splits nat.splits)

lemma next_pending_None: "next_pending ss = None \<longleftrightarrow> (\<forall>s \<in> set ss. EmailStatus s \<noteq> EmailPending)"
  by (induction ss) auto

lemma upd_student_alt:
  "upd_student i f e =
     upd_status (\<lambda>st. st\<lparr>StatusStudents := (StatusStudents st)[i := f (StatusStudents (ExStatus e) ! i)]\<rparr>) e"
  by (simp add: upd_student_def upd_status_def)

lemma mailed_moves_on: "mailed e e' \<Longrightarrow> moves_on e e'"
  by (auto simp: mailed_def list_all2_conv_all_nth nth_list_update dest!: next_pending_Some
      intro!: moves_on_upd same_exam_upd)

lemma fp_sendNextPendingEmail:
  assumes "\<And>to. to_student e to \<Longrightarrow> M to"
  shows "emits (footprint r e0 b M U) (sendNextPendingEmail r e)
    (go_post (length (Students (Spec e)) < length (StatusStudents (ExStatus e)))
      (\<lambda>(e', sent). if sent then mailed e e'
         else e' = e \<and> (\<forall>s \<in> set (StatusStudents (ExStatus e)). EmailStatus s \<noteq> EmailPending)))"
proof (cases "next_pending (StatusStudents (ExStatus e))")
  case None
  then have "\<forall>s \<in> set (StatusStudents (ExStatus e)). EmailStatus s \<noteq> EmailPending"
    by (simp add: next_pending_None)
  with None show ?thesis
    by (auto simp: sendNextPendingEmail_def intro!: emit_rules)
next
  case (Some i)
  note i = next_pending_Some [OF Some]
  have marked: "mailed e (upd_student i (\<lambda>s. s\<lparr>EmailStatus := EmailFailed\<rparr>) e)"
    "mailed e (upd_student i (\<lambda>s. s\<lparr>EmailStatus := EmailSent, EmailSentAt := t\<rparr>) e)" for t
    unfolding mailed_def upd_student_alt using Some i
    by (auto intro!: exI [of _ i] simp: settled_def)
  have "M [Email (Students (Spec e) ! i)]" if "i < length (Students (Spec e))"
    by (rule assms) (use that Some in \<open>auto simp: to_student_def\<close>)
  with Some i marked show ?thesis
    by (auto simp: sendNextPendingEmail_def Let_def intro!: emit_rules emits_bind_True)
qed

lemma fp_ready_mail:
  assumes "\<And>to. to_student e to \<Longrightarrow> M to"
  shows "emits (footprint r e0 b M U) (ready_mail r e now)
    (go_post (length (Students (Spec e)) < length (StatusStudents (ExStatus e)))
      (\<lambda>(e', stop). moves_on e e' \<and> (case stop of None \<Rightarrow> True | Some d \<Rightarrow> mailed e e' \<and> 0 < nanos d)))"
proof -
  have "0 < nanos Second"
    by (simp add: Second_def)
  then show ?thesis
    unfolding ready_mail_def
    by (auto intro!: emit_rules emits_bind_known emits_go_bind [OF fp_sendNextPendingEmail [OF assms]] moves_on_conditions
        simp: mailed_moves_on Let_def split: if_splits)
qed

lemma fp_runDryRun [emit_rules]:
  assumes "\<And>e'. moves_on e e' \<Longrightarrow> Q e'"
  shows "emits (footprint r e0 b M U) (runDryRun r e) Q"
  unfolding runDryRun_def Let_def
  by (rule emits_bind_True)
    (auto intro!: emits_bind_known emit_rules assms moves_on_upd [OF moves_on_refl] same_exam_upd simp: list_all2_refl)

lemma fp_ready_dry_run [emit_rules]:
  assumes "\<And>e'. moves_on e e' \<Longrightarrow> Q e'"
  shows "emits (footprint r e0 b M U) (ready_dry_run r e now) Q"
  unfolding ready_dry_run_def
  by (auto intro!: emit_rules emits_bind [where R = "moves_on e"] assms moves_on_conditions)

lemma fp_reconcileReady:
  assumes "\<And>to. to_student e to \<Longrightarrow> M to"
  shows "emits (footprint r e b M U) (reconcileReady r e now)
    (go_post (length (Students (Spec e)) < length (StatusStudents (ExStatus e)))
      (\<lambda>(e', d, err). moves_on e e' \<and> err = None))"
  unfolding reconcileReady_def
  by (auto intro!: emit_rules emits_go_bind [OF fp_ready_mail [OF assms]] emits_bind_True [OF fp_enforce_same]
      emits_bind [where R = "moves_on e"] elim: moves_on_trans moves_onD split: prod.splits)

lemma settled_set_phase [simp]: "p \<noteq> StudentFailed \<Longrightarrow> settled s (set_phase p s)"
  by (auto simp: settled_def set_phase_def)

lemma moves_on_set_phases: "p \<noteq> StudentFailed \<Longrightarrow> moves_on e (set_phases p e)"
  unfolding set_phases_def
  by (auto intro!: moves_on_upd [OF moves_on_refl] same_exam_upd simp: list_all2_map2 list_all2_refl
      set_spare_phase_def comp_def)

lemma fp_notify:
  assumes "to_instructor e0 = to_instructor e" "\<And>to. to_instructor e to \<Longrightarrow> M to"
    "\<And>cs. Q (upd_status (\<lambda>s. s\<lparr>Conditions := cs\<rparr>) e)" "Q e"
  shows "emits (footprint r e0 b M U) (notify_instructor r e t msg) Q"
proof -
  have "M [InstructorEmail (SpecEmail (Spec e))]"
    using assms(2) by (simp add: to_instructor_def)
  then show ?thesis
    unfolding notify_instructor_def by (auto intro!: emit_rules emits_bind_True assms)
qed

lemma fp_reconcileUnlock:
  assumes "\<And>to. to_instructor e to \<Longrightarrow> M to"
  shows "emits (footprint r e True M U) (reconcileUnlock r e now)
    (go_post (ComputedLockTime (ExStatus e) = None)
      (\<lambda>(e', d, err). moves_on e e' \<and> err = None))"
proof -
  let ?e1 = "set_phases StudentUnlocked e"
  have m: "moves_on e ?e1" by (rule moves_on_set_phases) simp
  note s = same_examD [OF moves_onD [OF m]]
  have "emits (footprint r e True M U) (notify_instructor r ?e1 t msg) (moves_on e)" for t msg
    by (rule fp_notify) (auto simp: s assms m intro: moves_on_conditions)
  then show ?thesis
    unfolding reconcileUnlock_def Let_def
    by (auto intro!: emit_rules emits_bind_True [OF fp_enforcePolicies] emits_bind [where R = "moves_on e"]
        moves_on_upd same_exam_upd simp: list_all2_refl dest: moves_on_times split: option.splits)
qed

lemma fp_reconcileLocked:
  assumes "\<And>to. to_instructor e to \<Longrightarrow> M to"
  shows "emits (footprint r e b M U) (reconcileLocked r e now)
    (go_post (RetentionDeadline (ExStatus e) = None) (\<lambda>(e', d, err). moves_on e e'))"
proof -
  let ?e1 = "set_phases StudentLocked e"
  have m: "moves_on e ?e1" by (rule moves_on_set_phases) simp
  note s = same_examD [OF moves_onD [OF m]]
  have "emits (footprint r e b M U) (notify_instructor r ?e1 t msg) (moves_on e)" for t msg
    by (rule fp_notify) (auto simp: s assms m intro: moves_on_conditions)
  then show ?thesis
    unfolding reconcileLocked_def Let_def exam_ns_def [symmetric]
    by (auto intro!: emit_rules emits_bind_True [OF fp_enforcePolicies] emits_bind_True [OF fp_deleteIngresses]
        emits_bind [where R = "moves_on e"]
        moves_on_upd same_exam_upd simp: list_all2_refl dest: moves_on_times split: option.splits)
qed

lemma fp_reconcileTeardown:
  "emits (footprint r e b M U) (reconcileTeardown r e)
    (\<lambda>(e', err). same_exam e e' \<and> StatusStudents (ExStatus e') = StatusStudents (ExStatus e) \<and>
       ExPhase (ExStatus e') = (if err = None then PhaseTearingDown else ExPhase (ExStatus e)))"
  unfolding reconcileTeardown_def Let_def exam_ns_def [symmetric]
  by (auto intro!: emits_bind_known emit_rules emits_bind_True same_exam_upd deletes_base)

section \<open>Footprint of provisioning\<close>

definition provisioned :: "exam \<Rightarrow> exam \<Rightarrow> bool" where
  "provisioned e e' \<longleftrightarrow> same_exam e e' \<and> ExPhase (ExStatus e') = ExPhase (ExStatus e) \<and>
     length (StatusStudents (ExStatus e')) \<le> max (length (StatusStudents (ExStatus e))) (length (Students (Spec e))) \<and>
     records_grow e e'"

lemma provisioned_refl [simp]: "provisioned e e"
  by (simp add: provisioned_def)

lemma provisionedD: "provisioned e e' \<Longrightarrow> same_exam e e'"
  by (simp add: provisioned_def)

lemma provisioned_trans: "provisioned e e1 \<Longrightarrow> provisioned e1 e2 \<Longrightarrow> provisioned e e2"
  by (auto simp: provisioned_def intro: same_exam_trans records_grow_trans dest: same_examD(1))

lemma provisioned_conditions:
  "provisioned e e1 \<Longrightarrow> provisioned e (upd_status (\<lambda>s. s\<lparr>Conditions := cs\<rparr>) e1)"
  by (auto simp: provisioned_def same_exam_def)

text \<open>The slug that a lookup may find for a student.\<close>

definition slug_for :: "exam \<Rightarrow> string \<Rightarrow> string \<Rightarrow> bool" where
  "slug_for e sid s \<longleftrightarrow> s \<noteq> '''' \<and> (\<forall>s'. recorded_slug sid (records e) = Some s' \<longrightarrow> s = s')"

lemma recorded_slug_set: "recorded_slug sid ss = Some s \<Longrightarrow> s \<noteq> ''''"
  by (induction ss) (auto split: if_splits)

lemma fp_slug_for:
  "emits (footprint r e' b M U) (findOrGenerateSlug r e ns sid)
    (\<lambda>x. case x of Inl _ \<Rightarrow> True | Inr s \<Rightarrow> slug_for e sid s)"
  by (rule fp_findOrGenerateSlug) (auto simp: slug_for_def recorded_slug_set)

lemma provisioned_student:
  assumes "setStudentStatus r e i s p = Returns e'" "identified e \<Longrightarrow> i \<le> length (records e)"
    "slug_for e (StudentID (Students (Spec e) ! i)) s"
  shows "provisioned e e'" "i < length (records e')"
proof -
  have "records_grow e e'"
    using records_grow_student [OF assms(1,2)] assms(3) by (auto simp: slug_for_def)
  then show "provisioned e e'" "i < length (records e')"
    using assms(1)
    by (auto simp: setStudentStatus_def padded_def provisioned_def intro!: same_exam_upd split: if_splits)
qed

lemma provisioned_spare: "provisioned e (setSpareStatus r e i s p)"
  by (auto simp: setSpareStatus_def provisioned_def intro!: same_exam_upd records_grow_same)

lemma records_spare [simp]: "records (setSpareStatus r e i s p) = records e"
  by (simp add: setSpareStatus_def)

lemma all_recorded_spare [simp]: "all_recorded (setSpareStatus r e i s p) = all_recorded e"
  by (simp add: setSpareStatus_def)

lemma student_in_range: "i < length (Students (Spec e)) \<Longrightarrow> setStudentStatus r e i s p \<noteq> Panics"
  by (simp add: setStudentStatus_def)

lemma fp_observe [emit_rules]: "Q () \<Longrightarrow> emits (footprint r0 e0 b M U) (observe_provision r e w who) Q"
  by (auto simp: observe_provision_def intro!: emits_bind_known emit_rules)

lemma fp_same:
  assumes "same_exam e0 e" "emits (footprint r e b M U) m Q"
  shows "emits (footprint r e0 b M U) m Q"
  using assms by (simp add: same_examD(4))

text \<open>
  The loop over the students, from position \<open>k\<close> on. It works through the specification in
  order, so a run without error has recorded every student.
\<close>

definition students_done :: "exam \<Rightarrow> exam \<times> bool \<times> go_error option \<Rightarrow> bool" where
  "students_done e0 res \<longleftrightarrow> provisioned e0 (fst res) \<and>
     (identified e0 \<longrightarrow> snd (snd res) = None \<longrightarrow> all_recorded (fst res))"

lemma identified_length: "identified e \<Longrightarrow> length (records e) \<le> length (Students (Spec e))"
proof (rule ccontr)
  assume *: "identified e" "\<not> length (records e) \<le> length (Students (Spec e))"
  then have "length (Students (Spec e)) < length (records e)" by simp
  from identified_nth(2) [OF *(1) this] show False by simp
qed

lemma provisioned_identified: "provisioned e e' \<Longrightarrow> identified e \<Longrightarrow> identified e'"
  by (simp add: provisioned_def records_grow_def)

lemma provisioned_length:
  assumes "provisioned e e'" "identified e" "length (Students (Spec e)) \<le> length (records e')"
  shows "all_recorded e'"
proof -
  have "Spec e' = Spec e" using assms(1) by (simp add: provisioned_def same_examD(1))
  with identified_length [OF provisioned_identified [OF assms(1,2)]] assms(3) show ?thesis
    by (simp add: all_recorded_def)
qed

lemma fp_provision_students:
  assumes "provisioned e0 e" "xs = enumerate k (drop k (Students (Spec e0)))" "k \<le> length (Students (Spec e0))"
    "identified e \<Longrightarrow> k \<le> length (records e)"
  shows "emits (footprint r e0 b M U) (provision_students r (exam_ns e0) xs e ok) (go_post False (students_done e0))"
  using assms
proof (induction xs arbitrary: e ok k)
  case Nil
  then have "drop k (Students (Spec e0)) = []" by (metis enumerate_simps(1) length_0_conv length_enumerate)
  with Nil have "students_done e0 (e, ok, None)"
    using provisioned_length [OF Nil.prems(1)] provisioned_identified [OF Nil.prems(1)] by (auto simp: students_done_def)
  then show ?case by (auto intro: emit_rules)
next
  case (Cons x xs)
  have k: "k < length (Students (Spec e0))"
    using arg_cong [OF Cons.prems(2), of length] by simp
  have x: "x = (k, Students (Spec e0) ! k)" and xs: "xs = enumerate (Suc k) (drop (Suc k) (Students (Spec e0)))"
    using Cons.prems(2) by (simp_all add: Cons_nth_drop_Suc [OF k, symmetric])
  have same: "same_exam e0 e" using Cons.prems(1) by (rule provisionedD)
  note spec = same_examD(1) [OF same]
  have i: "k < length (Students (Spec e))" using k by (simp add: spec)
  have stop: "students_done e0 (e, ok, Some err)" for ok err
    using Cons.prems(1) by (simp add: students_done_def)
  have next_pass: "emits (footprint r e0 b M U) (provision_students r (exam_ns e0) xs e1 ok1)
      (go_post False (students_done e0))"
    if "setStudentStatus r e k s p = Returns e1" "slug_for e (StudentID (Students (Spec e0) ! k)) s" for s p e1 ok1
  proof -
    have 1: "provisioned e e1" "k < length (records e1)"
      using provisioned_student [OF that(1) Cons.prems(4)] that(2) by (simp_all add: spec)
    show ?thesis
      by (rule Cons.IH [OF provisioned_trans [OF Cons.prems(1) 1(1)] xs]) (use k 1(2) in simp_all)
  qed
  have prov: "emits (footprint r e0 b M U) (provisionInstance r e (exam_ns e0) sid s) (\<lambda>_. True)" for sid s
    by (rule fp_same [OF same]) (auto intro!: emit_rules simp: same_examD(5) [OF same])
  show ?case
    unfolding x provision_students.simps
    by (rule emits_bind [OF fp_slug_for])
      (auto intro!: emit_rules emits_bind_True [OF prov] emits_bind_True [OF fp_observe] next_pass stop
        simp: student_in_range [OF i] split: go.splits)
qed

lemma fp_provision_spares:
  assumes "provisioned e0 e"
  shows "emits (footprint r e0 b M U) (provision_spares r (exam_ns e0) is e ok)
    (\<lambda>res. provisioned e0 (fst res) \<and> (all_recorded e \<longrightarrow> all_recorded (fst res)))"
  using assms
proof (induction "is" arbitrary: e ok)
  case Nil
  then show ?case by (auto intro: emit_rules)
next
  case (Cons i "is")
  have same: "same_exam e0 e" using Cons.prems by (rule provisionedD)
  have prov: "emits (footprint r e0 b M U) (provisionInstance r e (exam_ns e0) sid s) (\<lambda>_. True)" for sid s
    by (rule fp_same [OF same]) (auto intro!: emit_rules simp: same_examD(5) [OF same])
  note recorded = Cons.IH [OF provisioned_trans [OF Cons.prems provisioned_spare], unfolded all_recorded_spare]
  show ?case
    unfolding provision_spares.simps Let_def
    by (auto intro!: emit_rules emits_bind_True [OF fp_findOrGenerateSpareSlug] emits_bind_True [OF prov]
        emits_bind_True [OF fp_observe] Cons.IH Cons.prems recorded)
qed

text \<open>What a whole provisioning pass leaves: the same phase, or Ready.\<close>

definition provisioned_or_ready :: "exam \<Rightarrow> exam \<Rightarrow> bool" where
  "provisioned_or_ready e e' \<longleftrightarrow> same_exam e e' \<and> ExPhase (ExStatus e') \<in> {ExPhase (ExStatus e), PhaseReady} \<and>
     length (StatusStudents (ExStatus e')) \<le> max (length (StatusStudents (ExStatus e))) (length (Students (Spec e))) \<and>
     records_grow e e' \<and>
     (identified e \<longrightarrow> ExPhase (ExStatus e) \<noteq> PhaseReady \<longrightarrow> ExPhase (ExStatus e') = PhaseReady \<longrightarrow> all_recorded e')"

lemma provisioned_ready:
  "provisioned e e1 \<Longrightarrow> provisioned_or_ready e e1"
  "provisioned e e1 \<Longrightarrow> identified e \<longrightarrow> all_recorded e1 \<Longrightarrow>
    provisioned_or_ready e (upd_status (\<lambda>st. st\<lparr>ExPhase := PhaseReady, PhaseEntryTime := t\<rparr>) e1)"
  by (auto simp: provisioned_def provisioned_or_ready_def same_exam_def)

lemma fp_enter_ready:
  assumes "provisioned e0 e" "identified e0 \<longrightarrow> all_recorded e" "\<And>to. to_instructor e0 to \<Longrightarrow> M to"
  shows "emits (footprint r e0 b M U) (enter_ready r e) (provisioned_or_ready e0)"
proof -
  note p = provisioned_conditions [OF assms(1)]
  have s: "Spec e = Spec e0" using same_examD(1) [OF provisionedD [OF assms(1)]] .
  have "M [InstructorEmail (SpecEmail (Spec e))]"
    using assms(3) by (simp add: to_instructor_def s)
  moreover have "identified e0 \<longrightarrow> all_recorded (upd_status (\<lambda>s. s\<lparr>Conditions := cs\<rparr>) e)" for cs
    using assms(2) by simp
  ultimately show ?thesis
    unfolding enter_ready_def Let_def
    by (auto intro!: emits_bind_known emit_rules emits_bind_True [OF fp_sendEmail]
        provisioned_ready(2) [OF p, unfolded upd_status_comp])
qed

lemma fp_finish_provisioning:
  assumes "provisioned e0 e" "identified e0 \<longrightarrow> all_recorded e" "\<And>to. to_instructor e0 to \<Longrightarrow> M to"
  shows "emits (footprint r e0 b M U) (finish_provisioning r e (exam_ns e0) ok)
    (\<lambda>res. provisioned_or_ready e0 (fst res) \<and> snd (snd res) = None)"
proof -
  have rest: "emits (footprint r e0 b M U)
      (cleanupOrphanedResources r e1 (exam_ns e0) \<bind> (\<lambda>_. allInstancesHealthy r e1 (exam_ns e0) \<bind>
        (\<lambda>healthy. if healthy then enter_ready r e1 \<bind> (\<lambda>e2. ret (e2, 0, None)) else ret (e1, 10 * Second, None))))
      (\<lambda>res. provisioned_or_ready e0 (fst res) \<and> snd (snd res) = None)"
    if "provisioned e0 e1" "identified e0 \<longrightarrow> all_recorded e1" for e1
    by (rule emits_bind_True [OF fp_same [OF provisionedD [OF that(1)] fp_cleanup]])
      (auto intro!: emits_bind_True [OF fp_healthy] emit_rules provisioned_ready(1) [OF that(1)]
        emits_bind [OF fp_enter_ready [OF that assms(3)]]
        simp: same_examD(5) [OF provisionedD [OF that(1)]])
  show ?thesis
    unfolding finish_provisioning_def
    by (intro emits_bind_known rest provisioned_conditions assms(1,2)) (simp add: assms(2))
qed

lemma fp_reconcileProvisioning:
  assumes "\<And>to. to_instructor e to \<Longrightarrow> M to"
  shows "emits (footprint r e b M U) (reconcileProvisioning r e)
    (go_post False (\<lambda>res. provisioned_or_ready e (fst res)))"
proof -
  have spares: "emits (footprint r e b M U)
      (provision_spares r (exam_ns e) xs e1 ok \<bind> (\<lambda>(e2, ok2, err2). case err2 of
          Some x \<Rightarrow> ret (Returns (e2, 0, Some x))
        | None \<Rightarrow> finish_provisioning r e2 (exam_ns e) ok2 \<bind> (\<lambda>res. ret (Returns res))))
      (go_post False (\<lambda>res. provisioned_or_ready e (fst res)))"
    if "students_done e (e1, ok1, None)" for e1 ok1 ok xs
    by (rule emits_bind [OF fp_provision_spares])
      (use that in \<open>auto simp: students_done_def intro!: emit_rules provisioned_ready(1)
         emits_bind [OF fp_finish_provisioning [OF _ _ assms]]\<close>)
  have "emits (footprint r e b M U) (provision_instances r e (exam_ns e))
      (go_post False (\<lambda>res. provisioned_or_ready e (fst res)))"
    unfolding provision_instances_def
    by (rule emits_go_bind [OF fp_provision_students [where k = 0]])
      (auto intro!: emit_rules provisioned_ready(1) spares simp: students_done_def [of e "(_, _, Some _)"])
  then show ?thesis
    unfolding reconcileProvisioning_def Let_def exam_ns_def [symmetric] examResourceLabels_def
    by (auto intro!: emit_rules emits_bind_True creates_base provisioned_ready(1))
qed

section \<open>Footprint of a pass\<close>

text \<open>The status a pass ends with, relative to the exam handed to the phase handler.\<close>

definition pass_to :: "exam \<Rightarrow> exam \<Rightarrow> bool" where
  "pass_to e e' \<longleftrightarrow> same_exam e e' \<and>
     ExPhase (ExStatus e') \<in> (if ExPhase (ExStatus e) = PhaseProvisioning then {PhaseProvisioning, PhaseReady}
       else {ExPhase (ExStatus e)}) \<and>
     length (StatusStudents (ExStatus e')) \<le> max (length (StatusStudents (ExStatus e))) (length (Students (Spec e))) \<and>
     (ExPhase (ExStatus e) \<noteq> PhaseProvisioning \<longrightarrow>
        list_all2 settled (StatusStudents (ExStatus e)) (StatusStudents (ExStatus e'))) \<and>
     records_grow e e' \<and>
     (identified e \<longrightarrow> ExPhase (ExStatus e) = PhaseProvisioning \<longrightarrow> ExPhase (ExStatus e') = PhaseReady \<longrightarrow> all_recorded e')"

definition mail_targets :: "exam \<Rightarrow> string list \<Rightarrow> bool" where
  "mail_targets e to \<longleftrightarrow>
     (case ExPhase (ExStatus e) of PhaseReady \<Rightarrow> to_student e to
      | PhaseProvisioning \<Rightarrow> to_instructor e to
      | PhaseUnlocked \<Rightarrow> to_instructor e to
      | PhaseLocked \<Rightarrow> to_instructor e to
      | _ \<Rightarrow> False)"

definition may_panic :: "exam \<Rightarrow> bool" where
  "may_panic e \<longleftrightarrow>
     ExPhase (ExStatus e) = PhaseReady \<and> length (Students (Spec e)) < length (StatusStudents (ExStatus e)) \<or>
     ComputedLockTime (ExStatus e) = None \<or> RetentionDeadline (ExStatus e) = None"

lemma moves_on_pass_to:
  "moves_on e e' \<Longrightarrow> ExPhase (ExStatus e) \<noteq> PhaseProvisioning \<Longrightarrow> pass_to e e'"
  by (auto simp: moves_on_def pass_to_def dest: list_all2_lengthD intro!: records_grow_settled same_examD(1))

lemma pass_to_refl: "pass_to e e"
  by (simp add: pass_to_def list_all2_refl)

lemma provisioned_pass_to:
  "provisioned_or_ready e e' \<Longrightarrow> ExPhase (ExStatus e) = PhaseProvisioning \<Longrightarrow> pass_to e e'"
  by (auto simp: provisioned_or_ready_def pass_to_def)

lemma go_conseq:
  "emits E m (go_post p R) \<Longrightarrow> (p \<Longrightarrow> p') \<Longrightarrow> (\<And>x. R x \<Longrightarrow> R' x) \<Longrightarrow> emits E m (go_post p' R')"
  by (erule emits_conseq) (auto elim: go_post.elims)

lemma fp_dispatch:
  assumes "\<And>to. mail_targets e to \<Longrightarrow> M to" "ExPhase (ExStatus e) = PhaseUnlocked \<Longrightarrow> b"
  shows "emits (footprint r e b M U) (dispatch r e now) (go_post (may_panic e) (\<lambda>res. pass_to e (fst res)))"
proof (cases "ExPhase (ExStatus e)")
  case PhaseProvisioning
  then show ?thesis
    using assms by (auto simp: dispatch_def mail_targets_def
        intro!: go_conseq [OF fp_reconcileProvisioning] provisioned_pass_to)
next
  case PhaseReady
  then show ?thesis
    using assms by (auto simp: dispatch_def mail_targets_def may_panic_def
        intro!: go_conseq [OF fp_reconcileReady] moves_on_pass_to)
next
  case PhaseUnlocked
  then show ?thesis
    using assms by (auto simp: dispatch_def mail_targets_def may_panic_def
        intro!: go_conseq [OF fp_reconcileUnlock [of e M r U now]] moves_on_pass_to)
next
  case PhaseLocked
  then show ?thesis
    using assms by (auto simp: dispatch_def mail_targets_def may_panic_def
        intro!: go_conseq [OF fp_reconcileLocked] moves_on_pass_to)
next
  case PhaseTearingDown
  then show ?thesis
    by (auto simp: dispatch_def pass_to_def list_all2_refl
        intro!: emits_bind [OF fp_reconcileTeardown] emit_rules records_grow_same same_examD(1) split: if_splits)
qed (auto simp: dispatch_def pass_to_refl intro!: emit_rules)

text \<open>The exam handed to the handlers: its times are computed and its phase is the desired one.\<close>

definition desired :: "exam \<Rightarrow> time \<Rightarrow> examPhase" where
  "desired e now = determineDesiredPhase (set_times e) now"

definition begun :: "exam \<Rightarrow> time \<Rightarrow> exam \<Rightarrow> bool" where
  "begun e now e2 \<longleftrightarrow> same_exam (set_times e) e2 \<and> ExPhase (ExStatus e2) = desired e now \<and>
     StatusStudents (ExStatus e2) = StatusStudents (ExStatus e)"

lemma set_times_simps [simp]:
  "Spec (set_times e) = Spec e" "ExPhase (ExStatus (set_times e)) = ExPhase (ExStatus e)"
  "StatusStudents (ExStatus (set_times e)) = StatusStudents (ExStatus e)"
  "ComputedLockTime (ExStatus (set_times e)) = Some (lockTime (computeSchedule e))"
  "RetentionDeadline (ExStatus (set_times e)) = Some (retentionDeadline (computeSchedule e))"
  "footprint r (set_times e) = footprint r e" 
  "to_instructor (set_times e) = to_instructor e" "computeSchedule (set_times e) = computeSchedule e"
  "Name (set_times e) = Name e" "Namespace (set_times e) = Namespace e"
  by (simp_all add: set_times_def Let_def)

lemma begunD:
  assumes "begun e now e2"
  shows "Spec e2 = Spec e" "footprint r e2 = footprint r e" "to_student e2 = to_student e"
    "to_instructor e2 = to_instructor e" "ExPhase (ExStatus e2) = desired e now"
    "StatusStudents (ExStatus e2) = StatusStudents (ExStatus e)"
    "ComputedLockTime (ExStatus e2) = Some (lockTime (computeSchedule e))"
    "RetentionDeadline (ExStatus e2) = Some (retentionDeadline (computeSchedule e))"
proof -
  note s = same_examD [of "set_times e" e2] and b = assms [unfolded begun_def]
  show "Spec e2 = Spec e" "footprint r e2 = footprint r e" "to_instructor e2 = to_instructor e"
    "ExPhase (ExStatus e2) = desired e now" "StatusStudents (ExStatus e2) = StatusStudents (ExStatus e)"
    "ComputedLockTime (ExStatus e2) = Some (lockTime (computeSchedule e))"
    "RetentionDeadline (ExStatus e2) = Some (retentionDeadline (computeSchedule e))"
    using b s by simp_all
  then show "to_student e2 = to_student e" by (simp add: to_student_def fun_eq_iff)
qed

lemma fp_transition:
  "emits (footprint r e0 b M U) (transition r (set_times e) now) (begun e now)"
  unfolding transition_def Let_def
  by (auto intro!: emits_bind_known emit_rules same_exam_upd simp: begun_def desired_def)

definition pass_mail :: "exam \<Rightarrow> examPhase \<Rightarrow> string list \<Rightarrow> bool" where
  "pass_mail e p to \<longleftrightarrow>
     (case p of PhaseReady \<Rightarrow> to_student e to
      | PhaseProvisioning \<Rightarrow> to_instructor e to
      | PhaseUnlocked \<Rightarrow> to_instructor e to
      | PhaseLocked \<Rightarrow> to_instructor e to
      | _ \<Rightarrow> False)"

lemma mail_targets_begun:
  assumes "begun e now e2"
  shows "mail_targets e2 = pass_mail e (desired e now)"
  by (cases "desired e now") (simp_all add: fun_eq_iff mail_targets_def pass_mail_def begunD [OF assms])

text \<open>
  The events of a pass whose clock read \<open>now\<close>, and how it may end.
\<close>

definition written_by_pass :: "exam \<Rightarrow> time \<Rightarrow> exam \<Rightarrow> bool" where
  "written_by_pass e now x \<longleftrightarrow> (\<exists>e2. begun e now e2 \<and> pass_to e2 x)"

definition pass_event :: "reconciler \<Rightarrow> exam \<Rightarrow> time \<Rightarrow> event \<Rightarrow> bool" where
  "pass_event r e now =
     footprint r e (desired e now = PhaseUnlocked) (pass_mail e (desired e now)) (written_by_pass e now)"

lemma fp_report [emit_rules]:
  "(\<And>m. Q (upd_status (\<lambda>st. st\<lparr>ExMetrics := m\<rparr>) e)) \<Longrightarrow> Q e \<Longrightarrow>
   emits (footprint r0 e0 b M U) (report r e now) Q"
  unfolding report_def update_gauges_def updateMetricsSummary_def Let_def
  by (auto intro!: emits_bind_known emit_rules emits_bind_True)

lemma fp_finish_pass:
  assumes "\<And>m. U (upd_status (\<lambda>st. st\<lparr>ExMetrics := m\<rparr>) (fst res))" "U (fst res)"
  shows "emits (footprint r0 e0 b M U) (finish_pass r start now res) (\<lambda>_. True)"
proof -
  obtain e d err where res: "res = (e, d, err)" by (cases res)
  show ?thesis
    unfolding finish_pass_def record_duration_def Let_def res prod.case
    by (rule emits_bind [OF fp_report [where Q = U]])
      (use assms in \<open>auto simp: res intro!: emit_rules emits_bind_True\<close>)
qed

lemma pass_to_metrics: "pass_to e x \<Longrightarrow> pass_to e (upd_status (\<lambda>st. st\<lparr>ExMetrics := m\<rparr>) x)"
  by (auto simp: pass_to_def intro: same_exam_upd)

lemma written_by_passI:
  assumes "begun e now e2" "pass_to e2 x"
  shows "written_by_pass e now x" "written_by_pass e now (upd_status (\<lambda>st. st\<lparr>ExMetrics := m\<rparr>) x)"
  using assms pass_to_metrics by (auto simp: written_by_pass_def)

definition pass_panics :: "exam \<Rightarrow> time \<Rightarrow> bool" where
  "pass_panics e now \<longleftrightarrow> desired e now = PhaseReady \<and>
     length (Students (Spec e)) < length (StatusStudents (ExStatus e))"

lemma reconcile_exam_after_now:
  "emits (pass_event r e now)
    (transition r (set_times e) now \<bind> (\<lambda>e2. dispatch r e2 now \<bind> (\<lambda>handled.
       case handled of Panics \<Rightarrow> ret Panics | Returns res \<Rightarrow> finish_pass r start now res \<bind> (\<lambda>out. ret (Returns out)))))
    (\<lambda>out. out = Panics \<longrightarrow> pass_panics e now)"
proof -
  have "emits (footprint r e (desired e now = PhaseUnlocked) (pass_mail e (desired e now)) (written_by_pass e now))
      (dispatch r e2 now) (go_post (pass_panics e now) (\<lambda>res. pass_to e2 (fst res)))"
    if e2: "begun e now e2" for e2
  proof (rule go_conseq)
    show "emits (footprint r e (desired e now = PhaseUnlocked) (pass_mail e (desired e now)) (written_by_pass e now))
        (dispatch r e2 now) (go_post (may_panic e2) (\<lambda>res. pass_to e2 (fst res)))"
      unfolding begunD(2) [OF e2, symmetric]
      by (rule fp_dispatch) (simp_all add: mail_targets_begun [OF e2] begunD [OF e2])
    show "may_panic e2 \<Longrightarrow> pass_panics e now"
      by (simp add: may_panic_def pass_panics_def begunD [OF e2])
  qed
  note d = this
  show ?thesis
    unfolding pass_event_def
  proof (rule emits_bind [OF fp_transition])
    fix e2
    assume e2: "begun e now e2"
    show "emits (footprint r e (desired e now = PhaseUnlocked) (pass_mail e (desired e now)) (written_by_pass e now))
        (dispatch r e2 now \<bind> (\<lambda>handled.
          case handled of Panics \<Rightarrow> ret Panics | Returns res \<Rightarrow> finish_pass r start now res \<bind> (\<lambda>out. ret (Returns out))))
        (\<lambda>out. out = Panics \<longrightarrow> pass_panics e now)"
      by (rule emits_go_bind [OF d [OF e2]])
        (auto intro!: emit_rules emits_bind_True [OF fp_finish_pass] written_by_passI [OF e2])
  qed
qed

lemma reconcile_exam_runs:
  "runs h (reconcile_exam r start e) (\<lambda>es out. \<exists>now. EvNow now \<in> set es \<and> list_all (pass_event r e now) es \<and>
     (out = Panics \<longrightarrow> pass_panics e now))"
proof -
  have 1: "runs h (rNow r) (\<lambda>es now. es = [EvNow now])"
    by (auto simp: rNow_def intro!: runs_ask split: option.splits)
  show ?thesis
    unfolding reconcile_exam_def Let_def
  proof (rule runs_bind [OF 1])
    fix es now
    assume es: "es = [EvNow now]"
    have "pass_event r e now (EvNow now)" by (simp add: pass_event_def)
    moreover have "runs (es @ h) (transition r (set_times e) now \<bind> (\<lambda>e2. dispatch r e2 now \<bind> (\<lambda>handled.
         case handled of Panics \<Rightarrow> ret Panics | Returns res \<Rightarrow> finish_pass r start now res \<bind> (\<lambda>out. ret (Returns out)))))
       (\<lambda>es' out. list_all (pass_event r e now) es' \<and> (out = Panics \<longrightarrow> pass_panics e now))"
      using reconcile_exam_after_now [of r e now start] by (simp add: emits_def)
    ultimately show "runs (es @ h) (transition r (set_times e) now \<bind> (\<lambda>e2. dispatch r e2 now \<bind> (\<lambda>handled.
         case handled of Panics \<Rightarrow> ret Panics | Returns res \<Rightarrow> finish_pass r start now res \<bind> (\<lambda>out. ret (Returns out)))))
       (\<lambda>es' out. \<exists>now. EvNow now \<in> set (es' @ es) \<and> list_all (pass_event r e now) (es' @ es) \<and>
         (out = Panics \<longrightarrow> pass_panics e now))"
      using es by (auto elim!: runs_conseq intro!: exI [of _ now])
  qed
qed

end
