(* ===== verification/Lifecycle.thy ===== *)
theory Lifecycle
  imports Footprint Webhook
begin

text \<open>
  Whole passes and sequences of passes. A pass has one of four shapes, by what became of the
  exam it read. The lifecycle of one exam is a step relation over passes of the reconciler
  on the exam as the API server stores it, with an arbitrary environment: any failures, any
  contents of the cluster, any clock that does not run backwards.
\<close>

section \<open>The shape of a pass\<close>

fun silent :: "event \<Rightarrow> bool" where
  "silent (EvCreate _ _) = False"
| "silent (EvApply _ _) = False"
| "silent (EvDelete _ _) = False"
| "silent (EvSmtp _ _ _ _ _ _) = False"
| "silent (EvSend _ _ _ _) = False"
| "silent (EvUpdate _ _) = False"
| "silent (EvStatusUpdate _ _) = False"
| "silent _ = True"

definition finalizer_event :: "reconciler \<Rightarrow> exam \<Rightarrow> event \<Rightarrow> bool" where
  "finalizer_event r e ev \<longleftrightarrow> silent ev \<or> (\<exists>x. ev = EvUpdate (ctl_AddFinalizer r e finalizerName) x)"

definition deletion_event :: "reconciler \<Rightarrow> exam \<Rightarrow> event \<Rightarrow> bool" where
  "deletion_event r e ev \<longleftrightarrow> silent ev \<or> (\<exists>x. ev = EvDelete (NamespaceKind, '''', exam_ns e) x) \<or>
     (\<exists>e1 x. same_exam e e1 \<and> ev = EvUpdate (ctl_RemoveFinalizer r e1 finalizerName) x)"

text \<open>The exam a pass read, and the exam it works on once the finalizer is there.\<close>

definition read_exam :: "reconciler \<Rightarrow> string \<times> string \<Rightarrow> log \<Rightarrow> exam \<Rightarrow> bool" where
  "read_exam r req es e \<longleftrightarrow> EvGetExam req (Inr e) \<in> set es \<and> (\<exists>h. cl_GetExam r h req = Inr e)"

definition kept_exam :: "reconciler \<Rightarrow> exam \<Rightarrow> log \<Rightarrow> exam \<Rightarrow> bool" where
  "kept_exam r e es e1 \<longleftrightarrow> e1 = e \<or>
     EvUpdate (ctl_AddFinalizer r e finalizerName) (Inr e1) \<in> set es \<and>
     (\<exists>h. cl_Update r h (ctl_AddFinalizer r e finalizerName) = Inr e1)"

inductive pass_shape :: "reconciler \<Rightarrow> string \<times> string \<Rightarrow> log \<Rightarrow> reconcile_result go \<Rightarrow> bool"
  for r :: reconciler and req :: "string \<times> string" where
  gone: "list_all silent es \<Longrightarrow> out \<noteq> Panics \<Longrightarrow> pass_shape r req es out"
| deletion: "read_exam r req es e \<Longrightarrow> deleting e \<Longrightarrow> list_all (deletion_event r e) es \<Longrightarrow>
    out \<noteq> Panics \<Longrightarrow> pass_shape r req es out"
| refused: "read_exam r req es e \<Longrightarrow> \<not> deleting e \<Longrightarrow> list_all (finalizer_event r e) es \<Longrightarrow>
    out \<noteq> Panics \<Longrightarrow> pass_shape r req es out"
| worked: "read_exam r req es e \<Longrightarrow> \<not> deleting e \<Longrightarrow>
    kept_exam r e es e1 \<Longrightarrow>
    EvNow now \<in> set es \<Longrightarrow> list_all (\<lambda>ev. pass_event r e1 now ev \<or> finalizer_event r e ev) es \<Longrightarrow>
    (out = Panics \<Longrightarrow> pass_panics e1 now) \<Longrightarrow>
    run_state (reconcile_exam r start e1) h1 = (out, es1 @ h1) \<Longrightarrow> es = es1 @ es0 \<Longrightarrow>
    list_all (finalizer_event r e) es0 \<Longrightarrow> pass_shape r req es out"

lemma emits_silent_teardown:
  "emits (deletion_event r e) (reconcileTeardown r e) (\<lambda>(e', err). same_exam e e')"
  unfolding reconcileTeardown_def Let_def exam_ns_def [symmetric]
  by (auto intro!: emits_bind_known emit_rules emits_bind_True same_exam_upd simp: deletion_event_def)

lemma emits_deleted: "emits (deletion_event r e) (reconcile_deleted r e) (\<lambda>_. True)"
  unfolding reconcile_deleted_def
  by (auto intro!: emit_rules emits_bind [OF emits_silent_teardown] emits_bind_True simp: deletion_event_def)

lemma runs_rNow: "runs h (rNow r) (\<lambda>es now. es = [EvNow now])"
  by (auto simp: rNow_def intro!: runs_ask split: option.splits)

lemma runs_ensure_finalizer:
  "runs h (ensure_finalizer r e) (\<lambda>es x. list_all (finalizer_event r e) es \<and>
     (\<forall>e1. x = Inr e1 \<longrightarrow> kept_exam r e es e1))"
  unfolding ensure_finalizer_def rUpdate_def kept_exam_def
  by (auto intro!: runs_ask runs_ret simp: finalizer_event_def)

lemma read_exam_append: "read_exam r req es e \<Longrightarrow> read_exam r req (es' @ es) e"
  by (simp add: read_exam_def)

lemma reconcile_got:
  assumes start: "list_all silent es0" "read_exam r req es0 e"
  shows "runs h (if deleting e then reconcile_deleted r e \<bind> (\<lambda>out. ret (Returns out))
    else ensure_finalizer r e \<bind> (\<lambda>kept. case kept of
      Inl a \<Rightarrow> ret (Returns (0, Some (ApiErr a))) | Inr e1 \<Rightarrow> reconcile_exam r start e1))
    (\<lambda>es out. pass_shape r req (es @ es0) out)"
proof (cases "deleting e")
  case True
  note more = read_exam_append [OF start(2)]
  have "list_all (deletion_event r e) es0"
    using start(1) by (auto simp: list_all_iff deletion_event_def)
  moreover have "runs h (reconcile_deleted r e) (\<lambda>es _. list_all (deletion_event r e) es)"
    using emits_deleted [of r e] by (auto simp: emits_def elim: runs_conseq)
  ultimately show ?thesis
    using True more by (auto intro!: runs_bind runs_ret pass_shape.deletion [where e = e])
next
  case False
  note more = read_exam_append [OF start(2)]
  have es0: "list_all (finalizer_event r e) es0"
    using start(1) by (auto simp: list_all_iff finalizer_event_def)
  have "runs h (ensure_finalizer r e \<bind> (\<lambda>kept. case kept of
      Inl a \<Rightarrow> ret (Returns (0, Some (ApiErr a))) | Inr e1 \<Rightarrow> reconcile_exam r start e1))
    (\<lambda>es out. pass_shape r req (es @ es0) out)"
  proof (rule runs_bind [OF runs_ensure_finalizer])
    fix es and kept :: "api_error + exam"
    assume kept: "list_all (finalizer_event r e) es \<and>
      (\<forall>e1. kept = Inr e1 \<longrightarrow> kept_exam r e es e1)"
    show "runs (es @ h) (case kept of Inl a \<Rightarrow> ret (Returns (0, Some (ApiErr a))) | Inr e1 \<Rightarrow> reconcile_exam r start e1)
      (\<lambda>es' out. pass_shape r req ((es' @ es) @ es0) out)"
    proof (cases kept)
      case (Inl a)
      with kept es0 more False show ?thesis by (auto intro!: runs_ret pass_shape.refused [where e = e])
    next
      case (Inr e1)
      have "list_all (\<lambda>ev. pass_event r e1 now ev \<or> finalizer_event r e ev) es"
        "list_all (\<lambda>ev. pass_event r e1 now ev \<or> finalizer_event r e ev) es0" for now
        using kept es0 by (auto simp: list_all_iff)
      note before = this
      have "runs (es @ h) (reconcile_exam r start e1) (\<lambda>es' out. pass_shape r req ((es' @ es) @ es0) out)"
      proof (rule runs_conseq [OF runs_self [OF reconcile_exam_runs]])
        fix es' and out :: "reconcile_result go"
        assume *: "(\<exists>now. EvNow now \<in> set es' \<and> list_all (pass_event r e1 now) es' \<and> (out = Panics \<longrightarrow> pass_panics e1 now)) \<and>
          run_state (reconcile_exam r start e1) (es @ h) = (out, es' @ es @ h)"
        then obtain now where "EvNow now \<in> set es'" "list_all (pass_event r e1 now) es'"
          "out = Panics \<longrightarrow> pass_panics e1 now" by blast
        moreover have "list_all (finalizer_event r e) (es @ es0)" using kept es0 by simp
        ultimately show "pass_shape r req ((es' @ es) @ es0) out"
          using before [of now] kept more [of "es' @ es"] False Inr *
          by (intro pass_shape.worked [where e = e and ?e1.0 = e1 and now = now and start = start and ?h1.0 = "es @ h"
                and ?es1.0 = es' and ?es0.0 = "es @ es0"])
            (auto simp: list_all_iff kept_exam_def)
      qed
      with Inr show ?thesis by simp
    qed
  qed
  with False show ?thesis by simp
qed

lemma Reconcile_shape: "runs h (Reconcile r req) (pass_shape r req)"
  unfolding Reconcile_def
proof (rule runs_bind [OF runs_rNow])
  fix es start
  assume es: "es = [EvNow start]"
  have got: "runs h (rGetExam r req) (\<lambda>es x. es = [EvGetExam req x] \<and> (\<exists>h. cl_GetExam r h req = x))" for h
    by (auto simp: rGetExam_def intro!: runs_ask)
  show "runs (es @ h) (rGetExam r req \<bind> (\<lambda>got. case got of
      Inl a \<Rightarrow> ret (Returns (0, if IsNotFound a then None else Some (ApiErr a)))
    | Inr e \<Rightarrow> if deleting e then reconcile_deleted r e \<bind> (\<lambda>out. ret (Returns out))
        else ensure_finalizer r e \<bind> (\<lambda>kept. case kept of
          Inl a \<Rightarrow> ret (Returns (0, Some (ApiErr a))) | Inr e1 \<Rightarrow> reconcile_exam r start e1)))
    (\<lambda>es' out. pass_shape r req (es' @ es) out)"
  proof (rule runs_bind [OF got])
    fix es' got
    assume es': "es' = [EvGetExam req got] \<and> (\<exists>h. cl_GetExam r h req = got)"
    show "runs (es' @ es @ h) (case got of
        Inl a \<Rightarrow> ret (Returns (0, if IsNotFound a then None else Some (ApiErr a)))
      | Inr e \<Rightarrow> if deleting e then reconcile_deleted r e \<bind> (\<lambda>out. ret (Returns out))
          else ensure_finalizer r e \<bind> (\<lambda>kept. case kept of
            Inl a \<Rightarrow> ret (Returns (0, Some (ApiErr a))) | Inr e1 \<Rightarrow> reconcile_exam r start e1))
      (\<lambda>es'' out. pass_shape r req ((es'' @ es') @ es) out)"
    proof (cases got)
      case (Inl a)
      with es es' show ?thesis by (auto intro!: runs_ret pass_shape.gone)
    next
      case (Inr e)
      with es es' reconcile_got [of "es' @ es" r req e "es' @ es @ h" start] show ?thesis
        by (simp add: read_exam_def)
    qed
  qed
qed

section \<open>Laws of the API server\<close>

text \<open>
  What is documented of the server and relied on below: a read returns the object of the
  requested key, an update returns the object it updated, a listing returns objects of the
  requested kind and namespace that carry the requested labels.
\<close>

definition api_laws :: "reconciler \<Rightarrow> bool" where
  "api_laws r \<longleftrightarrow>
     (\<forall>h k e. cl_GetExam r h k = Inr e \<longrightarrow> (Namespace e, Name e) = k) \<and>
     (\<forall>h e e'. cl_Update r h (ctl_AddFinalizer r e finalizerName) = Inr e' \<longrightarrow>
        Name e' = Name e \<and> Namespace e' = Namespace e) \<and>
     (\<forall>h k n sel xs. cl_List r h k n sel = Inr xs \<longrightarrow>
        (\<forall>x \<in> set xs. obj_kind x = k \<and> ObjNamespace (obj_meta x) = n \<and> selected_by sel (obj_labels x)))"

lemma sample_api_laws: "api_laws (sample_reconciler e t)"
  by (auto simp: api_laws_def split: if_splits)

section \<open>What a pass writes\<close>

text \<open>The key an event writes to, and the object it creates.\<close>

fun write_key :: "event \<Rightarrow> okey option" where
  "write_key (EvCreate x _) = Some (obj_key x)"
| "write_key (EvApply x _) = Some (obj_key x)"
| "write_key (EvDelete k _) = Some k"
| "write_key _ = None"

fun created :: "event \<Rightarrow> kobj option" where
  "created (EvCreate x _) = Some x"
| "created (EvApply x _) = Some x"
| "created _ = None"

text \<open>The keys of an exam: its namespace and everything inside it.\<close>

definition in_namespace :: "string \<Rightarrow> okey \<Rightarrow> bool" where
  "in_namespace ns k \<longleftrightarrow> (case k of (kd, n, nm) \<Rightarrow>
     if kd = NamespaceKind then n = '''' \<and> nm = ns else n = ns)"

lemma in_namespace_triple [simp]:
  "in_namespace ns (kd, n, nm) \<longleftrightarrow> (if kd = NamespaceKind then n = '''' \<and> nm = ns else n = ns)"
  by (simp add: in_namespace_def)

lemma provider_kind [simp]: "policy_kind p \<noteq> NamespaceKind"
  by (cases p) simp_all

lemma creates_own:
  assumes "exam_creates r e b x"
  shows "in_namespace (exam_ns e) (obj_key x)"
    and "Name e \<noteq> '''' \<Longrightarrow> Namespace e \<noteq> '''' \<Longrightarrow> requestsForOwnedObject x = [(Namespace e, Name e)]"
proof -
  note k = provider.deny_key provider.egress_key provider.ingress_key
  have res: "obj_key (Deployment e n sid s) = (DeploymentKind, n, s)"
    "obj_key (Service e n sid s) = (ServiceKind, n, s)"
    "obj_key (Ingress e n sid s bd tls) = (IngressKind, n, s)" for n sid s bd tls
    by (simp_all add: obj_key_def)
  have base: "obj_key (KNamespace m) = (NamespaceKind, ObjNamespace m, ObjName m)"
    "obj_key (tls_copy r e n d) = (SecretKind, n, IngressTLSSecretName (Platform r))" for m n d
    by (simp_all add: obj_key_def tls_copy_def)
  show "in_namespace (exam_ns e) (obj_key x)"
    using assms unfolding exam_creates_def instance_objects_def
    by (auto simp: k res base)
  assume names: "Name e \<noteq> ''''" "Namespace e \<noteq> ''''"
  have "obj_labels x LabelExam = Some (Name e) \<and> obj_labels x LabelExamNamespace = Some (Namespace e)"
    using assms unfolding exam_creates_def instance_objects_def
    by (auto simp: tls_copy_def examResourceLabels_def provider.policy_labels policyLabels_def OwnerLabels_def)
  then show "requestsForOwnedObject x = [(Namespace e, Name e)]"
    using names by (simp add: requestsForOwnedObject_def map_get_def Let_def)
qed

lemma deletes_own:
  assumes "api_laws r" "exam_deletes r e k"
  shows "in_namespace (exam_ns e) k"
proof -
  have "in_namespace (exam_ns e) (obj_key x)" if "listable r e kd x" for kd x
    using assms(1) that unfolding listable_def api_laws_def by (auto simp: obj_key_def)
  with assms(2) show ?thesis
    unfolding exam_deletes_def by (auto simp: provider.ingress_key)
qed

section \<open>Routes\<close>

text \<open>The objects that let traffic reach an instance.\<close>

fun opens_route :: "kobj \<Rightarrow> bool" where
  "opens_route (KIngress m s) = True"
| "opens_route (KNetworkPolicy m s) = (IngressAllowed s \<noteq> [])"
| "opens_route (KCiliumPolicy m j) =
     (case j of JObj [(k, JObj spec)] \<Rightarrow> list_ex (\<lambda>(f, _). f = ''ingress'') spec | _ \<Rightarrow> False)"
| "opens_route _ = False"

lemma closed_creates: "exam_creates r e False x \<Longrightarrow> \<not> opens_route x"
  by (cases "PolicyProvider r")
    (auto simp: exam_creates_def instance_objects_def tls_copy_def Deployment_def Service_def Let_def
      Vanilla_DenyAll_def Vanilla_EgressAllowlist_def Cilium_DenyAll_def Cilium_EgressAllowlist_def
      ciliumPolicy_def endpointSelector_def)

section \<open>The lifecycle of one exam\<close>

text \<open>
  The exam as stored after the events of a pass, newest event first: an accepted status
  write replaces the status, an accepted metadata update the finalizers.
\<close>

definition persist_event :: "event \<Rightarrow> exam \<Rightarrow> exam" where
  "persist_event ev e =
     (case ev of
        EvStatusUpdate x res \<Rightarrow> (case res of None \<Rightarrow> e\<lparr>ExStatus := ExStatus x\<rparr> | Some _ \<Rightarrow> e)
      | EvUpdate x res \<Rightarrow> (case res of Inr y \<Rightarrow> e\<lparr>Finalizers := Finalizers y\<rparr> | Inl _ \<Rightarrow> e)
      | _ \<Rightarrow> e)"

fun persisted :: "exam \<Rightarrow> log \<Rightarrow> exam" where
  "persisted e [] = e"
| "persisted e (ev # es) = persist_event ev (persisted e es)"

text \<open>
  During a pass the server serves the stored exam: reads return it, and the answer to a
  metadata update is the stored exam with other metadata. The clock readings of the pass
  lie between the times before and after it.
\<close>

definition serves :: "exam \<Rightarrow> log \<Rightarrow> bool" where
  "serves e es \<longleftrightarrow>
     (\<forall>k x. EvGetExam k (Inr x) \<in> set es \<longrightarrow> x = e) \<and>
     (\<forall>x y. EvUpdate x (Inr y) \<in> set es \<longrightarrow> Name y = Name e \<and> Namespace y = Namespace e \<and>
        Spec y = Spec e \<and> ExStatus y = ExStatus e)"

definition clock_within :: "time \<Rightarrow> time \<Rightarrow> log \<Rightarrow> bool" where
  "clock_within t t' es \<longleftrightarrow> (\<forall>now. EvNow now \<in> set es \<longrightarrow> t \<le> now \<and> now \<le> t')"

inductive lifecycle :: "exam \<times> time \<Rightarrow> log \<Rightarrow> exam \<times> time \<Rightarrow> bool" where
  pass: "run_state (Reconcile r (Namespace e, Name e)) h = (out, es @ h) \<Longrightarrow>
    serves e es \<Longrightarrow> clock_within t t' es \<Longrightarrow> t \<le> t' \<Longrightarrow> lifecycle (e, t) es (persisted e es, t')"
| edit: "ValidateUpdate valid now e (e\<lparr>Spec := sp\<rparr>) = None \<Longrightarrow> t \<le> t' \<Longrightarrow>
    lifecycle (e, t) [] (e\<lparr>Spec := sp\<rparr>, t')"
| delete: "t \<le> t' \<Longrightarrow> lifecycle (e, t) [] (e\<lparr>DeletionTimestamp := Some d\<rparr>, t')"

inductive_cases lifecycle_cases: "lifecycle (e, t) es (e', t')"

inductive reachable :: "exam \<times> time \<Rightarrow> bool" where
  created: "ExStatus e = zero_status \<Longrightarrow> reachable (e, t)"
| step: "reachable s \<Longrightarrow> lifecycle s es s' \<Longrightarrow> reachable s'"

lemma persisted_same:
  "Spec (persisted e es) = Spec e \<and> Name (persisted e es) = Name e \<and> Namespace (persisted e es) = Namespace e"
  by (induction es) (auto simp: persist_event_def split: event.splits option.splits sum.splits)

lemma persisted_status:
  "ExStatus (persisted e es) = ExStatus e \<or>
   (\<exists>x. EvStatusUpdate x None \<in> set es \<and> ExStatus (persisted e es) = ExStatus x)"
  by (induction es) (auto simp: persist_event_def split: event.splits option.splits sum.splits)

text \<open>Only a pass that worked on the exam writes its status, and what it writes.\<close>

lemma pass_status:
  assumes "pass_shape r req es out" "serves e es" "EvStatusUpdate x res \<in> set es"
  shows "\<exists>e1 now. EvNow now \<in> set es \<and> Spec e1 = Spec e \<and> ExStatus e1 = ExStatus e \<and> written_by_pass e1 now x"
  using assms(1)
proof cases
  case (worked e0 e1 now)
  have "e0 = e" using worked(1) assms(2) by (cases req) (auto simp: read_exam_def serves_def)
  with worked(3) assms(2) have "Spec e1 = Spec e" "ExStatus e1 = ExStatus e"
    by (auto simp: kept_exam_def serves_def)
  moreover have "written_by_pass e1 now x"
    using worked(5) assms(3) by (auto simp: list_all_iff finalizer_event_def pass_event_def)
  ultimately show ?thesis using worked(4) by blast
qed (use assms(3) in \<open>auto simp: list_all_iff deletion_event_def finalizer_event_def\<close>)

text \<open>The stage a pass may write, from the stage it found.\<close>

definition stage_step :: "exam \<Rightarrow> time \<Rightarrow> stage \<Rightarrow> stage \<Rightarrow> bool" where
  "stage_step e now s s' \<longleftrightarrow>
     (let d = timetable_step (set_times e) now s in s' = d \<or> d = Provisioning \<and> s' = Ready)"

lemma written_stage:
  assumes "written_by_pass e now x" "stage_of (ExPhase (ExStatus e)) = Some s"
  obtains s' where "stage_of (ExPhase (ExStatus x)) = Some s'" "stage_step e now s s'"
proof -
  obtain e2 where e2: "begun e now e2" "pass_to e2 x"
    using assms(1) by (auto simp: written_by_pass_def)
  have d: "stage_of (desired e now) = Some (timetable_step (set_times e) now s)"
    using assms(2) by (simp add: desired_def determineDesiredPhase_stage)
  have x: "ExPhase (ExStatus x) \<in> (if desired e now = PhaseProvisioning then {PhaseProvisioning, PhaseReady} else {desired e now})"
    using e2 by (auto simp: pass_to_def begunD [OF e2(1)])
  show ?thesis
  proof (cases "desired e now = PhaseProvisioning")
    case True
    with d have "timetable_step (set_times e) now s = Provisioning" by simp
    with True x that show ?thesis by (auto simp: stage_step_def)
  next
    case False
    with x d that show ?thesis by (auto simp: stage_step_def)
  qed
qed

lemma stage_step_ge: "stage_step e now s s' \<Longrightarrow> s \<le> s'"
  using timetable_step_ge [of s "set_times e" now]
  by (auto simp: stage_step_def Let_def less_eq_stage_def)

text \<open>
  The invariant of the lifecycle: an exam that is Unlocked or later is past its unlock time,
  one that is Locked or later is past its lock time, even if its specification was edited
  since. (The other times may be edited when their stage has begun.)
\<close>

definition stage_time :: "exam \<Rightarrow> stage \<Rightarrow> time option" where
  "stage_time e s =
     (case s of
        Waiting \<Rightarrow> None
      | Provisioning \<Rightarrow> Some (provisionTime (computeSchedule e))
      | Ready \<Rightarrow> None
      | Unlocked \<Rightarrow> Some (Unlock (Schedule (Spec e)))
      | Locked \<Rightarrow> Some (lockTime (computeSchedule e))
      | TearingDown \<Rightarrow> Some (retentionDeadline (computeSchedule e)))"

definition punctual :: "exam \<Rightarrow> time \<Rightarrow> bool" where
  "punctual e t \<longleftrightarrow> (\<exists>s. stage_of (ExPhase (ExStatus e)) = Some s \<and>
     (\<forall>s' \<in> {Unlocked, Locked}. s' \<le> s \<longrightarrow> (\<forall>d. stage_time e s' = Some d \<longrightarrow> d \<le> t)) \<and>
     (s = Waiting \<longrightarrow> StatusStudents (ExStatus e) = []) \<and>
     length (StatusStudents (ExStatus e)) \<le> length (Students (Spec e)))"

lemma stage_step_due:
  assumes "stage_step e now s s'" "u \<le> s'" "\<not> u \<le> s" "stage_time e u = Some d"
  shows "d \<le> now"
proof -
  have *: "due (set_times e) now s = (case s of
      Waiting \<Rightarrow> provisionTime (computeSchedule e) \<le> now | Ready \<Rightarrow> Unlock (Schedule (Spec e)) \<le> now
    | Unlocked \<Rightarrow> lockTime (computeSchedule e) \<le> now | Locked \<Rightarrow> retentionDeadline (computeSchedule e) \<le> now
    | _ \<Rightarrow> False)"
    by (cases s) simp_all
  show ?thesis
    using assms by (cases s; cases u)
      (auto simp: stage_step_def timetable_step_def * stage_time_def less_eq_stage_def Let_def split: if_splits)
qed

lemma stage_time_spec: "Spec e' = Spec e \<Longrightarrow> stage_time e' = stage_time e"
  by (auto simp: fun_eq_iff stage_time_def computeSchedule_def split: stage.splits)

lemma desired_not_empty: "desired e now \<noteq> PhaseEmpty"
  by (cases "ExPhase (ExStatus e)") (simp_all add: desired_def determineDesiredPhase_def Let_def)

lemma written_spec: "written_by_pass e now x \<Longrightarrow>
    length (StatusStudents (ExStatus x)) \<le> max (length (StatusStudents (ExStatus e))) (length (Students (Spec e))) \<and>
    (ExPhase (ExStatus x) = PhasePending \<longrightarrow> length (StatusStudents (ExStatus x)) = length (StatusStudents (ExStatus e)))"
  by (auto simp: written_by_pass_def pass_to_def begunD dest: list_all2_lengthD split: if_splits)

definition entered_on_time :: "exam \<Rightarrow> stage \<Rightarrow> stage \<Rightarrow> time \<Rightarrow> bool" where
  "entered_on_time e s s' t \<longleftrightarrow> (\<forall>u d. u \<le> s' \<longrightarrow> \<not> u \<le> s \<longrightarrow> stage_time e u = Some d \<longrightarrow> d \<le> t)"

lemma punctual_later: "punctual e t \<Longrightarrow> t \<le> t' \<Longrightarrow> punctual e t'"
  by (fastforce simp: punctual_def)

text \<open>One step of the lifecycle keeps the invariant and never moves the stage back.\<close>

lemma pass_step:
  assumes "pass_shape r req es out" "serves e es" "clock_within t t' es" "t \<le> t'" "punctual e t"
  shows "punctual (persisted e es) t'"
    and "stage_of (ExPhase (ExStatus e)) = Some s \<Longrightarrow> stage_of (ExPhase (ExStatus (persisted e es))) = Some s' \<Longrightarrow>
      s \<le> s' \<and> entered_on_time (persisted e es) s s' t'"
proof -
  obtain s0 where s0: "stage_of (ExPhase (ExStatus e)) = Some s0"
    and time: "\<And>u d. u \<in> {Unlocked, Locked} \<Longrightarrow> u \<le> s0 \<Longrightarrow> stage_time e u = Some d \<Longrightarrow> d \<le> t"
    and w: "s0 = Waiting \<Longrightarrow> StatusStudents (ExStatus e) = []"
    and len: "length (StatusStudents (ExStatus e)) \<le> length (Students (Spec e))"
    using assms(5) unfolding punctual_def by blast
  have spec: "Spec (persisted e es) = Spec e" by (simp add: persisted_same)
  have "punctual (persisted e es) t' \<and>
    (\<forall>s1. stage_of (ExPhase (ExStatus (persisted e es))) = Some s1 \<longrightarrow>
       s0 \<le> s1 \<and> entered_on_time (persisted e es) s0 s1 t')"
    using persisted_status [of e es]
  proof
    assume same: "ExStatus (persisted e es) = ExStatus e"
    from time assms(4) have "d \<le> t'" if "u \<in> {Unlocked, Locked}" "u \<le> s0" "stage_time e u = Some d" for u d
      using that by fastforce
    with same s0 w len spec show ?thesis
      by (auto simp: punctual_def entered_on_time_def stage_time_spec [OF spec])
  next
    assume "\<exists>x. EvStatusUpdate x None \<in> set es \<and> ExStatus (persisted e es) = ExStatus x"
    then obtain x where x: "EvStatusUpdate x None \<in> set es" "ExStatus (persisted e es) = ExStatus x" by blast
    from pass_status [OF assms(1,2) x(1)] obtain e1 now
      where e1: "EvNow now \<in> set es" "Spec e1 = Spec e" "ExStatus e1 = ExStatus e" "written_by_pass e1 now x" by blast
    then have now: "t \<le> now" "now \<le> t'" using assms(3) by (auto simp: clock_within_def)
    obtain s1 where s1: "stage_of (ExPhase (ExStatus x)) = Some s1" "stage_step e1 now s0 s1"
      using written_stage [OF e1(4)] s0 e1(3) by metis
    note st = stage_time_spec [OF e1(2)] stage_time_spec [OF spec]
    have enter: "d \<le> t'" if "u \<le> s1" "\<not> u \<le> s0" "stage_time e u = Some d" for u d
      using stage_step_due [OF s1(2) that(1,2)] that(3) st now by fastforce
    have "d \<le> t'" if "u \<in> {Unlocked, Locked}" "u \<le> s1" "stage_time e u = Some d" for u d
      using enter [OF that(2)] time [OF that(1)] that(3) assms(4) by (cases "u \<le> s0") fastforce+
    moreover have "StatusStudents (ExStatus x) = []" if "s1 = Waiting"
    proof -
      have "s0 = Waiting" using stage_step_ge [OF s1(2)] that by (cases s0) (auto simp: less_eq_stage_def)
      moreover have "ExPhase (ExStatus x) \<in> {PhaseEmpty, PhasePending}"
        using s1(1) that by (cases "ExPhase (ExStatus x)") auto
      moreover have "ExPhase (ExStatus x) \<noteq> PhaseEmpty"
        using e1(4) desired_not_empty [of e1 now] by (auto simp: written_by_pass_def pass_to_def begunD split: if_splits)
      ultimately show ?thesis using written_spec [OF e1(4)] w e1 by auto
    qed
    moreover have "length (StatusStudents (ExStatus x)) \<le> length (Students (Spec e))"
      using written_spec [OF e1(4)] len e1 by simp
    ultimately show ?thesis
      using s1 stage_step_ge [OF s1(2)] x(2) spec st enter by (auto simp: punctual_def entered_on_time_def)
  qed
  then show "punctual (persisted e es) t'"
    and "stage_of (ExPhase (ExStatus e)) = Some s \<Longrightarrow> stage_of (ExPhase (ExStatus (persisted e es))) = Some s' \<Longrightarrow>
      s \<le> s' \<and> entered_on_time (persisted e es) s s' t'"
    using s0 by auto
qed

text \<open>An update that the webhook accepts keeps the invariant.\<close>

lemma edit_punctual:
  assumes "ValidateUpdate valid now e (e\<lparr>Spec := sp\<rparr>) = None" "punctual e t"
  shows "punctual (e\<lparr>Spec := sp\<rparr>) t"
proof (cases "stage_of (ExPhase (ExStatus e)) = Some Waiting")
  case True
  with assms(2) show ?thesis by (auto simp: punctual_def less_eq_stage_def)
next
  case False
  note u = ValidateUpdate_None [OF assms(1) False, simplified]
  have len: "length (Students sp) = length (Students (Spec e))"
    using arg_cong [OF u(5), of length] by simp
  obtain s where s: "stage_of (ExPhase (ExStatus e)) = Some s" using assms(2) by (auto simp: punctual_def)
  have "lockTime (computeSchedule (e\<lparr>Spec := sp\<rparr>)) = lockTime (computeSchedule e)" if "Locked \<le> s"
    using s that by (intro u(6)) (cases "ExPhase (ExStatus e)"; auto simp: less_eq_stage_def)
  with u(3) have "stage_time (e\<lparr>Spec := sp\<rparr>) x = stage_time e x" if "x \<in> {Unlocked, Locked}" "x \<le> s" for x
    using that by (auto simp: stage_time_def)
  with assms(2) s len False show ?thesis by (auto simp: punctual_def)
qed

lemma lifecycle_punctual:
  assumes "lifecycle (e, t) es (e', t')" "punctual e t"
  shows "punctual e' t' \<and> (\<forall>s s'. stage_of (ExPhase (ExStatus e)) = Some s \<longrightarrow>
    stage_of (ExPhase (ExStatus e')) = Some s' \<longrightarrow> s \<le> s' \<and> entered_on_time e' s s' t')"
  using assms
proof (cases rule: lifecycle_cases [consumes 1, case_names pass edit delete])
  case (pass r h out)
  from pass(2) have "pass_shape r (Namespace e, Name e) es out"
    using Reconcile_shape [of h r "(Namespace e, Name e)"] by (simp add: runs_def)
  from pass_step [OF this] pass assms(2) show ?thesis by auto
next
  case (edit valid now sp)
  with punctual_later [OF edit_punctual [OF edit(3) assms(2)]] show ?thesis by (auto simp: entered_on_time_def)
next
  case (delete d)
  have "stage_time (e\<lparr>DeletionTimestamp := Some d\<rparr>) = stage_time e" by (rule stage_time_spec) simp
  then have "punctual (e\<lparr>DeletionTimestamp := Some d\<rparr>) t" using assms(2) by (simp add: punctual_def)
  with delete punctual_later show ?thesis by (auto simp: entered_on_time_def)
qed

lemma punctual_time:
  "punctual e t \<Longrightarrow> stage_of (ExPhase (ExStatus e)) = Some s \<Longrightarrow> s \<in> {Unlocked, Locked} \<Longrightarrow>
    stage_time e s = Some d \<Longrightarrow> d \<le> t"
  by (auto simp: punctual_def)

lemma reachable_punctual: "reachable s \<Longrightarrow> punctual (fst s) (snd s)"
proof (induction rule: reachable.induct)
  case (created e t)
  then show ?case by (auto simp: punctual_def zero_status_def less_eq_stage_def stage_time_def split: stage.splits)
next
  case (step s es s')
  with lifecycle_punctual [of "fst s" "snd s" es "fst s'" "snd s'"] show ?case by simp
qed

lemma lifecycle_shape:
  assumes "lifecycle (e, t) es (e', t')" "ev \<in> set es"
  obtains r out where "pass_shape r (Namespace e, Name e) es out" "serves e es" "clock_within t t' es"
    "e' = persisted e es"
  using assms(1)
proof (cases rule: lifecycle_cases [consumes 1, case_names pass edit delete])
  case (pass r h out)
  moreover have "pass_shape r (Namespace e, Name e) es out"
    using pass(2) Reconcile_shape [of h r "(Namespace e, Name e)"] by (simp add: runs_def)
  ultimately show ?thesis using that by blast
qed (use assms(2) in auto)

text \<open>A pass that creates a route has decided that the exam is unlocked.\<close>

lemma route_unlocked:
  assumes "pass_shape r req es out" "EvCreate x res \<in> set es" "opens_route x"
  obtains e e1 now where "read_exam r req es e" "kept_exam r e es e1" "EvNow now \<in> set es"
    "desired e1 now = PhaseUnlocked"
  using assms(1)
proof cases
  case (worked e e1 now)
  have "exam_creates r e1 (desired e1 now = PhaseUnlocked) x"
    using worked(5) assms(2) by (auto simp: list_all_iff finalizer_event_def pass_event_def)
  with assms(3) closed_creates [of r e1 x] have "desired e1 now = PhaseUnlocked"
    by (cases "desired e1 now = PhaseUnlocked") auto
  with worked that show ?thesis by blast
qed (use assms(2) in \<open>auto simp: list_all_iff deletion_event_def finalizer_event_def\<close>)

lemma serves_kept:
  "serves e es \<Longrightarrow> read_exam r req es e0 \<Longrightarrow> kept_exam r e0 es e1 \<Longrightarrow> Spec e1 = Spec e \<and> ExStatus e1 = ExStatus e"
  by (cases req) (auto simp: serves_def read_exam_def kept_exam_def)

end
