(* ===== verification/Scenario.thy ===== *)
theory Scenario
  imports Lifecycle
begin

text \<open>
  A concrete run of the controller: the passes over an exam of one student, from its
  creation to the opening of its route. The cluster holds one healthy deployment of that
  student. Binds are evaluated from the left, so the simplifier runs the model as an
  interpreter would.
\<close>

definition sample_deployment :: kobj where
  "sample_deployment =
     KDeployment \<lparr>ObjName = ''abcdefgh'', ObjNamespace = examNamespace ''midterm'' ''exam-system'',
         ObjLabels = [LabelSlug \<mapsto> ''abcdefgh'', LabelStudent \<mapsto> ''100000001'']\<rparr>
       \<lparr>Replicas = 1, MatchLabels = Map.empty, TemplateLabels = Map.empty, AutomountServiceAccountToken = None,
        Containers = []\<rparr> 1"

lemma sample_deployment_simps [simp]:
  "obj_labels sample_deployment = [LabelSlug \<mapsto> ''abcdefgh'', LabelStudent \<mapsto> ''100000001'']"
  "ReadyReplicas sample_deployment = 1"
  by (simp_all add: sample_deployment_def)

definition sample_cluster :: "exam \<Rightarrow> time \<Rightarrow> reconciler" where
  "sample_cluster e t = (sample_reconciler e t)
     \<lparr>cl_List := \<lambda>h k n sel. Inr (if k = DeploymentKind then [sample_deployment] else [])\<rparr>"

lemma lazy_bind: "m = m' \<Longrightarrow> State_Monad.bind m f = State_Monad.bind m' f"
  by simp

lemmas run_calls = rNow_def metaNow_def rGetExam_def rGetSecret_def rList_def rCreate_def rDelete_def
  rCreateOrUpdate_def rUpdate_def rStatusUpdate_def slugGenerate_def metric_def

lemmas run_pass = Reconcile_def deleting_def ensure_finalizer_def finalizerName_def reconcile_exam_def transition_def
  dispatch_def finish_pass_def report_def update_gauges_def updateMetricsSummary_def record_duration_def
  join_status_error_def set_times_def determineDesiredPhase_def setCondition_def new_condition_def

lemmas run_provisioning = reconcileProvisioning_def reconcilePlatformTLSSecret_def provision_instances_def
  findOrGenerateSlug_def provisionInstance_def instance_objects_def ignore_exists_def setStudentStatus_def padded_def
  observe_provision_def was_student_provisioned_def finish_provisioning_def enter_ready_def
  cleanupOrphanedResources_def orphan_kinds_def validSlugs_def allInstancesHealthy_def expected_instances_def map_get_def

lemmas run_unlock = reconcileUnlock_def enforcePolicies_def collectSlugs_def enforce_entry_def set_phases_def
  set_phase_def set_spare_phase_def notify_instructor_def cond_def sendEmail_def resolvedSender_def sender_Send_def

lemmas run_all = run_bind_lazy run_calls run_pass run_provisioning run_unlock

definition sample_times :: schedule where
  "sample_times = computeSchedule (sample_with zero_status)"

lemma sample_schedule [simp]: "computeSchedule (sample_with st) = sample_times"
  by (simp add: sample_times_def computeSchedule_def)

lemma sample_times_simps [simp]:
  "provisionTime sample_times = - 3600000000000"
  by (simp add: sample_times_def computeSchedule_def sample_spec_def time_add_def Hour_def Let_def)

text \<open>The status after the first pass, which provisions the instance and finds it healthy.\<close>

definition ready_status :: examStatus where
  "ready_status =
     \<lparr>ExPhase = PhaseReady, PhaseEntryTime = Some (- 3600000000000), ExMessage = '''',
      Conditions = [\<lparr>Type = ConditionProvisioned, Status = ConditionTrue, Reason = ReasonAllHealthy, Message = '''',
        ObservedGeneration = 1, LastTransitionTime = zero_time\<rparr>],
      ComputedLockTime = Some (lockTime sample_times), ProvisionTime = Some (- 3600000000000),
      EmailTime = Some (emailTime sample_times), RetentionDeadline = Some (retentionDeadline sample_times),
      ExDryRun = None,
      StatusStudents = [\<lparr>ID = ''100000001'', Slug = ''abcdefgh'', URL = ''https://abcdefgh.exam.otu.ca'',
        Phase = StudentProvisioned, EmailStatus = EmailPending, EmailSentAt = None\<rparr>],
      StatusSpares = [],
      ExMetrics = Some \<lparr>TotalStudents = 1, TotalSpares = 0, EmailsSent = 0, EmailsFailed = 0,
        InstancesHealthy = 1, InstancesFailed = 0\<rparr>\<rparr>"

lemmas run_sample = sample_cluster_def time_before_def zero_status_def sample_spec_def instanceURL_def summary_def
  count_list_of_def Let_def

lemma opens_route_simps [simp]:
  "opens_route (Ingress e n sid s bd tls)" "opens_route (Vanilla_IngressAllow n l)"
  by (simp_all add: Ingress_def Vanilla_IngressAllow_def Let_def)

lemma first_pass:
  "\<exists>es. run_state (Reconcile (sample_cluster (sample_with zero_status) (- 3600000000000)) (''exam-system'', ''midterm'')) [] =
     (Returns (0, None), es @ []) \<and> persisted (sample_with zero_status) es = sample_with ready_status \<and>
     serves (sample_with zero_status) es \<and> clock_within (- 3600000000000) (- 3600000000000) es"
  by (simp add: run_all run_sample ready_status_def persist_event_def serves_def clock_within_def
      cong: lazy_bind let_weak_cong)

lemma second_pass:
  "\<exists>d es x. run_state (Reconcile (sample_cluster (sample_with ready_status) 0) (''exam-system'', ''midterm'')) [] =
     (Returns (d, None), es @ []) \<and> EvCreate x None \<in> set es \<and> opens_route x \<and>
     serves (sample_with ready_status) es \<and> clock_within 0 0 es"
  by (simp add: run_all run_sample ready_status_def persist_event_def serves_def clock_within_def
      conj_disj_distribR ex_disj_distrib cong: lazy_bind let_weak_cong)

lemma clock_within_mono: "clock_within a b es \<Longrightarrow> a' \<le> a \<Longrightarrow> b \<le> b' \<Longrightarrow> clock_within a' b' es"
  by (fastforce simp: clock_within_def)

lemma sample_reachable: "reachable (sample_with ready_status, - 3600000000000)"
proof -
  obtain es where es: "run_state (Reconcile (sample_cluster (sample_with zero_status) (- 3600000000000))
        (''exam-system'', ''midterm'')) [] = (Returns (0, None), es @ [])"
    "persisted (sample_with zero_status) es = sample_with ready_status"
    "serves (sample_with zero_status) es" "clock_within (- 3600000000000) (- 3600000000000) es"
    using first_pass by blast
  have "lifecycle (sample_with zero_status, - 3600000000000) es (persisted (sample_with zero_status) es, - 3600000000000)"
    by (rule lifecycle.pass [of _ _ "[]"]) (use es in simp_all)
  moreover have "reachable (sample_with zero_status, - 3600000000000)"
    by (rule reachable.created) simp
  ultimately show ?thesis using es(2) by (auto intro: reachable.step)
qed

lemma sample_unlock:
  obtains d es x where "run_state (Reconcile (sample_cluster (sample_with ready_status) 0)
      (Namespace (sample_with ready_status), Name (sample_with ready_status))) [] = (Returns (d, None), es @ [])"
    "serves (sample_with ready_status) es"
    "lifecycle (sample_with ready_status, - 3600000000000) es (persisted (sample_with ready_status) es, 0)"
    "EvCreate x None \<in> set es" "opens_route x"
proof -
  obtain d es x where es: "run_state (Reconcile (sample_cluster (sample_with ready_status) 0)
        (''exam-system'', ''midterm'')) [] = (Returns (d, None), es @ [])"
    "EvCreate x None \<in> set es" "opens_route x" "serves (sample_with ready_status) es" "clock_within 0 0 es"
    using second_pass by blast
  have "lifecycle (sample_with ready_status, - 3600000000000) es (persisted (sample_with ready_status) es, 0)"
    by (rule lifecycle.pass [of _ _ "[]"]) (use es clock_within_mono [OF es(5)] in simp_all)
  with that es show ?thesis by simp
qed

end
