(* ===== verification/Guarantees.thy ===== *)
theory Guarantees
  imports Scenario
begin

text \<open>
  What single passes and operations of the controller guarantee: which objects they touch,
  when they panic, what becomes of the mails, the finalizer, the orphans, the metrics and
  the dry run, and when the controller wakes up again.
\<close>

section \<open>Where a pass writes\<close>

lemma AddFinalizer_same:
  "api_laws r \<Longrightarrow> kept_exam r e es e1 \<Longrightarrow> Name e1 = Name e \<and> Namespace e1 = Namespace e"
  unfolding kept_exam_def api_laws_def by blast

lemma pass_event_own:
  assumes "api_laws r" "pass_event r e now ev"
  shows "\<forall>k. write_key ev = Some k \<longrightarrow> in_namespace (exam_ns e) k"
    and "Name e \<noteq> '''' \<Longrightarrow> Namespace e \<noteq> '''' \<Longrightarrow>
      \<forall>x. created ev = Some x \<longrightarrow> requestsForOwnedObject x = [(Namespace e, Name e)]"
  using assms creates_own [of r e "desired e now = PhaseUnlocked"] deletes_own [of r e]
  by (cases ev; simp add: pass_event_def footprint_def; blast)+

lemma other_event_own:
  "silent ev \<or> finalizer_event r e ev \<Longrightarrow> write_key ev = None \<and> created ev = None"
  "deletion_event r e ev \<Longrightarrow>
     (\<forall>k. write_key ev = Some k \<longrightarrow> in_namespace (exam_ns e) k) \<and> created ev = None"
  by (cases ev; auto simp: finalizer_event_def deletion_event_def)+

text \<open>
  C7: a pass over one exam is confined to it: whatever the cluster holds, every key it
  creates, applies or deletes is the exam's own namespace or lies in it, and every object it
  creates carries the labels that lead the watch handler back to this exam and no other.
\<close>
theorem pass_confined_to_exam:
  assumes "api_laws r" "n \<noteq> ''''" "nm \<noteq> ''''"
    and "run_state (Reconcile r (n, nm)) h = (out, es @ h)" "ev \<in> set es"
  shows "(\<forall>k. write_key ev = Some k \<longrightarrow> in_namespace (examNamespace nm n) k) \<and>
    (\<forall>x. created ev = Some x \<longrightarrow> requestsForOwnedObject x = [(n, nm)])"
proof -
  have ns: "exam_ns e = examNamespace nm n \<and> Name e = nm \<and> Namespace e = n" if "read_exam r (n, nm) es e" for e
    using assms(1) that by (auto simp: read_exam_def api_laws_def exam_ns_def)
  have "pass_shape r (n, nm) es out"
    using assms(4) Reconcile_shape [of h r "(n, nm)"] by (simp add: runs_def)
  then show ?thesis
  proof cases
    case gone
    with assms(5) other_event_own(1) [of ev] show ?thesis by (auto simp: list_all_iff)
  next
    case (deletion e)
    with assms(5) other_event_own(2) [of r e ev] ns show ?thesis by (auto simp: list_all_iff)
  next
    case (refused e)
    with assms(5) other_event_own(1) [of ev r e] show ?thesis by (auto simp: list_all_iff)
  next
    case (worked e e1 now)
    have e1: "exam_ns e1 = examNamespace nm n" "Name e1 = nm" "Namespace e1 = n"
      using ns [OF worked(1)] AddFinalizer_same [OF assms(1) worked(3)] by (auto simp: exam_ns_def)
    have "pass_event r e1 now ev \<or> finalizer_event r e ev"
      using worked(5) assms(5) by (auto simp: list_all_iff)
    with pass_event_own [OF assms(1)] other_event_own(1) [of ev r e] e1 assms(2,3) show ?thesis by fastforce
  qed
qed

theorem pass_confined_to_exam_witness:
  "\<exists>out es. run_state (Reconcile (sample_reconciler (sample_with ready_status) 0) (''exam-system'', ''midterm'')) [] = (out, es @ []) \<and>
     (\<forall>ev \<in> set es. \<forall>k. write_key ev = Some k \<longrightarrow> in_namespace (examNamespace ''midterm'' ''exam-system'') k)"
proof -
  let ?r = "sample_reconciler (sample_with ready_status) 0"
  obtain out es where *: "run_state (Reconcile ?r (''exam-system'', ''midterm'')) [] = (out, es @ [])"
    by (metis append_Nil2 surj_pair)
  from pass_confined_to_exam [OF sample_api_laws _ _ *] show ?thesis using * by force
qed

section \<open>Panics\<close>

text \<open>
  C9: the controller never panics in the lifecycle: a pass over a reachable exam returns,
  whatever the environment answers.
\<close>
theorem reachable_pass_returns:
  assumes "reachable (e, t)" "run_state (Reconcile r (Namespace e, Name e)) h = (out, es @ h)" "serves e es"
  shows "out \<noteq> Panics"
proof -
  have "pass_shape r (Namespace e, Name e) es out"
    using assms(2) Reconcile_shape [of h r "(Namespace e, Name e)"] by (simp add: runs_def)
  then show ?thesis
  proof cases
    case (worked e0 e1 now)
    have "length (StatusStudents (ExStatus e)) \<le> length (Students (Spec e))"
      using reachable_punctual [OF assms(1)] by (auto simp: punctual_def)
    with serves_kept [OF assms(3) worked(1,3)] have "\<not> pass_panics e1 now"
      by (simp add: pass_panics_def)
    with worked(6) show ?thesis by blast
  qed auto
qed

theorem reachable_pass_returns_witness:
  "\<exists>out es. run_state (Reconcile (sample_cluster (sample_with ready_status) 0) (''exam-system'', ''midterm'')) [] =
     (out, es @ []) \<and> out \<noteq> Panics"
proof -
  obtain d es where run: "run_state (Reconcile (sample_cluster (sample_with ready_status) 0)
      (Namespace (sample_with ready_status), Name (sample_with ready_status))) [] = (Returns (d, None), es @ [])"
    "serves (sample_with ready_status) es"
    using sample_unlock by metis
  from reachable_pass_returns [OF sample_reachable this] run(1) show ?thesis by auto
qed

section \<open>The lifecycle\<close>

text \<open>
  C2: an exam moves through the lifecycle in order and on time: whatever the cluster, the
  mail server and other clients do, and whatever updates the webhook accepts, no step moves
  its stage back, no stage is entered before its computed time (the provision, unlock and
  lock times and the retention deadline), and an exam that is Unlocked or Locked stays past
  its unlock and lock time.
\<close>
theorem lifecycle_in_order:
  assumes "reachable (e, t)" "lifecycle (e, t) es (e', t')"
  shows "\<exists>s s'. stage_of (ExPhase (ExStatus e)) = Some s \<and> stage_of (ExPhase (ExStatus e')) = Some s' \<and>
    s \<le> s' \<and> (\<forall>u \<le> s'. \<forall>d. \<not> u \<le> s \<or> u \<in> {Unlocked, Locked} \<longrightarrow> stage_time e' u = Some d \<longrightarrow> d \<le> t')"
proof -
  have "punctual e t" using reachable_punctual [OF assms(1)] by simp
  note l = lifecycle_punctual [OF assms(2) this]
  obtain s where s: "stage_of (ExPhase (ExStatus e)) = Some s"
    using \<open>punctual e t\<close> by (auto simp: punctual_def)
  obtain s' where s': "stage_of (ExPhase (ExStatus e')) = Some s'"
    and time: "\<forall>u \<in> {Unlocked, Locked}. u \<le> s' \<longrightarrow> (\<forall>d. stage_time e' u = Some d \<longrightarrow> d \<le> t')"
    using l unfolding punctual_def by blast
  from l s s' have "s \<le> s'" "entered_on_time e' s s' t'" by auto
  with s s' time show ?thesis unfolding entered_on_time_def by blast
qed

theorem lifecycle_in_order_witness:
  "\<exists>s s' es. stage_of (ExPhase ready_status) = Some s \<and>
    stage_of (ExPhase (ExStatus (persisted (sample_with ready_status) es))) = Some s' \<and> s \<le> s'"
proof -
  obtain es where "lifecycle (sample_with ready_status, - 3600000000000) es (persisted (sample_with ready_status) es, 0)"
    using sample_unlock by metis
  from lifecycle_in_order [OF sample_reachable this] show ?thesis by auto
qed

text \<open>
  C3: the route to an instance (its Ingress or its ingress policy) is created only by a pass
  that runs at or after the unlock time, and only for an exam that was Ready, or that was
  already Unlocked and whose lock time had not come.
\<close>
theorem routes_open_only_after_unlock:
  assumes "reachable (e, t)" "lifecycle (e, t) es (e', t')" "EvCreate x res \<in> set es" "opens_route x"
  shows "Unlock (Schedule (Spec e)) \<le> t' \<and>
    (ExPhase (ExStatus e) = PhaseReady \<or> ExPhase (ExStatus e) = PhaseUnlocked \<and> t < lockTime (computeSchedule e))"
proof -
  obtain r out where p: "pass_shape r (Namespace e, Name e) es out" "serves e es" "clock_within t t' es"
    using lifecycle_shape [OF assms(2,3)] by blast
  obtain e0 e1 now where r: "read_exam r (Namespace e, Name e) es e0" "kept_exam r e0 es e1" "EvNow now \<in> set es"
    "desired e1 now = PhaseUnlocked"
    using route_unlocked [OF p(1) assms(3,4)] by blast
  note same = serves_kept [OF p(2) r(1,2)]
  then have c: "computeSchedule e1 = computeSchedule e" by (simp add: computeSchedule_def)
  have now: "t \<le> now" "now \<le> t'" using p(3) r(3) by (auto simp: clock_within_def)
  have punct: "punctual e t" using reachable_punctual [OF assms(1)] by simp
  from r(4) same c have "ExPhase (ExStatus e) = PhaseReady \<and> Unlock (Schedule (Spec e)) \<le> now \<or>
      ExPhase (ExStatus e) = PhaseUnlocked \<and> now < lockTime (computeSchedule e)"
    by (cases "ExPhase (ExStatus e)")
      (simp_all add: desired_def determineDesiredPhase_def time_before_def Let_def split: if_splits)
  moreover have "Unlock (Schedule (Spec e)) \<le> t" if "ExPhase (ExStatus e) = PhaseUnlocked"
    using punctual_time [OF punct, of Unlocked] that by (simp add: stage_time_def)
  ultimately show ?thesis using now by auto
qed

theorem routes_open_only_after_unlock_witness:
  "Unlock (Schedule (Spec (sample_with ready_status))) \<le> 0 \<and> ExPhase ready_status = PhaseReady"
proof -
  obtain es x where "lifecycle (sample_with ready_status, - 3600000000000) es (persisted (sample_with ready_status) es, 0)"
    "EvCreate x None \<in> set es" "opens_route x"
    using sample_unlock by metis
  from routes_open_only_after_unlock [OF sample_reachable this] show ?thesis by (simp add: ready_status_def)
qed


section \<open>Progress\<close>

text \<open>A pass whose status write the server accepted.\<close>

definition completed :: "exam \<times> time \<Rightarrow> exam \<times> time \<Rightarrow> bool" where
  "completed s s' \<longleftrightarrow> (\<exists>es x. lifecycle s es s' \<and> EvStatusUpdate x None \<in> set es)"

text \<open>All times of the exam have passed.\<close>

definition overdue :: "exam \<Rightarrow> time \<Rightarrow> bool" where
  "overdue e t \<longleftrightarrow> Unlock (Schedule (Spec e)) \<le> t \<and> lockTime (computeSchedule e) \<le> t \<and>
     retentionDeadline (computeSchedule e) \<le> t"

lemma persisted_accepted:
  "EvStatusUpdate x None \<in> set es \<Longrightarrow>
   \<exists>y. EvStatusUpdate y None \<in> set es \<and> ExStatus (persisted e es) = ExStatus y"
proof (induction es)
  case (Cons ev es)
  show ?case
  proof (cases "\<exists>y. ev = EvStatusUpdate y None")
    case True
    then show ?thesis by (auto simp: persist_event_def)
  next
    case False
    with Cons obtain y where y: "EvStatusUpdate y None \<in> set es" "ExStatus (persisted e es) = ExStatus y" by auto
    have "ExStatus (persist_event ev f) = ExStatus f" for f
      using False by (auto simp: persist_event_def split: event.splits option.splits sum.splits)
    with y show ?thesis by auto
  qed
qed simp

lemma overdue_stage:
  assumes "overdue e t" "t \<le> now" "Ready \<le> s" "stage_step e now s s'"
  shows "s' = next_stage s"
proof -
  have "due (set_times e) now s" if "s \<noteq> TearingDown"
    using assms(1-3) that by (cases s) (auto simp: overdue_def less_eq_stage_def)
  with assms(3,4) show ?thesis
    by (cases s) (auto simp: stage_step_def timetable_step_def less_eq_stage_def Let_def)
qed

lemma completed_step:
  assumes "completed (e, t) (e', t')" "overdue e t" "stage_of (ExPhase (ExStatus e)) = Some s" "Ready \<le> s"
  shows "stage_of (ExPhase (ExStatus e')) = Some (next_stage s) \<and> overdue e' t'"
proof -
  obtain es x where es: "lifecycle (e, t) es (e', t')" "EvStatusUpdate x None \<in> set es"
    using assms(1) unfolding completed_def by blast
  obtain r out where p: "pass_shape r (Namespace e, Name e) es out" "serves e es" "clock_within t t' es"
    "e' = persisted e es"
    using lifecycle_shape [OF es] by blast
  obtain y where y: "EvStatusUpdate y None \<in> set es" "ExStatus e' = ExStatus y"
    using persisted_accepted [OF es(2), of e] p(4) by blast
  from pass_status [OF p(1,2) y(1)] obtain e1 now where e1: "EvNow now \<in> set es" "Spec e1 = Spec e"
    "ExStatus e1 = ExStatus e" "written_by_pass e1 now y" by blast
  have now: "t \<le> now" "now \<le> t'" using p(3) e1(1) by (auto simp: clock_within_def)
  have sched: "computeSchedule e1 = computeSchedule e" "computeSchedule e' = computeSchedule e" "Spec e' = Spec e"
    using e1(2) by (simp_all add: computeSchedule_def p(4) persisted_same)
  have "overdue e1 t" using assms(2) by (simp add: overdue_def e1(2) sched)
  moreover obtain s' where "stage_of (ExPhase (ExStatus y)) = Some s'" "stage_step e1 now s s'"
    using written_stage [OF e1(4)] assms(3) e1(3) by metis
  ultimately have "stage_of (ExPhase (ExStatus e')) = Some (next_stage s)"
    using overdue_stage [OF _ now(1) assms(4)] y(2) by simp
  moreover have "overdue e' t'" using assms(2) now by (simp add: overdue_def sched)
  ultimately show ?thesis by blast
qed

text \<open>
  C5: an exam whose times have all passed is wound down, whatever else fails: every pass
  whose status write is accepted takes it exactly one stage further, so that from Ready the
  exam is in teardown after three of them.
\<close>
theorem overdue_exam_winds_down:
  assumes "(completed ^^ n) (e, t) (e', t')" "overdue e t"
    and "stage_of (ExPhase (ExStatus e)) = Some s" "Ready \<le> s"
  shows "stage_of (ExPhase (ExStatus e')) = Some ((next_stage ^^ n) s) \<and>
    (3 \<le> n \<longrightarrow> ExPhase (ExStatus e') = PhaseTearingDown)"
proof -
  have up: "Ready \<le> (next_stage ^^ k) s" for k
    using assms(4) by (induction k) (auto intro: order_trans next_stage_ge)
  have "stage_of (ExPhase (ExStatus e')) = Some ((next_stage ^^ n) s) \<and> overdue e' t'"
    using assms(1)
  proof (induction n arbitrary: e' t')
    case 0
    with assms(2,3) show ?case by simp
  next
    case (Suc n)
    then obtain e1 t1 where 1: "(completed ^^ n) (e, t) (e1, t1)" "completed (e1, t1) (e', t')" by auto
    from Suc.IH [OF 1(1)] completed_step [OF 1(2)] up [of n] show ?case by simp
  qed
  moreover have "(next_stage ^^ n) s = TearingDown" if n: "3 \<le> n"
  proof -
    obtain m where "n = m + 3" using n by (metis add.commute le_Suc_ex)
    moreover have "(next_stage ^^ 3) s = TearingDown"
      using assms(4) by (cases s) (auto simp: numeral_3_eq_3 less_eq_stage_def)
    moreover have "(next_stage ^^ m) TearingDown = TearingDown" by (induction m) simp_all
    ultimately show ?thesis by (simp add: funpow_add)
  qed
  moreover have "ExPhase (ExStatus e') = PhaseTearingDown" if "stage_of (ExPhase (ExStatus e')) = Some TearingDown"
    using that by (cases "ExPhase (ExStatus e')") auto
  ultimately show ?thesis by auto
qed


lemma late_pass:
  assumes "0 \<le> T"
  shows "\<exists>d es x. run_state (Reconcile (sample_cluster (sample_with ready_status) T) (''exam-system'', ''midterm'')) [] =
     (Returns (d, None), es @ []) \<and> EvStatusUpdate x None \<in> set es \<and>
     serves (sample_with ready_status) es \<and> clock_within T T es"
proof -
  have "\<not> T < 0" using assms by simp
  then show ?thesis
    by (simp add: run_all run_sample ready_status_def persist_event_def serves_def clock_within_def
        cong: lazy_bind let_weak_cong)
qed

lemma sample_overdue: "overdue (sample_with st) (retentionDeadline sample_times)" "0 \<le> retentionDeadline sample_times"
proof -
  have m: "effectiveMultiplier (Fin 1) = Fin 1" by (simp add: effectiveMultiplier_def f64_eq_def)
  have s: "Schedule sample_spec = \<lparr>Unlock = 0, Duration = Hour, TimeMultiplier = Fin 1, ProvisionBefore = 0, Retention = 0,
      DryRun = None\<rparr>" by (simp add: sample_spec_def)
  have "nanos Hour \<le> nanos (dur_scale Hour (Fin 1))"
    by (rule dur_scale_ge) (simp_all add: Hour_def scale_in_range_def)
  then have "0 \<le> lockTime sample_times" "lockTime sample_times \<le> retentionDeadline sample_times"
    by (simp_all add: sample_times_def computeSchedule_def computeLockTime_def s time_add_def Hour_def m Let_def)
  then show "overdue (sample_with st) (retentionDeadline sample_times)" "0 \<le> retentionDeadline sample_times"
    by (simp_all add: overdue_def s)
qed

theorem overdue_exam_winds_down_witness:
  "\<exists>e'. completed (sample_with ready_status, retentionDeadline sample_times) (e', retentionDeadline sample_times) \<and>
     stage_of (ExPhase (ExStatus e')) = Some Unlocked"
proof -
  let ?t = "retentionDeadline sample_times" and ?e = "sample_with ready_status"
  obtain d es x where es: "run_state (Reconcile (sample_cluster ?e ?t) (Namespace ?e, Name ?e)) [] = (Returns (d, None), es @ [])"
    "EvStatusUpdate x None \<in> set es" "serves ?e es" "clock_within ?t ?t es"
    using late_pass [OF sample_overdue(2)] by auto
  have "lifecycle (?e, ?t) es (persisted ?e es, ?t)"
    by (rule lifecycle.pass [OF es(1,3,4)]) simp
  with es(2) have c: "completed (?e, ?t) (persisted ?e es, ?t)" unfolding completed_def by blast
  then have "(completed ^^ 1) (?e, ?t) (persisted ?e es, ?t)" by (simp only: relpowp_1)
  from overdue_exam_winds_down [OF this sample_overdue(1), of Ready] c show ?thesis
    by (auto simp: ready_status_def)
qed

end
