(* ===== verification/Records.thy ===== *)
theory Records
  imports Scenario
begin

text \<open>
  The student records of a status over the whole lifecycle: they stand in order for the
  students of the specification, every record has a slug, and from Ready on no student is
  without one. A slug that was given stays.
\<close>

definition well_recorded :: "exam \<Rightarrow> bool" where
  "well_recorded e \<longleftrightarrow> identified e \<and>
     (\<forall>s. stage_of (ExPhase (ExStatus e)) = Some s \<longrightarrow> Ready \<le> s \<longrightarrow> all_recorded e)"

text \<open>What a pass writes to the status of a well recorded exam.\<close>

lemma written_records:
  assumes "written_by_pass e1 now x" "well_recorded e1"
    "stage_of (ExPhase (ExStatus e1)) = Some s0"
  shows "records_grow e1 x" "Spec x = Spec e1" "well_recorded x"
proof -
  obtain e2 where e2: "begun e1 now e2" "pass_to e2 x"
    using assms(1) by (auto simp: written_by_pass_def)
  have entry: "records_grow e1 e2" "identified e2 = identified e1" "all_recorded e2 = all_recorded e1"
    using begunD(1,6) [OF e2(1)] by (simp_all add: records_grow_same identified_def all_recorded_def)
  have to: "records_grow e2 x" "Spec x = Spec e2"
    using e2(2) same_examD(1) [of e2 x] by (simp_all add: pass_to_def)
  show grow: "records_grow e1 x" using records_grow_trans [OF entry(1) to(1) begunD(1) [OF e2(1)]] .
  show "Spec x = Spec e1" using to(2) begunD(1) [OF e2(1)] by simp
  have idx: "identified x" using grow assms(2) by (simp add: records_grow_def well_recorded_def)
  have "all_recorded x" if "stage_of (ExPhase (ExStatus x)) = Some s" "Ready \<le> s" for s
  proof (cases "desired e1 now = PhaseProvisioning")
    case True
    then have "ExPhase (ExStatus e2) = PhaseProvisioning" using begunD(5) [OF e2(1)] by simp
    moreover from this that e2(2) have "ExPhase (ExStatus x) = PhaseReady"
      by (auto simp: pass_to_def less_eq_stage_def)
    ultimately show ?thesis using e2(2) entry(2) assms(2) by (simp add: pass_to_def well_recorded_def)
  next
    case False
    note p = begunD(5) [OF e2(1)]
    have x: "ExPhase (ExStatus x) = desired e1 now" "length (records x) = length (records e2)"
      using e2(2) False by (auto simp: pass_to_def p dest: list_all2_lengthD)
    have "s = timetable_step (set_times e1) now s0"
      using that(1) x(1) assms(3) by (simp add: desired_def determineDesiredPhase_stage)
    with that have "Ready \<le> s0"
      by (cases s0) (auto simp: timetable_step_def less_eq_stage_def split: if_splits)
    with assms(2,3) have "all_recorded e1" by (simp add: well_recorded_def)
    with entry(3) x(2) to(2) show ?thesis by (simp add: all_recorded_def)
  qed
  with idx show "well_recorded x" by (simp add: well_recorded_def)
qed

text \<open>One step of the lifecycle.\<close>

lemma well_recorded_cong:
  assumes "Spec e' = Spec e" "ExStatus e' = ExStatus e"
  shows "well_recorded e' = well_recorded e" "records_grow e1 e' = records_grow e1 e"
  using assms by (simp_all add: well_recorded_def identified_def all_recorded_def records_grow_def)

lemma pass_records:
  assumes "pass_shape r req es out" "serves e es" "well_recorded e" "punctual e t"
  shows "records_grow e (persisted e es) \<and> well_recorded (persisted e es)"
  using persisted_status [of e es]
proof
  assume "ExStatus (persisted e es) = ExStatus e"
  with assms(3) show ?thesis
    by (simp add: well_recorded_cong [of "persisted e es" e] persisted_same)
next
  assume "\<exists>x. EvStatusUpdate x None \<in> set es \<and> ExStatus (persisted e es) = ExStatus x"
  then obtain x where x: "EvStatusUpdate x None \<in> set es" "ExStatus (persisted e es) = ExStatus x" by blast
  from pass_status [OF assms(1,2) x(1)] obtain e1 now
    where e1: "Spec e1 = Spec e" "ExStatus e1 = ExStatus e" "written_by_pass e1 now x" by blast
  obtain s0 where s0: "stage_of (ExPhase (ExStatus e1)) = Some s0"
    using assms(4) e1(2) by (auto simp: punctual_def)
  have w: "well_recorded e1" using assms(3) well_recorded_cong(1) [OF e1(1,2)] by simp
  note wr = written_records [OF e1(3) w s0]
  have "records_grow e e1" by (rule records_grow_same) (simp_all add: e1)
  from records_grow_trans [OF this wr(1) e1(1)] have "records_grow e x" .
  moreover have "Spec (persisted e es) = Spec x" by (simp add: persisted_same wr(2) e1(1))
  ultimately show ?thesis using wr(3) well_recorded_cong [OF _ x(2)] by simp
qed

lemma edit_records:
  assumes "ValidateUpdate valid now e (e\<lparr>Spec := sp\<rparr>) = None" "well_recorded e" "punctual e t"
  shows "well_recorded (e\<lparr>Spec := sp\<rparr>)"
proof (cases "stage_of (ExPhase (ExStatus e)) = Some Waiting")
  case True
  with assms(3) have "records e = []" by (auto simp: punctual_def)
  with True show ?thesis by (simp add: well_recorded_def identified_def less_eq_stage_def)
next
  case False
  note ids = ValidateUpdate_None(5) [OF assms(1) False, simplified]
  then have "length (Students sp) = length (Students (Spec e))" by (metis length_map)
  with assms(2) ids show ?thesis
    by (simp add: well_recorded_def identified_def all_recorded_def)
qed

lemma lifecycle_records:
  assumes "lifecycle (e, t) es (e', t')" "well_recorded e" "punctual e t"
  shows "well_recorded e' \<and> (identified e \<longrightarrow> distinct (map StudentID (Students (Spec e))) \<longrightarrow>
    prefix (map Slug (records e)) (map Slug (records e')))"
  using assms(1)
proof (cases rule: lifecycle_cases [consumes 1, case_names pass edit delete])
  case (pass r h out)
  then have "pass_shape r (Namespace e, Name e) es out"
    using Reconcile_shape [of h r "(Namespace e, Name e)"] by (simp add: runs_def)
  from pass_records [OF this pass(3) assms(2,3)] pass(1) show ?thesis
    by (simp add: records_grow_def)
next
  case (edit valid now sp)
  with edit_records [OF edit(3) assms(2,3)] show ?thesis by simp
next
  case (delete d)
  with assms(2) well_recorded_cong(1) [of e' e] show ?thesis by simp
qed

lemma reachable_recorded: "reachable s \<Longrightarrow> well_recorded (fst s)"
proof (induction rule: reachable.induct)
  case (created e t)
  then show ?case by (simp add: well_recorded_def identified_def zero_status_def less_eq_stage_def)
next
  case (step s es s')
  with lifecycle_records [of "fst s" "snd s" es "fst s'" "snd s'"] reachable_punctual [OF step(1)]
  show ?case by simp
qed

text \<open>
  C11: the status is well formed in the whole lifecycle: its student records stand, in order,
  for the first students of the specification, every record has a slug, and from Ready on
  there is a record for every student.
\<close>
theorem reachable_records_well_formed:
  assumes "reachable (e, t)"
  shows "map ID (StatusStudents (ExStatus e)) =
      take (length (StatusStudents (ExStatus e))) (map StudentID (Students (Spec e))) \<and>
    (\<forall>s \<in> set (StatusStudents (ExStatus e)). Slug s \<noteq> '''') \<and>
    (ExPhase (ExStatus e) \<in> {PhaseReady, PhaseUnlocked, PhaseLocked, PhaseTearingDown} \<longrightarrow>
      length (StatusStudents (ExStatus e)) = length (Students (Spec e)))"
proof -
  have w: "well_recorded e" using reachable_recorded [OF assms] by simp
  then have "all_recorded e" if "ExPhase (ExStatus e) \<in> {PhaseReady, PhaseUnlocked, PhaseLocked, PhaseTearingDown}"
    using that by (auto simp: well_recorded_def less_eq_stage_def)
  with w show ?thesis by (auto simp: well_recorded_def identified_def all_recorded_def)
qed

theorem reachable_records_well_formed_witness:
  "map ID (StatusStudents ready_status) = map StudentID (Students sample_spec)"
proof -
  have "map ID (StatusStudents ready_status) =
      take (length (StatusStudents ready_status)) (map StudentID (Students sample_spec)) \<and>
    length (StatusStudents ready_status) = length (Students sample_spec)"
    using reachable_records_well_formed [OF sample_reachable] by (simp add: ready_status_def)
  then show ?thesis by (metis length_map order_refl take_all)
qed

text \<open>
  C12: a student's slug, and with it the address of the instance, never changes once it was
  given: with distinct student ids every step of the lifecycle, failed and repeated
  provisioning passes included, only adds slugs behind those that are recorded.
\<close>
theorem recorded_slugs_stay:
  assumes "reachable (e, t)" "lifecycle (e, t) es (e', t')" "distinct (map StudentID (Students (Spec e)))"
  shows "prefix (map Slug (StatusStudents (ExStatus e))) (map Slug (StatusStudents (ExStatus e')))"
proof -
  have w: "well_recorded e" using reachable_recorded [OF assms(1)] by simp
  with lifecycle_records [OF assms(2) w] reachable_punctual [OF assms(1)] assms(3) show ?thesis
    by (simp add: well_recorded_def)
qed

theorem recorded_slugs_stay_witness:
  "\<exists>es e'. lifecycle (sample_with ready_status, - 3600000000000) es (e', 0) \<and>
    prefix (map Slug (StatusStudents ready_status)) (map Slug (StatusStudents (ExStatus e')))"
proof -
  obtain es where *: "lifecycle (sample_with ready_status, - 3600000000000) es (persisted (sample_with ready_status) es, 0)"
    using sample_unlock by metis
  have "distinct (map StudentID (Students (Spec (sample_with ready_status))))" by (simp add: sample_spec_def)
  from recorded_slugs_stay [OF sample_reachable * this] * show ?thesis by auto
qed

end
