(* ===== verification/Outcomes.thy ===== *)
theory Outcomes
  imports Scenario
begin

text \<open>
  What the operations of the controller achieve: the student records and mails, the finalizer,
  the policies and routes, the orphans, the metrics, the dry run, and the time of the next
  pass.
\<close>

section \<open>Student records and mails\<close>

lemma persisted_settled:
  assumes "pass_shape r req es out" "serves e es"
    and "ExPhase (ExStatus e) \<in> {PhaseReady, PhaseUnlocked, PhaseLocked, PhaseTearingDown}"
  shows "list_all2 settled (StatusStudents (ExStatus e)) (StatusStudents (ExStatus (persisted e es)))"
  using persisted_status [of e es]
proof
  assume "ExStatus (persisted e es) = ExStatus e"
  then show ?thesis by (simp add: list_all2_refl)
next
  assume "\<exists>x. EvStatusUpdate x None \<in> set es \<and> ExStatus (persisted e es) = ExStatus x"
  then obtain x where x: "EvStatusUpdate x None \<in> set es" "ExStatus (persisted e es) = ExStatus x" by blast
  from pass_status [OF assms(1,2) x(1)] obtain e1 now e2
    where e1: "ExStatus e1 = ExStatus e" "begun e1 now e2" "pass_to e2 x"
    by (auto simp: written_by_pass_def)
  have "desired e1 now \<noteq> PhaseProvisioning"
    using assms(3) by (auto simp: desired_def determineDesiredPhase_def e1(1) Let_def split: if_splits)
  with e1 x(2) show ?thesis
    by (simp add: pass_to_def begunD)
qed

text \<open>
  C10: from Ready on no step of the lifecycle loses anything of a student's record: the
  identity, the slug and the URL stay, a mail that was sent or failed is never pending again,
  a failed instance stays failed, and no record is added or dropped.
\<close>
theorem student_records_settle:
  assumes "lifecycle (e, t) es (e', t')"
    and "ExPhase (ExStatus e) \<in> {PhaseReady, PhaseUnlocked, PhaseLocked, PhaseTearingDown}"
  shows "list_all2 settled (StatusStudents (ExStatus e)) (StatusStudents (ExStatus e'))"
  using assms(1)
proof (cases rule: lifecycle_cases [consumes 1, case_names pass edit delete])
  case (pass r h out)
  then have "pass_shape r (Namespace e, Name e) es out"
    using Reconcile_shape [of h r "(Namespace e, Name e)"] by (simp add: runs_def)
  with pass assms(2) show ?thesis using persisted_settled by blast
qed (auto simp: list_all2_refl)

theorem student_records_settle_witness:
  "\<exists>es. list_all2 settled (StatusStudents ready_status)
    (StatusStudents (ExStatus (persisted (sample_with ready_status) es)))"
proof -
  obtain es where "lifecycle (sample_with ready_status, - 3600000000000) es (persisted (sample_with ready_status) es, 0)"
    using sample_unlock by metis
  from student_records_settle [OF this] show ?thesis by (auto simp: ready_status_def)
qed

fun recipients :: "event \<Rightarrow> string list option" where
  "recipients (EvSmtp _ _ _ to _ _) = Some to"
| "recipients (EvSend _ to _ _) = Some to"
| "recipients _ = None"

lemma desired_cong:
  assumes "Spec e1 = Spec e" "ExPhase (ExStatus e1) = ExPhase (ExStatus e)"
  shows "desired e1 now = desired e now"
proof -
  have "computeSchedule e1 = computeSchedule e" using assms(1) by (simp add: computeSchedule_def)
  with assms show ?thesis
    by (cases "ExPhase (ExStatus e)") (simp_all add: desired_def determineDesiredPhase_def Let_def)
qed

lemma pass_event_mail:
  assumes "pass_event r e now ev" "recipients ev = Some to"
  shows "to_instructor e to \<or> desired e now = PhaseReady \<and> to_student e to"
  using assms
  by (cases ev; cases "desired e now") (auto simp: pass_event_def footprint_def pass_mail_def)

lemma no_mail:
  "silent ev \<Longrightarrow> recipients ev = None" "deletion_event r e ev \<Longrightarrow> recipients ev = None"
  "finalizer_event r e ev \<Longrightarrow> recipients ev = None"
  by (cases ev; simp add: deletion_event_def finalizer_event_def)+

text \<open>
  C19: every mail of a pass goes to the instructor, except in a pass that finds the exam due
  to be Ready: that one may write to a student, and then to the first whose mail is pending.
  So a mail still pending when the exam unlocks is never sent.
\<close>
theorem student_mail_only_when_ready:
  assumes "run_state (Reconcile r (Namespace e, Name e)) h = (out, es @ h)" "serves e es"
    and "ev \<in> set es" "recipients ev = Some to"
  shows "to = [InstructorEmail (SpecEmail (Spec e))] \<or>
    (\<exists>now i. EvNow now \<in> set es \<and> determineDesiredPhase (set_times e) now = PhaseReady \<and>
       next_pending (StatusStudents (ExStatus e)) = Some i \<and> to = [Email (Students (Spec e) ! i)])"
proof -
  have "pass_shape r (Namespace e, Name e) es out"
    using assms(1) Reconcile_shape [of h r "(Namespace e, Name e)"] by (simp add: runs_def)
  then show ?thesis
  proof cases
    case (worked e0 e1 now)
    note same = serves_kept [OF assms(2) worked(1,3)]
    from worked(5) assms(3,4) no_mail have "pass_event r e1 now ev"
      by (fastforce simp: list_all_iff)
    from pass_event_mail [OF this assms(4)] worked(4) same show ?thesis
      by (auto simp: to_instructor_def to_student_def desired_cong [of e1 e] desired_def [symmetric])
  qed (use assms(3,4) no_mail in \<open>fastforce simp: list_all_iff\<close>)+
qed


lemmas run_mail = reconcileReady_def ready_mail_def sendNextPendingEmail_def upd_student_def BuildStudentMessage_def

text \<open>The pass at the email time of the sample exam: it writes to the student.\<close>

lemma mail_pass:
  "\<exists>d es. run_state (Reconcile (sample_cluster (sample_with ready_status) (- 1800000000000)) (''exam-system'', ''midterm'')) [] =
     (Returns (d, None), es @ []) \<and> (\<exists>fr msg. EvSend fr [''a@otu.ca''] msg None \<in> set es) \<and>
     serves (sample_with ready_status) es"
proof -
  have [simp]: "emailTime sample_times = - 1800000000000"
    by (simp add: sample_times_def computeSchedule_def sample_spec_def time_add_def Minute_def Let_def)
  show ?thesis
    by (simp add: run_all run_mail run_sample ready_status_def persist_event_def serves_def clock_within_def
        cong: lazy_bind let_weak_cong)
qed

theorem student_mail_only_when_ready_witness:
  "\<exists>es. (\<exists>now i. EvNow now \<in> set es \<and>
     determineDesiredPhase (set_times (sample_with ready_status)) now = PhaseReady \<and>
     next_pending (StatusStudents ready_status) = Some i \<and> [''a@otu.ca''] = [Email (Students sample_spec ! i)])"
proof -
  obtain d es fr msg where es: "run_state (Reconcile (sample_cluster (sample_with ready_status) (- 1800000000000))
      (Namespace (sample_with ready_status), Name (sample_with ready_status))) [] = (Returns (d, None), es @ [])"
    "EvSend fr [''a@otu.ca''] msg None \<in> set es" "serves (sample_with ready_status) es"
    using mail_pass by auto
  from student_mail_only_when_ready [OF es(1,3,2)] show ?thesis by (auto simp: sample_spec_def)
qed


definition pending_mails :: "exam \<Rightarrow> nat" where
  "pending_mails e = length (filter (\<lambda>s. EmailStatus s = EmailPending) (StatusStudents (ExStatus e)))"

lemma filter_update_drops:
  "i < length xs \<Longrightarrow> P (xs ! i) \<Longrightarrow> \<not> P x \<Longrightarrow> Suc (length (filter P (xs[i := x]))) = length (filter P xs)"
  by (induction xs arbitrary: i) (auto split: nat.splits)

lemma next_mail_facts:
  assumes "run_state (sendNextPendingEmail r e) h = (Returns (e', sent), h')"
  shows "case next_pending (StatusStudents (ExStatus e)) of
      None \<Rightarrow> \<not> sent \<and> e' = e \<and> pending_mails e = 0
    | Some i \<Rightarrow> sent \<and> Suc (pending_mails e') = pending_mails e \<and>
        (\<exists>s'. e' = upd_status (\<lambda>st. st\<lparr>StatusStudents := (StatusStudents st)[i := s']\<rparr>) e \<and>
           EmailStatus s' \<in> {EmailSent, EmailFailed} \<and> settled (StatusStudents (ExStatus e) ! i) s')"
proof -
  have post: "go_post (length (Students (Spec e)) < length (StatusStudents (ExStatus e)))
      (\<lambda>(e', sent). if sent then mailed e e'
         else e' = e \<and> (\<forall>s \<in> set (StatusStudents (ExStatus e)). EmailStatus s \<noteq> EmailPending)) (Returns (e', sent))"
    using emitsD [OF fp_sendNextPendingEmail [where M = "\<lambda>_. True" and ?e0.0 = e and b = False and U = "\<lambda>_. True"] assms]
    by blast
  show ?thesis
  proof (cases "next_pending (StatusStudents (ExStatus e))")
    case None
    with post have "\<not> sent" "e' = e" by (auto simp: mailed_def split: if_splits)
    moreover have "pending_mails e = 0"
      using None by (auto simp: next_pending_None pending_mails_def filter_empty_conv)
    ultimately show ?thesis using None by simp
  next
    case (Some i)
    note i = next_pending_Some [OF this]
    with post Some have "mailed e e' \<and> sent"
      by (auto simp: next_pending_None [symmetric] split: if_splits)
    with Some obtain s' where s': "e' = upd_status (\<lambda>st. st\<lparr>StatusStudents := (StatusStudents st)[i := s']\<rparr>) e"
      "settled (StatusStudents (ExStatus e) ! i) s'" "EmailStatus s' \<in> {EmailSent, EmailFailed}" "sent"
      by (auto simp: mailed_def)
    moreover have "Suc (pending_mails e') = pending_mails e"
      unfolding pending_mails_def s'(1) using i s'(3) by (auto intro!: filter_update_drops)
    ultimately show ?thesis using Some by auto
  qed
qed

text \<open>
  C15: sending the next mail settles exactly one student, the first with a pending mail. The
  mail goes to that student with that student's URL; if it was sent, the record says so and
  when the attempt began, if not, it says failed; nothing else of the exam changes, and one mail
  less is pending. Without a pending mail nothing happens at all. The number of pending mails is
  thus the measure by which repeated Ready passes run out of mails.
\<close>
theorem next_mail_settles_first_pending:
  assumes "run_state (sendNextPendingEmail r e) h = (Returns (e', sent), h')"
  shows "case next_pending (StatusStudents (ExStatus e)) of
      None \<Rightarrow> \<not> sent \<and> e' = e \<and> h' = h \<and> pending_mails e = 0
    | Some i \<Rightarrow> sent \<and> Suc (pending_mails e') = pending_mails e \<and>
        (\<exists>now h1 err h2. run_state (metaNow r) h = (now, h1) \<and>
           run_state (sendEmail r e [Email (Students (Spec e) ! i)]
             (BuildStudentMessage (From (SpecEmail (Spec e))) (Email (Students (Spec e) ! i)) (Subject (SpecEmail (Spec e)))
               (URL (StatusStudents (ExStatus e) ! i)))) h1 = (err, h2) \<and>
           e' = upd_student i (\<lambda>s. if err = None then s\<lparr>EmailStatus := EmailSent, EmailSentAt := Some now\<rparr>
                                else s\<lparr>EmailStatus := EmailFailed\<rparr>) e)"
proof (cases "next_pending (StatusStudents (ExStatus e))")
  case None
  with assms next_mail_facts [OF assms] show ?thesis by (simp add: sendNextPendingEmail_def)
next
  case (Some i)
  with assms have i: "\<not> i \<ge> length (Students (Spec e))" by (auto simp: sendNextPendingEmail_def)
  let ?msg = "BuildStudentMessage (From (SpecEmail (Spec e))) (Email (Students (Spec e) ! i)) (Subject (SpecEmail (Spec e)))
    (URL (StatusStudents (ExStatus e) ! i))"
  let ?new = "\<lambda>now err s. if err = None then s\<lparr>EmailStatus := EmailSent, EmailSentAt := Some now\<rparr>
    else s\<lparr>EmailStatus := EmailFailed\<rparr>"
  obtain now h1 err h2 where run: "run_state (metaNow r) h = (now, h1)"
    "run_state (sendEmail r e [Email (Students (Spec e) ! i)] ?msg) h1 = (err, h2)"
    by (metis surj_pair)
  have "e' = upd_student i (?new now err) e"
    using assms Some i run
    by (cases err) (auto simp: sendNextPendingEmail_def run_bind_lazy Let_def split: prod.splits)
  with Some run next_mail_facts [OF assms] show ?thesis by auto
qed

theorem next_mail_settles_first_pending_witness:
  "\<exists>e' sent. fst (run_state (sendNextPendingEmail (sample_reconciler (sample_with ready_status) 0) (sample_with ready_status)) []) =
     Returns (e', sent) \<and> sent \<and> Suc (pending_mails e') = pending_mails (sample_with ready_status)"
proof -
  let ?r = "sample_reconciler (sample_with ready_status) 0"
  obtain e' sent h' where *: "run_state (sendNextPendingEmail ?r (sample_with ready_status)) [] = (Returns (e', sent), h')"
    by (simp add: run_all run_mail run_sample ready_status_def cong: lazy_bind let_weak_cong)
  have "next_pending (StatusStudents ready_status) = Some 0" by (simp add: ready_status_def)
  with next_mail_settles_first_pending [OF *] * show ?thesis by auto
qed


section \<open>The finalizer\<close>

text \<open>The events of a teardown: the deletion of the namespace first, then only metrics and the clock.\<close>

lemma runs_reconcileTeardown:
  "runs h (reconcileTeardown r e) (\<lambda>es (e', err). \<exists>res ms.
     es = ms @ [EvDelete (NamespaceKind, '''', examNamespace (Name e) (Namespace e)) res] \<and> list_all silent ms \<and>
     same_exam e e' \<and> (err = None \<longleftrightarrow> res \<in> {None, Some NotFound}) \<and>
     (\<forall>a. res = Some a \<longrightarrow> a \<noteq> NotFound \<longrightarrow> err = Some (ApiErr a) \<and> ms = [] \<and> e' = e))"
proof -
  let ?k = "(NamespaceKind, '''', examNamespace (Name e) (Namespace e))"
  have del: "runs h (rDelete r ?k) (\<lambda>es res. es = [EvDelete ?k res])"
    by (auto simp: rDelete_def intro!: runs_ask)
  have quiet: "emits silent ((if Metrics r then CleanupExam r (Name e) (Namespace e) else ret ()) \<bind> (\<lambda>_.
      rNow r \<bind> (\<lambda>phaseNow. ret (upd_status (\<lambda>st. st\<lparr>ExPhase := PhaseTearingDown, PhaseEntryTime := Some phaseNow,
        ExMessage := ''Namespace deleted''\<rparr>) e, None)))) (\<lambda>(e', err). same_exam e e' \<and> err = (None :: go_error option))"
    by (auto intro!: emits_bind_True emit_rules same_exam_upd)
  show ?thesis
    unfolding reconcileTeardown_def Let_def
  proof (rule runs_bind [OF del], goal_cases)
    case (1 es res)
    show ?case
    proof (cases "ignore_missing res")
      case None
      then have "res \<in> {None, Some NotFound}"
        by (auto simp: ignore_missing_def IsNotFound_def split: option.splits if_splits)
      with None 1 show ?thesis
        using quiet by (auto simp: emits_def elim!: runs_conseq [of "es @ h"])
    next
      case (Some a)
      then have "res = Some a" "a \<noteq> NotFound"
        by (auto simp: ignore_missing_def IsNotFound_def split: option.splits if_splits)
      with Some 1 show ?thesis by (auto intro!: runs_ret)
    qed
  qed
qed

text \<open>
  C20: deleting an exam takes the finalizer away only after the server acknowledged the
  deletion of the namespace (or that there is none): the namespace is deleted first, the
  update that drops the finalizer is the last call, and any other answer to the deletion ends
  the pass with that error and the finalizer in place.
\<close>
theorem finalizer_removed_after_namespace:
  assumes "run_state (reconcile_deleted r e) h = (out, es @ h)"
  shows "if ctl_ContainsFinalizer r e finalizerName
    then \<exists>res es'. es = es' @ [EvDelete (NamespaceKind, '''', examNamespace (Name e) (Namespace e)) res] \<and>
      (if res \<in> {None, Some NotFound}
       then \<exists>e1 y ms. es' = EvUpdate (ctl_RemoveFinalizer r e1 finalizerName) y # ms \<and> same_exam e e1 \<and>
         list_all silent ms \<and> out = (0, case y of Inl a \<Rightarrow> Some (ApiErr a) | Inr _ \<Rightarrow> None)
       else es' = [] \<and> out = (0, map_option ApiErr res))
    else es = [] \<and> out = (0, None)"
proof (cases "ctl_ContainsFinalizer r e finalizerName")
  case False
  with assms show ?thesis by (simp add: reconcile_deleted_def)
next
  case True
  obtain e1 err h1 where td: "run_state (reconcileTeardown r e) h = ((e1, err), h1)" by (metis surj_pair)
  have "\<exists>es. h1 = es @ h \<and> (\<exists>res ms.
      es = ms @ [EvDelete (NamespaceKind, '''', examNamespace (Name e) (Namespace e)) res] \<and> list_all silent ms \<and>
      same_exam e e1 \<and> (err = None \<longleftrightarrow> res \<in> {None, Some NotFound}) \<and>
      (\<forall>a. res = Some a \<longrightarrow> a \<noteq> NotFound \<longrightarrow> err = Some (ApiErr a) \<and> ms = [] \<and> e1 = e))"
    using runs_reconcileTeardown [of h r e] unfolding runs_def td by (simp only: fst_conv snd_conv prod.case)
  then obtain es1 res ms where
    es1: "h1 = es1 @ h" "es1 = ms @ [EvDelete (NamespaceKind, '''', examNamespace (Name e) (Namespace e)) res]"
    and ms: "list_all silent ms" "same_exam e e1" "err = None \<longleftrightarrow> res \<in> {None, Some NotFound}"
      "\<forall>a. res = Some a \<longrightarrow> a \<noteq> NotFound \<longrightarrow> err = Some (ApiErr a) \<and> ms = [] \<and> e1 = e"
    by (elim exE conjE)
  show ?thesis
  proof (cases err)
    case None
    let ?e2 = "ctl_RemoveFinalizer r e1 finalizerName"
    let ?y = "cl_Update r h1 ?e2"
    let ?del = "EvDelete (NamespaceKind, '''', examNamespace (Name e) (Namespace e)) res"
    have run: "run_state (reconcile_deleted r e) h =
        ((0, case ?y of Inl a \<Rightarrow> Some (ApiErr a) | Inr _ \<Rightarrow> None), EvUpdate ?e2 ?y # h1)"
      using True td None by (simp add: reconcile_deleted_def run_bind_lazy rUpdate_def split: sum.splits)
    have "es @ h = ((EvUpdate ?e2 ?y # ms) @ [?del]) @ h"
      using assms unfolding run unfolding es1 by (simp only: prod.inject append_Cons append_assoc)
    then have es: "es = (EvUpdate ?e2 ?y # ms) @ [?del]" by (simp only: append_same_eq)
    have out: "out = (0, case ?y of Inl a \<Rightarrow> Some (ApiErr a) | Inr _ \<Rightarrow> None)"
      using assms unfolding run by (simp only: prod.inject)
    have res: "res \<in> {None, Some NotFound}" using ms(3) None by (simp only: simp_thms)
    have "\<exists>e1 y ms'. EvUpdate ?e2 ?y # ms = EvUpdate (ctl_RemoveFinalizer r e1 finalizerName) y # ms' \<and>
        same_exam e e1 \<and> list_all silent ms' \<and> out = (0, case y of Inl a \<Rightarrow> Some (ApiErr a) | Inr _ \<Rightarrow> None)"
      using ms(1,2) out by (intro exI [of _ e1] exI [of _ ?y] exI [of _ ms] conjI refl)
    then show ?thesis
      unfolding if_P [OF True]
      by (intro exI [of _ res] exI [of _ "EvUpdate ?e2 ?y # ms"] conjI) (simp_all only: es if_P [OF res])
  next
    case (Some x)
    with ms obtain a where a: "res = Some a" "a \<noteq> NotFound" "x = ApiErr a" "ms = []" by auto
    with assms True td Some have "es @ h = h1" "out = (0, Some (ApiErr a))"
      by (auto simp: reconcile_deleted_def run_bind_lazy)
    with a es1 True show ?thesis by simp
  qed
qed

theorem finalizer_removed_after_namespace_witness:
  "\<exists>out es. run_state (reconcile_deleted (sample_reconciler (sample_with ready_status) 0) (sample_with ready_status)) [] =
     (out, es @ []) \<and> (\<exists>res es'. es = es' @ [EvDelete (NamespaceKind, '''', examNamespace ''midterm'' ''exam-system'') res])"
proof -
  let ?r = "sample_reconciler (sample_with ready_status) 0"
  obtain out es where *: "run_state (reconcile_deleted ?r (sample_with ready_status)) [] = (out, es @ [])"
    by (metis append_Nil2 surj_pair)
  from finalizer_removed_after_namespace [OF *] * show ?thesis by (auto simp: finalizerName_def)
qed


section \<open>Orphans and routes\<close>

text \<open>The server acknowledged a deletion, or had nothing to delete.\<close>

definition deleted_in :: "log \<Rightarrow> kobj \<Rightarrow> bool" where
  "deleted_in es x \<longleftrightarrow> EvDelete (obj_key x) None \<in> set es \<or> EvDelete (obj_key x) (Some NotFound) \<in> set es"

definition orphan :: "exam \<Rightarrow> kobj \<Rightarrow> bool" where
  "orphan e x \<longleftrightarrow> map_get (obj_labels x) LabelSlug \<noteq> '''' \<and> \<not> validSlugs e (map_get (obj_labels x) LabelSlug)"

lemma runs_rDelete: "runs h (rDelete r k) (\<lambda>es res. es = [EvDelete k res])"
  by (auto simp: rDelete_def intro!: runs_ask)

lemma runs_rList: "runs h (rList r k ns sel) (\<lambda>es res. es = [EvList k ns sel res])"
  by (auto simp: rList_def intro!: runs_ask)

lemma ignore_missing_None: "ignore_missing res = None \<longleftrightarrow> res = None \<or> res = Some NotFound"
  by (auto simp: ignore_missing_def IsNotFound_def split: option.splits)

lemma runs_delete_each:
  "runs h (delete_each r xs) (\<lambda>es err.
     (\<forall>ev \<in> set es. \<exists>x \<in> set xs. \<exists>res. ev = EvDelete (obj_key x) res) \<and>
     (err = None \<longrightarrow> (\<forall>x \<in> set xs. deleted_in es x)))"
proof (induction xs arbitrary: h)
  case Nil
  then show ?case by (auto intro: runs_ret)
next
  case (Cons x xs)
  show ?case
    unfolding delete_each.simps
  proof (rule runs_bind [OF runs_rDelete], goal_cases)
    case (1 es res)
    show ?case
    proof (cases "ignore_missing res")
      case None
      with 1 have "deleted_in es x" by (auto simp: ignore_missing_None deleted_in_def)
      with None 1 show ?thesis
        by (auto simp: deleted_in_def intro!: runs_conseq [OF Cons.IH])
    qed (use 1 in \<open>auto intro!: runs_ret\<close>)
  qed
qed

lemma runs_delete_orphans:
  "runs h (delete_orphans r (validSlugs e) xs) (\<lambda>es err.
     (\<forall>ev \<in> set es. \<exists>x \<in> set xs. \<exists>res. orphan e x \<and> ev = EvDelete (obj_key x) res) \<and>
     (err = None \<longrightarrow> (\<forall>x \<in> set xs. orphan e x \<longrightarrow> deleted_in es x)))"
proof (induction xs arbitrary: h)
  case Nil
  then show ?case by (auto intro: runs_ret)
next
  case (Cons x xs)
  show ?case
  proof (cases "orphan e x")
    case False
    then have "delete_orphans r (validSlugs e) (x # xs) = delete_orphans r (validSlugs e) xs"
      by (auto simp: orphan_def Let_def)
    with False show ?thesis by (auto intro!: runs_conseq [OF Cons.IH])
  next
    case True
    then have *: "delete_orphans r (validSlugs e) (x # xs) = rDelete r (obj_key x) \<bind> (\<lambda>err. case ignore_missing err of
        Some a \<Rightarrow> ret (Some a) | None \<Rightarrow> delete_orphans r (validSlugs e) xs)"
      by (simp add: orphan_def Let_def)
    show ?thesis
      unfolding *
    proof (rule runs_bind [OF runs_rDelete], goal_cases)
      case (1 es res)
      show ?case
      proof (cases "ignore_missing res")
        case None
        with 1 have "deleted_in es x" by (auto simp: ignore_missing_None deleted_in_def)
        with True None 1 show ?thesis
          by (auto simp: deleted_in_def intro!: runs_conseq [OF Cons.IH])
      qed (use 1 True in \<open>auto intro!: runs_ret\<close>)
    qed
  qed
qed

text \<open>What a cleanup over some kinds of object did.\<close>

definition cleaned :: "exam \<Rightarrow> string \<Rightarrow> labels \<Rightarrow> kind list \<Rightarrow> log \<Rightarrow> api_error option \<Rightarrow> bool" where
  "cleaned e ns sel ks es err \<longleftrightarrow>
     (\<forall>k res. EvDelete k res \<in> set es \<longrightarrow>
        (\<exists>kd xs x. EvList kd ns sel (Inr xs) \<in> set es \<and> x \<in> set xs \<and> orphan e x \<and> k = obj_key x)) \<and>
     (err = None \<longrightarrow> (\<forall>kd \<in> set ks. \<exists>xs. EvList kd ns sel (Inr xs) \<in> set es \<and>
        (\<forall>x \<in> set xs. orphan e x \<longrightarrow> deleted_in es x)))"

lemma cleaned_step:
  assumes "\<forall>ev \<in> set es1. \<exists>x \<in> set xs. \<exists>res. orphan e x \<and> ev = EvDelete (obj_key x) res"
    "\<forall>x \<in> set xs. orphan e x \<longrightarrow> deleted_in es1 x" "cleaned e ns sel ks es2 err"
  shows "cleaned e ns sel (k # ks) (es2 @ es1 @ [EvList k ns sel (Inr xs)]) err"
  unfolding cleaned_def
proof (intro conjI allI impI)
  fix ky res
  assume "EvDelete ky res \<in> set (es2 @ es1 @ [EvList k ns sel (Inr xs)])"
  then consider "EvDelete ky res \<in> set es2" | "EvDelete ky res \<in> set es1" by auto
  then show "\<exists>kd ys x. EvList kd ns sel (Inr ys) \<in> set (es2 @ es1 @ [EvList k ns sel (Inr xs)]) \<and>
      x \<in> set ys \<and> orphan e x \<and> ky = obj_key x"
  proof cases
    case 1
    with assms(3) obtain kd ys x where "EvList kd ns sel (Inr ys) \<in> set es2" "x \<in> set ys" "orphan e x" "ky = obj_key x"
      unfolding cleaned_def by blast
    then show ?thesis by auto
  next
    case 2
    with assms(1) show ?thesis by fastforce
  qed
next
  assume "err = None"
  then have "\<forall>kd \<in> set ks. \<exists>ys. EvList kd ns sel (Inr ys) \<in> set es2 \<and> (\<forall>x \<in> set ys. orphan e x \<longrightarrow> deleted_in es2 x)"
    using assms(3) by (simp add: cleaned_def)
  with assms(2) show "\<forall>kd \<in> set (k # ks). \<exists>ys. EvList kd ns sel (Inr ys) \<in> set (es2 @ es1 @ [EvList k ns sel (Inr xs)]) \<and>
      (\<forall>x \<in> set ys. orphan e x \<longrightarrow> deleted_in (es2 @ es1 @ [EvList k ns sel (Inr xs)]) x)"
    by (fastforce simp: deleted_in_def)
qed

lemma runs_cleanup_kinds:
  "runs h (cleanup_kinds r (validSlugs e) ns sel ks) (cleaned e ns sel ks)"
proof (induction ks arbitrary: h)
  case Nil
  then show ?case by (auto simp: cleaned_def intro: runs_ret)
next
  case (Cons k ks)
  show ?case
    unfolding cleanup_kinds.simps
  proof (rule runs_bind [OF runs_rList], goal_cases)
    case (1 es found)
    show ?case
    proof (cases found)
      case (Inl a)
      with 1 show ?thesis by (auto simp: cleaned_def intro!: runs_ret)
    next
      case (Inr xs)
      have "runs (es @ h) (delete_orphans r (validSlugs e) xs \<bind> (\<lambda>err. case err of
          Some a \<Rightarrow> ret (Some a) | None \<Rightarrow> cleanup_kinds r (validSlugs e) ns sel ks))
        (\<lambda>es' err. cleaned e ns sel (k # ks) (es' @ es) err)"
      proof (rule runs_bind [OF runs_delete_orphans], goal_cases)
        case (1 es1 err)
        show ?case
        proof (cases err)
          case None
          with 1 show ?thesis
            using \<open>es = _\<close> Inr by (auto intro!: runs_conseq [OF Cons.IH] cleaned_step)
        next
          case (Some a)
          with 1 show ?thesis
            using \<open>es = _\<close> Inr by (fastforce simp: cleaned_def intro!: runs_ret)
        qed
      qed
      with Inr show ?thesis by simp
    qed
  qed
qed


text \<open>
  C21: the orphan cleanup deletes nothing but objects that a listing of the exam's own
  objects returned and whose slug is set and no longer recorded in the status; and when it
  reports no error, every such object of every kind it lists is gone.
\<close>
theorem orphan_cleanup_exact:
  "\<exists>es. snd (run_state (cleanupOrphanedResources r e ns) h) = es @ h \<and>
     (\<forall>k res. EvDelete k res \<in> set es \<longrightarrow> (\<exists>kd xs x. EvList kd ns (OwnerLabels e) (Inr xs) \<in> set es \<and> x \<in> set xs \<and>
        k = obj_key x \<and> map_get (obj_labels x) LabelSlug \<noteq> '''' \<and> \<not> validSlugs e (map_get (obj_labels x) LabelSlug))) \<and>
     (fst (run_state (cleanupOrphanedResources r e ns) h) = None \<longrightarrow>
        (\<forall>kd \<in> set (orphan_kinds (PolicyProvider r)). \<exists>xs. EvList kd ns (OwnerLabels e) (Inr xs) \<in> set es \<and>
           (\<forall>x \<in> set xs. map_get (obj_labels x) LabelSlug \<noteq> '''' \<and> \<not> validSlugs e (map_get (obj_labels x) LabelSlug) \<longrightarrow>
              EvDelete (obj_key x) None \<in> set es \<or> EvDelete (obj_key x) (Some NotFound) \<in> set es)))"
proof -
  have "runs h (cleanupOrphanedResources r e ns) (cleaned e ns (OwnerLabels e) (orphan_kinds (PolicyProvider r)))"
    unfolding cleanupOrphanedResources_def examResourceSelector_def examResourceLabels_def by (rule runs_cleanup_kinds)
  then obtain es where es: "snd (run_state (cleanupOrphanedResources r e ns) h) = es @ h"
    and c: "cleaned e ns (OwnerLabels e) (orphan_kinds (PolicyProvider r)) es
      (fst (run_state (cleanupOrphanedResources r e ns) h))"
    unfolding runs_def by blast
  from c es show ?thesis
    unfolding cleaned_def orphan_def deleted_in_def by (intro exI [of _ es] conjI) (blast | simp)+
qed


lemma orphan_run:
  "fst (run_state (cleanupOrphanedResources (sample_cluster (sample_with zero_status) 0) (sample_with zero_status) ns) []) = None"
  by (simp add: cleanupOrphanedResources_def orphan_kinds_def run_bind_lazy run_calls sample_cluster_def ignore_missing_def
      Let_def cong: lazy_bind let_weak_cong)

theorem orphan_cleanup_exact_witness:
  "\<exists>es xs. EvList DeploymentKind ''ns'' (OwnerLabels (sample_with zero_status)) (Inr xs) \<in> set es \<and>
     (\<forall>x \<in> set xs. map_get (obj_labels x) LabelSlug \<noteq> '''' \<longrightarrow>
        EvDelete (obj_key x) None \<in> set es \<or> EvDelete (obj_key x) (Some NotFound) \<in> set es)"
proof -
  let ?e = "sample_with zero_status" and ?r = "sample_cluster (sample_with zero_status) 0"
  have none: "\<not> validSlugs ?e s" for s by (simp add: validSlugs_def zero_status_def)
  have "DeploymentKind \<in> set (orphan_kinds (PolicyProvider ?r))" by (simp add: orphan_kinds_def)
  with orphan_cleanup_exact [of ?r ?e "''ns''" "[]"] orphan_run [of "''ns''"] none show ?thesis by blast
qed

section \<open>The dry run\<close>

lemma cond_conditions:
  "cond r (upd_status (\<lambda>s. s\<lparr>Conditions := cs\<rparr>) e) t = meta_IsStatusConditionTrue r cs t"
  by (simp add: cond_def)

lemma run_setCondition:
  "run_state (setCondition r e c) h =
     (upd_status (\<lambda>s. s\<lparr>Conditions := meta_SetStatusCondition r h (Conditions (ExStatus e)) (c\<lparr>ObservedGeneration := Generation e\<rparr>)\<rparr>) e, h)"
  by (simp add: setCondition_def)

lemma set_cond:
  assumes "condition_api r" "run_state (setCondition r e c) h = (e', h')"
  shows "cond r e' t = (if t = Type c then Status c = ConditionTrue else cond r e t)"
    and "ExDryRun (ExStatus e') = ExDryRun (ExStatus e)" "h' = h"
  using assms by (auto simp: run_setCondition condition_api_def cond_def)

text \<open>What the dry run stores, from the result of its checks.\<close>

lemma runDryRun_result:
  assumes "condition_api r" "run_state (runDryRun r e) h = (e', h')"
  obtains dr h1 now where
    "run_state (RunDryRun (rCheckHealth r) (rCheckBlocked r) (dry_run_targets e) (negative_url e)) h = (dr, h1)"
    "ExDryRun (ExStatus e') = Some (dry_run_status dr now)"
    "cond r e' ConditionNetworkPolicyEnforced = PolicyEnforced dr"
    "cond r e' ConditionDryRunFailed = (0 < RunFailed (DryResult dr) \<or> cond r e ConditionDryRunFailed)"
    "\<And>t. t \<noteq> ConditionNetworkPolicyEnforced \<Longrightarrow> t \<noteq> ConditionDryRunFailed \<Longrightarrow> cond r e' t = cond r e t"
proof -
  obtain dr h1 where 1: "run_state (RunDryRun (rCheckHealth r) (rCheckBlocked r) (dry_run_targets e) (negative_url e)) h = (dr, h1)"
    by (metis surj_pair)
  obtain now h2 where 2: "run_state (metaNow r) h1 = (now, h2)" by (metis surj_pair)
  let ?e1 = "upd_status (\<lambda>st. st\<lparr>ExDryRun := Some (dry_run_status dr now)\<rparr>) e"
  let ?c = "new_condition ConditionNetworkPolicyEnforced
     (if \<not> PolicyEnforced dr then ConditionFalse else ConditionTrue)
     (if \<not> PolicyEnforced dr then ReasonNotEnforced else ReasonVerified)
     (''Negative connectivity test: policyEnforced='' @ bool_string (PolicyEnforced dr))"
  let ?d = "new_condition ConditionDryRunFailed ConditionTrue ReasonSomeFailed
         (dec_int (RunFailed (DryResult dr)) @ '' of '' @
          dec_int (RunPassed (DryResult dr) + RunFailed (DryResult dr)) @ '' checks failed'')"
  obtain e2 h3 where 3: "run_state (setCondition r ?e1 ?c) h2 = (e2, h3)" by (metis surj_pair)
  obtain e3 h4 where 4: "run_state (setCondition r e2 ?d) h3 = (e3, h4)" by (metis surj_pair)
  have e': "e' = (if RunFailed (DryResult dr) > 0 then e3 else e2)"
    using assms(2) 1 2 3 4 by (simp add: runDryRun_def run_bind_lazy metric_def split: if_splits)
  have "cond r ?e1 t = cond r e t" for t by (simp add: cond_def)
  with set_cond [OF assms(1) 3] set_cond [OF assms(1) 4] have
    "ExDryRun (ExStatus e') = Some (dry_run_status dr now)"
    "cond r e' ConditionNetworkPolicyEnforced = PolicyEnforced dr"
    "cond r e' ConditionDryRunFailed = (0 < RunFailed (DryResult dr) \<or> cond r e ConditionDryRunFailed)"
    "\<And>t. t \<noteq> ConditionNetworkPolicyEnforced \<Longrightarrow> t \<noteq> ConditionDryRunFailed \<Longrightarrow> cond r e' t = cond r e t"
    by (simp_all add: e' new_condition_def)
  with 1 show ?thesis by (rule that)
qed

text \<open>
  C24: over a network whose answers depend on the URL alone the dry run can never pass: with
  a student in the status, the policies are reported as enforced only if the health check of
  the first student's instance failed, because both checks probe the same URL.
\<close>
theorem dry_run_enforced_only_with_failure:
  assumes "over_network net r" "condition_api r" "StatusStudents (ExStatus e) \<noteq> []"
    and "run_state (runDryRun r e) h = (e', h')"
  shows "\<exists>dr. ExDryRun (ExStatus e') = Some dr \<and>
    (cond r e' ConditionNetworkPolicyEnforced \<longrightarrow>
       0 < Failed dr \<and> cond r e' ConditionDryRunFailed \<and> ID (hd (StatusStudents (ExStatus e))) \<in> set (map FailStudent (Failures dr)))"
proof -
  obtain s ss where ss: "StatusStudents (ExStatus e) = s # ss" using assms(3) by (cases "StatusStudents (ExStatus e)") auto
  let ?u = "probe_url e (Slug s)"
  obtain dr h1 now where dr: "run_state (RunDryRun (rCheckHealth r) (rCheckBlocked r) (dry_run_targets e) (negative_url e)) h = (dr, h1)"
    "ExDryRun (ExStatus e') = Some (dry_run_status dr now)"
    "cond r e' ConditionNetworkPolicyEnforced = PolicyEnforced dr"
    "cond r e' ConditionDryRunFailed = (0 < RunFailed (DryResult dr) \<or> cond r e ConditionDryRunFailed)"
    using runDryRun_result [OF assms(2,4)] .
  have first: "\<lparr>TargetStudentID = ID s, TargetURL = ?u\<rparr> \<in> set (dry_run_targets e)"
    by (simp add: dry_run_targets_def ss)
  note answers = http.RunDryRun_answers [of net r, unfolded over_network_eq [OF assms(1)], OF dr(1)]
  have "\<not> http_healthy net ?u" if "PolicyEnforced dr"
    using that answers(4) by (auto simp: negative_url_def ss http_silent_def http_healthy_def split: http_result.splits)
  then have f: "\<lparr>TargetStudentID = ID s, TargetURL = ?u\<rparr> \<in> set (filter (Not \<circ> http_healthy net \<circ> TargetURL) (dry_run_targets e))"
    if "PolicyEnforced dr"
    using that first by simp
  have "0 < RunFailed (DryResult dr)" if "PolicyEnforced dr"
    using f [OF that] unfolding answers(2) by (metis length_pos_if_in_set of_nat_0_less_iff)
  moreover have "ID s \<in> set (map FailureStudent (RunFailures (DryResult dr)))" if "PolicyEnforced dr"
    using f [OF that] unfolding answers(3) by (auto intro!: rev_image_eqI)
  ultimately show ?thesis
    using dr(2-4) by (auto simp: dry_run_status_def ss image_image)
qed

theorem dry_run_enforced_only_with_failure_witness:
  "\<exists>e' dr h'. run_state (runDryRun (on_network (\<lambda>_. NoResponse ''refused'') (sample_reconciler (sample_with ready_status) 0))
      (sample_with ready_status)) [] = (e', h') \<and> ExDryRun (ExStatus e') = Some dr \<and>
    (cond (on_network (\<lambda>_. NoResponse ''refused'') (sample_reconciler (sample_with ready_status) 0)) e'
       ConditionNetworkPolicyEnforced \<longrightarrow> 0 < Failed dr)"
proof -
  let ?r = "on_network (\<lambda>_. NoResponse ''refused'') (sample_reconciler (sample_with ready_status) 0)"
  obtain e' h' where *: "run_state (runDryRun ?r (sample_with ready_status)) [] = (e', h')" by (metis surj_pair)
  have net: "over_network (\<lambda>_. NoResponse ''refused'') ?r" by (simp add: over_network_def on_network_def)
  have api: "condition_api ?r"
    using sample_condition_api [of "sample_with ready_status" 0] by (simp add: condition_api_def on_network_def)
  from dry_run_enforced_only_with_failure [OF net api _ *] * show ?thesis by (auto simp: ready_status_def)
qed


section \<open>Waking up\<close>

text \<open>The time at which the phase of an exam ends.\<close>

definition phase_deadline :: "exam \<Rightarrow> time option" where
  "phase_deadline e =
     (case ExPhase (ExStatus e) of
        PhasePending \<Rightarrow> Some (provisionTime (computeSchedule e))
      | PhaseReady \<Rightarrow> Some (Unlock (Schedule (Spec e)))
      | PhaseUnlocked \<Rightarrow> ComputedLockTime (ExStatus e)
      | PhaseLocked \<Rightarrow> RetentionDeadline (ExStatus e)
      | _ \<Rightarrow> None)"

lemma wait_in_time:
  assumes "now < t'" "t' \<le> t" "t - now \<le> max_int64"
  shows "0 < nanos (dur_max (time_sub t' now) 0) \<and> now + nanos (dur_max (time_sub t' now) 0) \<le> t"
  using assms unfolding ns_wait by (simp add: max_int64_def)

lemma sendNext_unsent:
  assumes "run_state (sendNextPendingEmail r e) h = (Returns (e', False), h')"
  shows "e' = e"
  using next_mail_facts [OF assms] by (simp split: option.splits)

lemma ready_mail_done:
  assumes "condition_api r" "run_state (ready_mail r e now) h = (Returns (e1, None), h1)"
  shows "Spec e1 = Spec e \<and> (cond r e1 ConditionAllEmailsSent \<or> time_before now (emailTime (computeSchedule e)))"
proof (cases "\<not> cond r e ConditionAllEmailsSent \<and> \<not> time_before now (emailTime (computeSchedule e))")
  case False
  with assms(2) show ?thesis by (auto simp: ready_mail_def)
next
  case True
  obtain sent h2 where s: "run_state (sendNextPendingEmail r e) h = (sent, h2)" by (metis surj_pair)
  with True assms(2) obtain e2 where e2: "sent = Returns (e2, False)"
    by (cases sent) (auto simp: ready_mail_def run_bind_lazy Let_def run_setCondition split: if_splits)
  with True assms(2) s have "run_state (setCondition r e2 (new_condition ConditionAllEmailsSent ConditionTrue ReasonComplete '''')) h2 = (e1, h1)"
    by (simp add: ready_mail_def run_bind_lazy Let_def split: prod.splits)
  with set_cond(1) [OF assms(1) this, of ConditionAllEmailsSent] sendNext_unsent [OF s [unfolded e2]]
  show ?thesis by (auto simp: new_condition_def run_setCondition)
qed

lemma dry_run_done:
  assumes "condition_api r" "run_state (ready_dry_run r e now) h = (e1, h1)"
  shows "Spec e1 = Spec e \<and> cond r e1 ConditionAllEmailsSent = cond r e ConditionAllEmailsSent \<and>
    (\<forall>d. DryRun (Schedule (Spec e)) = Some d \<longrightarrow> cond r e1 ConditionDryRunComplete \<or> time_before now (dry_run_time e d))"
proof -
  have "emits (footprint r e False (\<lambda>_. True) (\<lambda>_. True)) (ready_dry_run r e now) (moves_on e)"
    by (rule fp_ready_dry_run) simp
  from emitsD [OF this assms(2)] have "moves_on e e1" by blast
  then have spec: "Spec e1 = Spec e" using same_examD(1) [OF moves_onD] by blast
  show ?thesis
  proof (cases "\<exists>d. DryRun (Schedule (Spec e)) = Some d \<and> \<not> cond r e ConditionDryRunComplete \<and> \<not> time_before now (dry_run_time e d)")
    case False
    with assms(2) spec show ?thesis by (auto simp: ready_dry_run_def split: option.splits)
  next
    case True
    obtain e2 h2 where r: "run_state (runDryRun r e) h = (e2, h2)" by (metis surj_pair)
    from True assms(2) r have c: "run_state (setCondition r e2 (new_condition ConditionDryRunComplete ConditionTrue ReasonComplete '''')) h2 = (e1, h1)"
      by (auto simp: ready_dry_run_def run_bind_lazy)
    from runDryRun_result [OF assms(1) r] have "cond r e2 ConditionAllEmailsSent = cond r e ConditionAllEmailsSent" by blast
    with set_cond(1) [OF assms(1) c] spec show ?thesis by (simp add: new_condition_def)
  qed
qed

lemma next_wake_bounds:
  assumes "now < Unlock (Schedule (Spec e))"
    and "cond r e ConditionAllEmailsSent \<or> time_before now (emailTime (computeSchedule e))"
    and "\<And>d. DryRun (Schedule (Spec e)) = Some d \<Longrightarrow> cond r e ConditionDryRunComplete \<or> time_before now (dry_run_time e d)"
  shows "now < next_wake r e \<and> next_wake r e \<le> Unlock (Schedule (Spec e))"
  using assms by (auto simp: next_wake_def time_before_def Let_def split: option.splits)

text \<open>A pass at the time \<open>w\<close> comes in time for what a Ready exam still owes: its mails and its dry run.\<close>

definition in_time_for_duties :: "reconciler \<Rightarrow> exam \<Rightarrow> time \<Rightarrow> bool" where
  "in_time_for_duties r e w \<longleftrightarrow>
     (cond r e ConditionAllEmailsSent \<or> w \<le> emailTime (computeSchedule e)) \<and>
     (cond r e ConditionDryRunComplete \<or>
      (case DryRun (Schedule (Spec e)) of None \<Rightarrow> True | Some d \<Rightarrow> w \<le> dry_run_time e d))"

lemma next_wake_in_time: "w \<le> next_wake r e \<Longrightarrow> in_time_for_duties r e w"
  by (auto simp: in_time_for_duties_def next_wake_def time_before_def Let_def split: option.splits if_splits)

lemma reconcileReady_wakes:
  assumes "condition_api r" "run_state (reconcileReady r e now) h = (Returns (e', d, err), h')"
    and "now < Unlock (Schedule (Spec e))" "Unlock (Schedule (Spec e)) - now \<le> max_int64"
  shows "0 < nanos d \<and>
    (now + nanos d \<le> Unlock (Schedule (Spec e)) \<and> in_time_for_duties r e' (now + nanos d) \<or>
     mailed e e' \<and> d = (if sint (SendInterval (SpecEmail (Spec e))) \<le> 0 then Second else SendInterval (SpecEmail (Spec e))))"
proof -
  obtain m h1 where m: "run_state (ready_mail r e now) h = (m, h1)" by (metis surj_pair)
  obtain e1 stop where e1: "m = Returns (e1, stop)"
    using assms(2) m by (cases m) (auto simp: reconcileReady_def run_bind_lazy)
  show ?thesis
  proof (cases stop)
    case (Some interval)
    have "emits (footprint r e False (\<lambda>_. True) (\<lambda>_. True)) (ready_mail r e now)
        (go_post (length (Students (Spec e)) < length (StatusStudents (ExStatus e)))
          (\<lambda>(e', stop). moves_on e e' \<and> (case stop of None \<Rightarrow> True | Some d \<Rightarrow> mailed e e' \<and> 0 < nanos d)))"
      by (rule fp_ready_mail) simp
    from emitsD [OF this m] e1 Some have "mailed e e1" "0 < nanos interval" by auto
    moreover have "interval = (if sint (SendInterval (SpecEmail (Spec e))) \<le> 0 then Second else SendInterval (SpecEmail (Spec e)))"
      using m e1 Some by (auto simp: ready_mail_def run_bind_lazy Let_def split: if_splits prod.splits go.splits)
    ultimately show ?thesis using assms(2) m e1 Some by (simp add: reconcileReady_def run_bind_lazy)
  next
    case None
    note mail = ready_mail_done [OF assms(1) m [unfolded e1 None]]
    obtain e2 h2 where d2: "run_state (ready_dry_run r e1 now) h1 = (e2, h2)" by (metis surj_pair)
    note dry = dry_run_done [OF assms(1) d2]
    obtain u h3 where "run_state (enforcePolicies r e2 False) h2 = (u, h3)" by (metis surj_pair)
    with assms(2) m e1 None d2 have d: "d = dur_max (time_sub (next_wake r e2) now) 0" "e' = e2"
      by (auto simp add: reconcileReady_def run_bind_lazy)
    have spec: "Spec e2 = Spec e" "computeSchedule e2 = computeSchedule e" "dry_run_time e2 = dry_run_time e1"
      using mail dry by (simp_all add: computeSchedule_def dry_run_time_def fun_eq_iff)
    have "now < next_wake r e2 \<and> next_wake r e2 \<le> Unlock (Schedule (Spec e2))"
      using mail dry by (intro next_wake_bounds) (auto simp: spec assms(3))
    with wait_in_time [of now "next_wake r e2" "next_wake r e2"] assms(4)
    have "0 < nanos d \<and> now + nanos d \<le> next_wake r e2" "next_wake r e2 \<le> Unlock (Schedule (Spec e))"
      by (simp_all add: d spec)
    with next_wake_in_time [of "now + nanos d" r e2] d(2) show ?thesis by simp
  qed
qed

text \<open>
  C14: no phase is slept through: an error-free pass before the end of the phase it works in
  asks for another pass, and not later than that end nor, in Ready, than the mails and the dry
  run that the exam it leaves still owes. The one exception is a pass that sent a mail, which asks
  for the next pass after exactly the send interval of the exam (one second if none is set), even
  if the exam unlocks earlier.
\<close>
theorem wakes_before_phase_ends:
  assumes "condition_api r" "run_state (dispatch r e now) h = (Returns (e', d, None), h')"
    and "phase_deadline e = Some t" "now < t" "t - now \<le> max_int64"
  shows "0 < nanos d \<and>
    (now + nanos d \<le> t \<and> (ExPhase (ExStatus e) = PhaseReady \<longrightarrow> in_time_for_duties r e' (now + nanos d)) \<or>
     ExPhase (ExStatus e) = PhaseReady \<and> mailed e e' \<and>
       d = (if sint (SendInterval (SpecEmail (Spec e))) \<le> 0 then Second else SendInterval (SpecEmail (Spec e))))"
proof (cases "ExPhase (ExStatus e)")
  case PhasePending
  with assms wait_in_time [of now t t] show ?thesis by (auto simp add: dispatch_def phase_deadline_def)
next
  case PhaseReady
  with assms have "run_state (reconcileReady r e now) h = (Returns (e', d, None), h')"
    "t = Unlock (Schedule (Spec e))"
    by (simp_all add: dispatch_def phase_deadline_def)
  with reconcileReady_wakes [OF assms(1) this(1)] assms(4,5) PhaseReady show ?thesis by simp
next
  case PhaseUnlocked
  with assms(2,3) have run: "run_state (reconcileUnlock r e now) h = (Returns (e', d, None), h')"
    "ComputedLockTime (ExStatus e) = Some t"
    by (simp_all add: dispatch_def phase_deadline_def)
  have "emits (footprint r e True (\<lambda>_. True) (\<lambda>_. True)) (reconcileUnlock r e now)
      (go_post (ComputedLockTime (ExStatus e) = None) (\<lambda>(e', d, err). moves_on e e' \<and> err = None))"
    by (rule fp_reconcileUnlock) simp
  from emitsD [OF this run(1)] have "ComputedLockTime (ExStatus e') = Some t"
    using same_examD(13) [OF moves_onD] run(2) by force
  moreover have "\<exists>lt. ComputedLockTime (ExStatus e') = Some lt \<and> d = dur_max (time_sub lt now) 0"
    using run(1) by (auto simp: reconcileUnlock_def run_bind_lazy Let_def split: prod.splits option.splits)
  ultimately show ?thesis using wait_in_time [of now t t] assms(4,5) PhaseUnlocked by simp
next
  case PhaseLocked
  with assms(2,3) have run: "run_state (reconcileLocked r e now) h = (Returns (e', d, None), h')"
    "RetentionDeadline (ExStatus e) = Some t"
    by (simp_all add: dispatch_def phase_deadline_def)
  have "emits (footprint r e False (\<lambda>_. True) (\<lambda>_. True)) (reconcileLocked r e now)
      (go_post (RetentionDeadline (ExStatus e) = None) (\<lambda>(e', d, err). moves_on e e'))"
    by (rule fp_reconcileLocked) simp
  from emitsD [OF this run(1)] have "RetentionDeadline (ExStatus e') = Some t"
    using same_examD(16) [OF moves_onD] run(2) by force
  moreover have "\<exists>lt. RetentionDeadline (ExStatus e') = Some lt \<and> d = dur_max (time_sub lt now) 0"
    using run(1) by (auto simp: reconcileLocked_def run_bind_lazy Let_def split: prod.splits option.splits)
  ultimately show ?thesis using wait_in_time [of now t t] assms(4,5) PhaseLocked by simp
qed (use assms(3) in \<open>simp_all add: phase_deadline_def\<close>)

theorem wakes_before_phase_ends_witness:
  "\<exists>d. 0 < nanos d \<and> - 7200000000000 + nanos d \<le> provisionTime (computeSchedule (sample_exam PhasePending))"
proof -
  let ?e = "sample_exam PhasePending" and ?r = "sample_reconciler (sample_exam PhasePending) 0"
  have t: "provisionTime (computeSchedule ?e) = - 3600000000000" by (simp add: sample_exam_def)
  obtain e' d h' where *: "run_state (dispatch ?r ?e (- 7200000000000)) [] = (Returns (e', d, None), h')"
    by (simp add: dispatch_def sample_exam_def)
  have "phase_deadline ?e = Some (- 3600000000000)" by (simp add: phase_deadline_def t) (simp add: sample_exam_def)
  from wakes_before_phase_ends [OF sample_condition_api * this] t show ?thesis
    by (auto simp: max_int64_def sample_exam_def)
qed


section \<open>Spare slugs\<close>

lemma create_each_succeeds:
  "(\<And>h x. cl_Create r h x \<in> {None, Some AlreadyExists}) \<Longrightarrow> fst (run_state (create_each r xs) h) = None"
proof (induction xs arbitrary: h)
  case (Cons x xs)
  have "ignore_exists (cl_Create r h x) = None"
    using Cons.prems [of h x] by (auto simp: ignore_exists_def IsAlreadyExists_def)
  with Cons show ?case by (simp add: run_bind_lazy rCreate_def)
qed simp

lemma run_provisionInstance:
  assumes "\<And>h x. cl_Create r h x \<in> {None, Some AlreadyExists}"
  obtains h' where "run_state (provisionInstance r e ns sid s) h = (None, h')"
  using create_each_succeeds [OF assms] unfolding provisionInstance_def by (metis prod.collapse)

lemma run_observe: "run_state (observe_provision r e w who) h = ((), snd (run_state (observe_provision r e w who) h))"
  by (simp add: prod_eq_iff)

lemma provision_spare_step:
  assumes "\<And>h x. cl_Create r h x \<in> {None, Some AlreadyExists}"
    and "run_state (findOrGenerateSpareSlug r e ns i) h = (Inr s, h1)"
  obtains h2 where "run_state (provision_spares r ns (i # is) e ok) h =
    run_state (provision_spares r ns is (setSpareStatus r e i s StudentProvisioned) ok) h2"
proof -
  obtain h' where "run_state (provisionInstance r e ns '''' s) h1 = (None, h')"
    using run_provisionInstance [OF assms(1)] .
  then have "run_state (provision_spares r ns (i # is) e ok) h =
      run_state (provision_spares r ns is (setSpareStatus r e i s StudentProvisioned) ok)
        (snd (run_state (observe_provision r (setSpareStatus r e i s StudentProvisioned) (was_spare_provisioned e i) s) h'))"
    using assms(2) by (simp add: run_bind_lazy Let_def case_prod_beta)
  then show ?thesis by (rule that)
qed

text \<open>
  C25: two spares can be given one instance: if the first spare is recorded with slug \<open>s\<close> and
  a listing still shows the deployment of an unrecorded spare whose slug sorts before \<open>s\<close>, the
  second spare takes \<open>s\<close> as well, and both records keep it. The slug lookup by sorted position
  does not leave out the slugs that other spares already have.
\<close>
theorem spares_share_one_slug:
  assumes "StatusSpares (ExStatus e) = [sp]" "SpareSlug sp = s" "s \<noteq> ''''"
    and "\<And>h. cl_List r h DeploymentKind ns (OwnerLabels e) = Inr items" "spare_slugs items = [t, s]"
    and "\<And>h x. cl_Create r h x \<in> {None, Some AlreadyExists}"
  shows "\<exists>e' h'. run_state (provision_spares r ns [0, 1] e ok) h = ((e', ok, None), h') \<and>
    map SpareSlug (StatusSpares (ExStatus e')) = [s, s]"
proof -
  let ?e1 = "setSpareStatus r e 0 s StudentProvisioned"
  have 1: "run_state (findOrGenerateSpareSlug r e ns 0) h = (Inr s, h)"
    using assms(1-3) by (simp add: findOrGenerateSpareSlug_def)
  have one: "StatusSpares (ExStatus ?e1) = [\<lparr>SpareSlug = s, SpareURL = instanceURL r s, SparePhase = StudentProvisioned\<rparr>]"
    using assms(1) by (simp add: setSpareStatus_def padded_def)
  have "OwnerLabels ?e1 = OwnerLabels e" by (simp add: setSpareStatus_def)
  with one assms(4,5) have 2: "run_state (findOrGenerateSpareSlug r ?e1 ns 1) h1 =
      (Inr s, EvList DeploymentKind ns (OwnerLabels e) (Inr items) # h1)" for h1
    by (simp add: findOrGenerateSpareSlug_def examResourceSelector_def examResourceLabels_def rList_def run_bind_lazy)
  obtain h2 where h2: "run_state (provision_spares r ns [0, 1] e ok) h = run_state (provision_spares r ns [1] ?e1 ok) h2"
    using provision_spare_step [OF assms(6) 1] .
  obtain h3 where h3: "run_state (provision_spares r ns [1] ?e1 ok) h2 =
      run_state (provision_spares r ns [] (setSpareStatus r ?e1 1 s StudentProvisioned) ok) h3"
    using provision_spare_step [OF assms(6) 2] .
  have "map SpareSlug (StatusSpares (ExStatus (setSpareStatus r ?e1 1 s StudentProvisioned))) = [s, s]"
    using one by (simp add: setSpareStatus_def [of r ?e1] padded_def)
  with h2 h3 show ?thesis by simp
qed

theorem spares_share_one_slug_witness:
  "\<exists>r e e' h'. run_state (provision_spares r ''ns'' [0, 1] e True) [] = ((e', True, None), h') \<and>
    map SpareSlug (StatusSpares (ExStatus e')) = [''zzzzzzzz'', ''zzzzzzzz'']"
proof -
  let ?e = "sample_with (zero_status\<lparr>StatusSpares := [\<lparr>SpareSlug = ''zzzzzzzz'', SpareURL = '''', SparePhase = StudentProvisioned\<rparr>]\<rparr>)"
  let ?d = "\<lambda>s. KDeployment \<lparr>ObjName = s, ObjNamespace = ''ns'', ObjLabels = [LabelSlug \<mapsto> s]\<rparr>
    \<lparr>Replicas = 1, MatchLabels = Map.empty, TemplateLabels = Map.empty, AutomountServiceAccountToken = None,
     Containers = []\<rparr> 1"
  let ?r = "(sample_reconciler ?e 0)\<lparr>cl_List := \<lambda>h k n sel. Inr [?d ''zzzzzzzz'', ?d ''aaaaaaaa'']\<rparr>"
  have "spare_slugs [?d ''zzzzzzzz'', ?d ''aaaaaaaa''] = [''aaaaaaaa'', ''zzzzzzzz'']"
    by (simp add: spare_slugs_def map_get_def)
  then have "\<exists>e' h'. run_state (provision_spares ?r ''ns'' [0, 1] ?e True) [] = ((e', True, None), h') \<and>
      map SpareSlug (StatusSpares (ExStatus e')) = [''zzzzzzzz'', ''zzzzzzzz'']"
    by (intro spares_share_one_slug [where items = "[?d ''zzzzzzzz'', ?d ''aaaaaaaa'']" and t = "''aaaaaaaa''"
        and sp = "\<lparr>SpareSlug = ''zzzzzzzz'', SpareURL = '''', SparePhase = StudentProvisioned\<rparr>"]) simp_all
  then show ?thesis by - (rule exI [of _ ?r], rule exI [of _ ?e], assumption)
qed

end
