(* ===== verification/Cluster.thy ===== *)
theory Cluster
  imports Outcomes
begin

text \<open>
  The controller against the contents of the cluster. The store of the API server is a map
  from keys to objects, changed by the calls the server accepted; a log is truthful if the
  server's answers agree with that store: a creation succeeds only for a new key and is
  refused as existing only for a stored one, a deletion finds nothing only when nothing is
  stored, a listing returns exactly the stored objects asked for. Calls may fail with any
  other error at any time. Objects are written by the controller only. What a deleted
  namespace takes with it later is not part of the store.
\<close>

section \<open>The store\<close>

type_synonym store = "okey \<Rightarrow> kobj option"

fun apply_event :: "event \<Rightarrow> store \<Rightarrow> store" where
  "apply_event (EvCreate x None) \<sigma> = \<sigma>(obj_key x \<mapsto> x)"
| "apply_event (EvApply x None) \<sigma> = \<sigma>(obj_key x \<mapsto> x)"
| "apply_event (EvDelete k None) \<sigma> = \<sigma>(k := None)"
| "apply_event _ \<sigma> = \<sigma>"

fun cluster :: "store \<Rightarrow> log \<Rightarrow> store" where
  "cluster \<sigma> [] = \<sigma>"
| "cluster \<sigma> (ev # h) = apply_event ev (cluster \<sigma> h)"

fun answer_ok :: "store \<Rightarrow> event \<Rightarrow> bool" where
  "answer_ok \<sigma> (EvCreate x None) \<longleftrightarrow> \<sigma> (obj_key x) = None"
| "answer_ok \<sigma> (EvCreate x (Some a)) \<longleftrightarrow> (a = AlreadyExists \<longrightarrow> \<sigma> (obj_key x) \<noteq> None)"
| "answer_ok \<sigma> (EvDelete k (Some a)) \<longleftrightarrow> (a = NotFound \<longrightarrow> \<sigma> k = None)"
| "answer_ok \<sigma> (EvList kd n sel (Inr xs)) \<longleftrightarrow>
     (\<forall>x. x \<in> set xs \<longleftrightarrow> \<sigma> (obj_key x) = Some x \<and> obj_kind x = kd \<and> ObjNamespace (obj_meta x) = n \<and>
        selected_by sel (obj_labels x))"
| "answer_ok \<sigma> _ \<longleftrightarrow> True"

fun truthful :: "store \<Rightarrow> log \<Rightarrow> bool" where
  "truthful \<sigma> [] \<longleftrightarrow> True"
| "truthful \<sigma> (ev # h) \<longleftrightarrow> answer_ok (cluster \<sigma> h) ev \<and> truthful \<sigma> h"

lemma cluster_append: "cluster \<sigma> (es @ h) = cluster (cluster \<sigma> h) es"
  by (induction es) simp_all

lemma truthful_append: "truthful \<sigma> (es @ h) \<longleftrightarrow> truthful (cluster \<sigma> h) es \<and> truthful \<sigma> h"
  by (induction es) (auto simp: cluster_append)

lemma apply_other: "write_key ev \<noteq> Some k \<Longrightarrow> apply_event ev \<sigma> k = \<sigma> k"
  by (induction ev \<sigma> rule: apply_event.induct) auto

lemma cluster_other: "(\<And>ev. ev \<in> set es \<Longrightarrow> write_key ev \<noteq> Some k) \<Longrightarrow> cluster \<sigma> es k = \<sigma> k"
  by (induction es) (auto simp: apply_other)

fun deletes_key :: "event \<Rightarrow> okey \<Rightarrow> bool" where
  "deletes_key (EvDelete k' _) k \<longleftrightarrow> k' = k"
| "deletes_key _ k \<longleftrightarrow> False"

lemma apply_keeps: "\<sigma> k \<noteq> None \<Longrightarrow> \<not> deletes_key ev k \<Longrightarrow> apply_event ev \<sigma> k \<noteq> None"
  by (induction ev \<sigma> rule: apply_event.induct) auto

lemma cluster_keeps: "\<sigma> k \<noteq> None \<Longrightarrow> (\<And>ev. ev \<in> set es \<Longrightarrow> \<not> deletes_key ev k) \<Longrightarrow> cluster \<sigma> es k \<noteq> None"
  by (induction es) (auto simp: apply_keeps)

lemma apply_absent: "\<sigma> k = None \<Longrightarrow> (\<And>x. created ev = Some x \<Longrightarrow> obj_key x \<noteq> k) \<Longrightarrow> apply_event ev \<sigma> k = None"
  by (induction ev \<sigma> rule: apply_event.induct) auto

lemma cluster_absent:
  "\<sigma> k = None \<Longrightarrow> (\<And>ev x. ev \<in> set es \<Longrightarrow> created ev = Some x \<Longrightarrow> obj_key x \<noteq> k) \<Longrightarrow> cluster \<sigma> es k = None"
proof (induction es)
  case (Cons ev es)
  then have "cluster \<sigma> es k = None" by auto
  moreover have "\<And>x. created ev = Some x \<Longrightarrow> obj_key x \<noteq> k" using Cons.prems(2) [of ev] by simp
  ultimately show ?case by (simp add: apply_absent)
qed simp

text \<open>Calls without an unexpected error.\<close>

definition accepted :: "log \<Rightarrow> bool" where
  "accepted es \<longleftrightarrow> (\<forall>x a. EvCreate x (Some a) \<in> set es \<longrightarrow> a = AlreadyExists) \<and>
     (\<forall>k a. EvDelete k (Some a) \<in> set es \<longrightarrow> a = NotFound)"

lemma created_stays:
  assumes "truthful \<sigma> es" "EvCreate x res \<in> set es" "res \<in> {None, Some AlreadyExists}"
    and "\<And>ev. ev \<in> set es \<Longrightarrow> \<not> deletes_key ev (obj_key x)"
  shows "cluster \<sigma> es (obj_key x) \<noteq> None"
proof -
  from assms(2) obtain es1 es2 where es: "es = es2 @ EvCreate x res # es1"
    by (meson split_list)
  have "answer_ok (cluster \<sigma> es1) (EvCreate x res)"
    using assms(1) by (simp add: es truthful_append)
  with assms(3) have "cluster \<sigma> (EvCreate x res # es1) (obj_key x) \<noteq> None" by auto
  then show ?thesis
    unfolding es cluster_append by (rule cluster_keeps) (use assms(4) es in auto)
qed

lemma created_present:
  assumes "truthful \<sigma> es" "accepted es" "EvCreate x res \<in> set es"
    and "\<And>ev. ev \<in> set es \<Longrightarrow> \<not> deletes_key ev (obj_key x)"
  shows "cluster \<sigma> es (obj_key x) \<noteq> None"
proof (rule created_stays [OF assms(1,3) _ assms(4)])
  show "res \<in> {None, Some AlreadyExists}" using assms(2,3) by (cases res) (auto simp: accepted_def)
qed

lemma deleted_absent:
  assumes "truthful \<sigma> es" "accepted es" "EvDelete k res \<in> set es"
    and "\<And>ev x. ev \<in> set es \<Longrightarrow> created ev = Some x \<Longrightarrow> obj_key x \<noteq> k"
  shows "cluster \<sigma> es k = None"
proof -
  from assms(3) obtain es1 es2 where es: "es = es2 @ EvDelete k res # es1"
    by (meson split_list)
  have "res = None \<or> res = Some NotFound"
    using assms(2,3) unfolding accepted_def by (metis option.exhaust)
  moreover have "answer_ok (cluster \<sigma> es1) (EvDelete k res)"
    using assms(1) by (simp add: es truthful_append)
  ultimately have "cluster \<sigma> (EvDelete k res # es1) k = None" by auto
  then show ?thesis
    unfolding es cluster_append by (rule cluster_absent) (use assms(4) es in auto)
qed

section \<open>The requests of the drift correction\<close>

text \<open>The creations and deletions of a log, oldest first, without their answers.\<close>

fun asked :: "event \<Rightarrow> (kobj + okey) option" where
  "asked (EvCreate x _) = Some (Inl x)"
| "asked (EvDelete k _) = Some (Inr k)"
| "asked _ = None"

definition requests :: "log \<Rightarrow> (kobj + okey) list" where
  "requests es = List.map_filter asked (rev es)"

lemma requests_simps [simp]:
  "requests [] = []" "requests (ev # es) = requests es @ (case asked ev of None \<Rightarrow> [] | Some q \<Rightarrow> [q])"
  "requests (es2 @ es1) = requests es1 @ requests es2"
  by (auto simp: requests_def List.map_filter_def split: option.splits)

lemma set_requests: "q \<in> set (requests es) \<longleftrightarrow> (\<exists>ev \<in> set es. asked ev = Some q)"
  by (auto simp: requests_def List.map_filter_def) (metis (mono_tags, lifting) mem_Collect_eq option.distinct(1) option.sel image_iff)

text \<open>The reference: what is asked for one instance.\<close>

definition policy_requests :: "reconciler \<Rightarrow> exam \<Rightarrow> bool \<Rightarrow> string \<times> string \<Rightarrow> (kobj + okey) list" where
  "policy_requests r e unlocked entry =
     (case entry of (sid, s) \<Rightarrow>
       let l = policyLabels e sid s; p = PolicyProvider r; n = exam_ns e in
       [Inl (DenyAll p n l), Inl (EgressAllowlist p n l)] @
       (if unlocked
        then [Inl (Ingress e n sid s (BaseDomain (Platform r)) (IngressTLSSecretName (Platform r))), Inl (IngressAllow p n l)]
        else [Inr (obj_key (IngressAllow p n l))]))"

text \<open>The events of one drift correction.\<close>

definition enforced :: "reconciler \<Rightarrow> exam \<Rightarrow> bool \<Rightarrow> (string \<times> string) list \<Rightarrow> log \<Rightarrow> bool" where
  "enforced r e unlocked entries es \<longleftrightarrow>
     requests es = concat (map (policy_requests r e unlocked) entries) \<and>
     (\<forall>x res. EvApply x res \<in> set es \<longrightarrow> obj_kind x = SecretKind)"

lemma runs_rCreate: "runs h (rCreate r x) (\<lambda>es res. es = [EvCreate x res])"
  by (auto simp: rCreate_def intro!: runs_ask)

lemma runs_enforce_entry: "runs h (enforce_entry r e u x) (\<lambda>es _. enforced r e u [x] es)"
proof -
  obtain sid s where x: "x = (sid, s)" by (cases x)
  show ?thesis
    by (cases u)
      (auto simp: enforce_entry_def x Let_def enforced_def policy_requests_def exam_ns_def
        intro!: runs_bind [OF runs_rCreate] runs_bind [OF runs_rDelete] runs_ret)
qed

lemma enforced_append:
  "enforced r e u xs es1 \<Longrightarrow> enforced r e u ys es2 \<Longrightarrow> enforced r e u (xs @ ys) (es2 @ es1)"
  by (auto simp: enforced_def)

lemma runs_enforce_entries: "runs h (enforce_entries r e u xs) (\<lambda>es _. enforced r e u xs es)"
proof (induction xs arbitrary: h)
  case Nil
  then show ?case by (auto simp: enforced_def intro!: runs_ret)
next
  case (Cons x xs)
  show ?case
    unfolding enforce_entries.simps
    by (rule runs_bind [OF runs_enforce_entry], rule runs_conseq [OF Cons.IH])
      (use enforced_append [of r e u "[x]" _ xs] in simp)
qed

lemma runs_tls:
  "runs h (reconcilePlatformTLSSecret r e ns) (\<lambda>es _. enforced r e' u [] es)"
proof -
  have "runs h (rGetSecret r k) (\<lambda>es res. es = [EvGetSecret k res])" for k h
    by (auto simp: rGetSecret_def intro!: runs_ask)
  note get = this
  have put: "runs h (rCreateOrUpdate r x) (\<lambda>es res. es = [EvApply x res])" for x h
    by (auto simp: rCreateOrUpdate_def intro!: runs_ask)
  show ?thesis
  proof (cases "IngressTLSSecretName (Platform r) = ''''")
    case True
    then show ?thesis by (auto simp: reconcilePlatformTLSSecret_def enforced_def intro!: runs_ret)
  next
    case False
    then show ?thesis
      unfolding reconcilePlatformTLSSecret_def Let_def if_not_P [OF False]
      by (intro runs_bind [OF get])
        (auto simp: enforced_def intro!: runs_ret runs_bind [OF put] split: sum.splits)
  qed
qed

lemma runs_enforcePolicies: "runs h (enforcePolicies r e u) (\<lambda>es _. enforced r e u (collectSlugs e) es)"
  unfolding enforcePolicies_def
  by (rule runs_bind [OF runs_tls], rule runs_conseq [OF runs_enforce_entries])
    (use enforced_append [of r e u "[]"] in fastforce)


section \<open>The cluster after a drift correction\<close>

lemma policy_keys [simp]:
  "obj_key (DenyAll p n l) = (policy_kind p, n, slugFromLabels l @ ''-deny-all'')"
  "obj_key (EgressAllowlist p n l) = (policy_kind p, n, slugFromLabels l @ ''-egress-allow'')"
  "obj_key (IngressAllow p n l) = (policy_kind p, n, slugFromLabels l @ ''-ingress-allow'')"
  by (simp_all add: provider.deny_key provider.egress_key provider.ingress_key)

lemma ingress_obj_key [simp]: "obj_key (Ingress e n sid s bd tls) = (IngressKind, n, s)"
  by (simp add: obj_key_def)

lemma policy_kind_apart [simp]: "policy_kind p \<noteq> SecretKind" "policy_kind p \<noteq> IngressKind"
  by (cases p; simp)+

lemmas suffixes_apart = vanilla.suffixes_differ vanilla.suffixes_differ [symmetric]

lemma enforced_asked:
  assumes "enforced r e u xs es" "x \<in> set xs" "q \<in> set (policy_requests r e u x)"
  obtains ev where "ev \<in> set es" "asked ev = Some q"
proof -
  have "q \<in> set (requests es)" using assms by (auto simp: enforced_def)
  then show ?thesis using that by (auto simp: set_requests)
qed

lemma asked_iff:
  "asked ev = Some (Inl x) \<longleftrightarrow> (\<exists>res. ev = EvCreate x res)"
  "asked ev = Some (Inr k) \<longleftrightarrow> (\<exists>res. ev = EvDelete k res)"
  by (cases ev; simp)+

lemma enforced_created:
  assumes "enforced r e u xs es" "x \<in> set xs" "Inl ob \<in> set (policy_requests r e u x)"
  obtains res where "EvCreate ob res \<in> set es"
  using enforced_asked [OF assms] by (metis asked_iff(1))

lemma enforced_deleted:
  assumes "enforced r e u xs es" "x \<in> set xs" "Inr k \<in> set (policy_requests r e u x)"
  obtains res where "EvDelete k res \<in> set es"
  using enforced_asked [OF assms] by (metis asked_iff(2))

lemma enforced_only:
  assumes "enforced r e u xs es" "ev \<in> set es" "asked ev = Some q"
  obtains sid s where "(sid, s) \<in> set xs" "q \<in> set (policy_requests r e u (sid, s))"
proof -
  have "q \<in> set (requests es)" using assms(2,3) by (auto simp: set_requests)
  with assms(1) have "\<exists>x \<in> set xs. q \<in> set (policy_requests r e u x)" by (auto simp: enforced_def)
  with that show ?thesis by (metis surj_pair)
qed

text \<open>Deletions are those of ingress policies, of a closed exam; creations are never those.\<close>

lemma enforced_deletes:
  assumes "enforced r e u xs es" "ev \<in> set es" "deletes_key ev k"
  shows "\<not> u \<and> (\<exists>s. k = (policy_kind (PolicyProvider r), exam_ns e, s @ ''-ingress-allow''))"
proof -
  have "asked ev = Some (Inr k)" using assms(3) by (cases ev) auto
  from enforced_only [OF assms(1,2) this] obtain sid s where "Inr k \<in> set (policy_requests r e u (sid, s))" .
  then have "\<not> u" "k = (policy_kind (PolicyProvider r), exam_ns e, s @ ''-ingress-allow'')"
    by (simp_all add: policy_requests_def Let_def split: if_splits)
  then show ?thesis by blast
qed

lemma enforced_creates:
  assumes "enforced r e u xs es" "ev \<in> set es" "created ev = Some x"
  shows "fst (obj_key x) = SecretKind \<or> (\<exists>sid s. (sid, s) \<in> set xs \<and> Inl x \<in> set (policy_requests r e u (sid, s)))"
proof (cases ev)
  case (EvCreate y res)
  with assms(3) have "asked ev = Some (Inl x)" by simp
  from enforced_only [OF assms(1,2) this] show ?thesis by blast
next
  case (EvApply y res)
  with assms show ?thesis by (auto simp: enforced_def obj_key_def)
qed (use assms(3) in auto)

definition settled_instance :: "reconciler \<Rightarrow> exam \<Rightarrow> bool \<Rightarrow> store \<Rightarrow> string \<times> string \<Rightarrow> bool" where
  "settled_instance r e unlocked \<sigma> entry \<longleftrightarrow>
     (case entry of (sid, s) \<Rightarrow>
       let k = policy_kind (PolicyProvider r); n = exam_ns e in
       \<sigma> (k, n, s @ ''-deny-all'') \<noteq> None \<and> \<sigma> (k, n, s @ ''-egress-allow'') \<noteq> None \<and>
       (if unlocked then \<sigma> (IngressKind, n, s) \<noteq> None \<and> \<sigma> (k, n, s @ ''-ingress-allow'') \<noteq> None
        else \<sigma> (k, n, s @ ''-ingress-allow'') = None))"

lemma enforced_settled:
  assumes "enforced r e u xs es" "truthful \<sigma> es" "accepted es" "(sid, s) \<in> set xs"
  shows "settled_instance r e u (cluster \<sigma> es) (sid, s)"
proof -
  let ?p = "PolicyProvider r" and ?n = "exam_ns e" and ?l = "policyLabels e sid s"
  have present: "cluster \<sigma> es (obj_key x) \<noteq> None"
    if x: "Inl x \<in> set (policy_requests r e u (sid, s))"
      "u \<or> (\<forall>s'. obj_key x \<noteq> (policy_kind ?p, ?n, s' @ ''-ingress-allow''))" for x
  proof -
    obtain res where "EvCreate x res \<in> set es" using enforced_created [OF assms(1,4) x(1)] .
    then show ?thesis
      by (rule created_present [OF assms(2,3)]) (use x(2) enforced_deletes [OF assms(1)] in blast)
  qed
  have req: "Inl (DenyAll ?p ?n ?l) \<in> set (policy_requests r e u (sid, s))"
    "Inl (EgressAllowlist ?p ?n ?l) \<in> set (policy_requests r e u (sid, s))"
    "u \<Longrightarrow> Inl (Ingress e ?n sid s (BaseDomain (Platform r)) (IngressTLSSecretName (Platform r)))
      \<in> set (policy_requests r e u (sid, s))"
    "u \<Longrightarrow> Inl (IngressAllow ?p ?n ?l) \<in> set (policy_requests r e u (sid, s))"
    "\<not> u \<Longrightarrow> Inr (obj_key (IngressAllow ?p ?n ?l)) \<in> set (policy_requests r e u (sid, s))"
    by (simp_all add: policy_requests_def Let_def)
  have "cluster \<sigma> es (policy_kind ?p, ?n, s @ ''-deny-all'') \<noteq> None"
    "cluster \<sigma> es (policy_kind ?p, ?n, s @ ''-egress-allow'') \<noteq> None"
    using present [OF req(1)] present [OF req(2)] by (simp_all add: suffixes_apart)
  moreover have "cluster \<sigma> es (IngressKind, ?n, s) \<noteq> None"
    "cluster \<sigma> es (policy_kind ?p, ?n, s @ ''-ingress-allow'') \<noteq> None" if u
    using present [OF req(3) [OF that]] present [OF req(4) [OF that]] that by simp_all
  moreover have "cluster \<sigma> es (policy_kind ?p, ?n, s @ ''-ingress-allow'') = None" if u: "\<not> u"
  proof -
    obtain res where "EvDelete (policy_kind ?p, ?n, s @ ''-ingress-allow'') res \<in> set es"
      using enforced_deleted [OF assms(1,4) req(5) [OF u]] by auto
    then show ?thesis
    proof (rule deleted_absent [OF assms(2,3)])
      fix ev x
      assume "ev \<in> set es" "created ev = Some x"
      from enforced_creates [OF assms(1) this] u
      show "obj_key x \<noteq> (policy_kind ?p, ?n, s @ ''-ingress-allow'')"
        by (auto simp: policy_requests_def Let_def suffixes_apart)
    qed
  qed
  ultimately show ?thesis by (simp add: settled_instance_def Let_def)
qed

text \<open>On a settled cluster the correction changes nothing, whatever errors its calls meet.\<close>

fun idle_on :: "store \<Rightarrow> event \<Rightarrow> bool" where
  "idle_on \<sigma> (EvCreate x _) \<longleftrightarrow> \<sigma> (obj_key x) \<noteq> None \<and> obj_kind x \<noteq> SecretKind"
| "idle_on \<sigma> (EvDelete k _) \<longleftrightarrow> \<sigma> k = None"
| "idle_on \<sigma> (EvApply x _) \<longleftrightarrow> obj_kind x = SecretKind"
| "idle_on \<sigma> _ \<longleftrightarrow> True"

lemma idle_apply:
  assumes "idle_on \<sigma> ev" "\<And>k. fst k \<noteq> SecretKind \<Longrightarrow> \<tau> k = \<sigma> k" "answer_ok \<tau> ev" "fst k \<noteq> SecretKind"
  shows "apply_event ev \<tau> k = \<sigma> k"
proof -
  have "apply_event ev \<tau> k = \<tau> k"
  proof (cases "write_key ev = Some k")
    case True
    then consider x res where "ev = EvCreate x res" "k = obj_key x" | res where "ev = EvDelete k res"
      | x res where "ev = EvApply x res" "k = obj_key x"
      by (cases ev) auto
    then show ?thesis
    proof cases
      case (1 x res)
      with assms(1,3) assms(2) [OF assms(4)] show ?thesis by (cases res) auto
    next
      case (2 res)
      with assms(1) assms(2) [OF assms(4)] show ?thesis by (cases res) auto
    next
      case (3 x res)
      with assms(1,4) show ?thesis by (auto simp: obj_key_def)
    qed
  qed (rule apply_other)
  with assms(2) [OF assms(4)] show ?thesis by simp
qed

lemma idle_cluster:
  "list_all (idle_on \<sigma>) es \<Longrightarrow> truthful \<sigma> es \<Longrightarrow> fst k \<noteq> SecretKind \<Longrightarrow> cluster \<sigma> es k = \<sigma> k"
  by (induction es arbitrary: k) (auto simp: idle_apply)

lemma enforced_idle:
  assumes "enforced r e u xs es" "\<forall>x \<in> set xs. settled_instance r e u \<sigma> x"
  shows "list_all (idle_on \<sigma>) es"
  unfolding list_all_iff
proof
  fix ev
  assume ev: "ev \<in> set es"
  have s: "settled_instance r e u \<sigma> (sid, s)" if "(sid, s) \<in> set xs" for sid s
    using assms(2) that by blast
  show "idle_on \<sigma> ev"
  proof (cases ev)
    case (EvCreate x res)
    then have "asked ev = Some (Inl x)" by simp
    from enforced_only [OF assms(1) ev this] obtain sid s where
      q: "(sid, s) \<in> set xs" "Inl x \<in> set (policy_requests r e u (sid, s))" .
    have "obj_kind (DenyAll p n l) \<noteq> SecretKind \<and> obj_kind (EgressAllowlist p n l) \<noteq> SecretKind \<and>
        obj_kind (IngressAllow p n l) \<noteq> SecretKind" for p n l
      using policy_keys [of p n l] policy_kind_apart(1) [of p] by (simp add: obj_key_def)
    with q s [OF q(1)] EvCreate show ?thesis
      by (auto simp: policy_requests_def settled_instance_def Let_def split: if_splits)
  next
    case (EvDelete k res)
    then have "asked ev = Some (Inr k)" by simp
    from enforced_only [OF assms(1) ev this] obtain sid s where
      q: "(sid, s) \<in> set xs" "Inr k \<in> set (policy_requests r e u (sid, s))" .
    with s [OF q(1)] EvDelete show ?thesis
      by (auto simp: policy_requests_def settled_instance_def Let_def split: if_splits)
  next
    case (EvApply x res)
    with ev assms(1) show ?thesis by (auto simp: enforced_def)
  qed simp_all
qed


lemma emits_created:
  assumes "emits (footprint r e b M U) m Q" "run_state m h = (x, es @ h)" "ev \<in> set es" "created ev = Some ob"
  shows "exam_creates r e b ob"
proof -
  from emitsD [OF assms(1,2)] have "footprint r e b M U ev"
    using assms(3) by (auto simp: list_all_iff)
  with assms(4) show ?thesis by (cases ev) (auto simp: footprint_def)
qed


section \<open>The Unlocked and Locked passes\<close>

definition unwritten :: "log \<Rightarrow> bool" where
  "unwritten es \<longleftrightarrow> (\<forall>ev \<in> set es. write_key ev = None)"

lemma unwritten_append [simp]: "unwritten (es2 @ es1) \<longleftrightarrow> unwritten es2 \<and> unwritten es1"
  by (auto simp: unwritten_def)

lemma runs_notify: "runs h (notify_instructor r e t msg) (\<lambda>es e'. unwritten es \<and> same_exam e e')"
proof -
  have "emits (allows (\<lambda>_. False) (\<lambda>_. False) (\<lambda>_. True) (\<lambda>_. False)) (notify_instructor r e t msg) (same_exam e)"
    unfolding notify_instructor_def by (auto intro!: emit_rules emits_bind_True same_exam_upd)
  moreover have "allows (\<lambda>_. False) (\<lambda>_. False) (\<lambda>_. True) (\<lambda>_. False) ev \<Longrightarrow> write_key ev = None" for ev
    by (cases ev) simp_all
  ultimately have "emits (\<lambda>ev. write_key ev = None) (notify_instructor r e t msg) (same_exam e)"
    by (rule emits_conseq) simp
  then show ?thesis
    by (simp add: emits_def unwritten_def list_all_iff)
qed

text \<open>The Ingresses of a closed exam: one listing, then the deletion of what it returned.\<close>

definition cleared :: "exam \<Rightarrow> log \<Rightarrow> bool" where
  "cleared e es \<longleftrightarrow> (\<exists>xs es'. es = es' @ [EvList IngressKind (exam_ns e) (OwnerLabels e) (Inr xs)] \<and>
     (\<forall>ev \<in> set es'. \<exists>x \<in> set xs. \<exists>res. ev = EvDelete (obj_key x) res) \<and> (\<forall>x \<in> set xs. deleted_in es' x))"

lemma runs_deleteIngresses:
  "runs h (deleteIngresses r e (exam_ns e)) (\<lambda>es err. err = None \<longrightarrow> cleared e es)"
  unfolding deleteIngresses_def examResourceSelector_def examResourceLabels_def
proof (rule runs_bind [OF runs_rList], goal_cases)
  case (1 es found)
  then show ?case
    by (cases found) (auto simp: cleared_def intro!: runs_ret runs_conseq [OF runs_delete_each])
qed

definition locked_log :: "reconciler \<Rightarrow> exam \<Rightarrow> log \<Rightarrow> bool" where
  "locked_log r e es \<longleftrightarrow>
     (\<exists>es1 es2 es3. es = es3 @ es2 @ es1 \<and> enforced r e False (collectSlugs e) es1 \<and> cleared e es2 \<and> unwritten es3)"

definition unlocked_log :: "reconciler \<Rightarrow> exam \<Rightarrow> log \<Rightarrow> bool" where
  "unlocked_log r e es \<longleftrightarrow>
     (\<exists>es1 es2. es = es2 @ es1 \<and> enforced r e True (collectSlugs e) es1 \<and> unwritten es2)"

lemma runs_reconcileLocked:
  "runs h (reconcileLocked r e now) (\<lambda>es out. (\<exists>e' d. out = Returns (e', d, None)) \<longrightarrow> locked_log r e es)"
  unfolding reconcileLocked_def Let_def exam_ns_def [symmetric]
proof (rule runs_bind [OF runs_enforcePolicies], goal_cases)
  case (1 es1 u)
  show ?case
  proof (rule runs_bind [OF runs_deleteIngresses], goal_cases)
    case (1 es2 err)
    show ?case
    proof (cases err)
      case None
      have log: "locked_log r e (es3 @ es2 @ es1)" if "unwritten es3" for es3
        unfolding locked_log_def using \<open>enforced _ _ _ _ es1\<close> 1 None that by blast
      have rest: "runs (es2 @ es1 @ h) (notify_instructor r (set_phases StudentLocked e) t msg \<bind> f)
          (\<lambda>es out. (\<exists>e' d. out = Returns (e', d, None)) \<longrightarrow> locked_log r e ((es @ es2) @ es1))"
        if f: "\<And>h x. runs h (f x) (\<lambda>es (out :: handled go). es = [])" for t msg f
        by (rule runs_bind [OF runs_notify], rule runs_conseq [OF f]) (simp add: log)
      from None show ?thesis by (simp del: append_assoc, intro rest) (auto intro!: runs_ret split: option.splits)
    next
      case (Some a)
      then show ?thesis by (auto intro!: runs_ret)
    qed
  qed
qed

lemma runs_reconcileUnlock:
  "runs h (reconcileUnlock r e now) (\<lambda>es out. unlocked_log r e es)"
  unfolding reconcileUnlock_def Let_def
proof (rule runs_bind [OF runs_enforcePolicies], goal_cases)
  case (1 es1 u)
  show ?case
  proof (rule runs_bind [OF runs_notify], goal_cases)
    case (1 es2 e2)
    then have "unlocked_log r e (es2 @ es1)"
      unfolding unlocked_log_def using \<open>enforced _ _ _ _ es1\<close> by blast
    then show ?case by (auto intro!: runs_ret split: option.splits)
  qed
qed

text \<open>Only the ingress routes change after the drift correction of a Locked pass.\<close>

lemma cluster_unwritten: "unwritten es \<Longrightarrow> cluster \<sigma> es = \<sigma>"
  by (auto simp: unwritten_def intro!: ext cluster_other)

lemma settled_instance_cong:
  assumes "\<And>k. fst k = policy_kind (PolicyProvider r) \<or> fst k = IngressKind \<and> u \<Longrightarrow> \<tau> k = \<sigma> k"
  shows "settled_instance r e u \<tau> x = settled_instance r e u \<sigma> x"
  using assms by (cases x) (simp add: settled_instance_def Let_def)

lemma accepted_append: "accepted (es2 @ es1) \<longleftrightarrow> accepted es2 \<and> accepted es1"
  by (auto simp: accepted_def)

lemma cleared_cluster:
  assumes "cleared e es" "truthful \<sigma> es" "\<And>k x. \<sigma> k = Some x \<Longrightarrow> obj_key x = k"
  shows "fst k \<noteq> IngressKind \<Longrightarrow> cluster \<sigma> es k = \<sigma> k"
    and "cluster \<sigma> es k = Some x \<Longrightarrow> obj_kind x = IngressKind \<Longrightarrow> ObjNamespace (obj_meta x) = exam_ns e \<Longrightarrow>
      \<not> selected_by (OwnerLabels e) (obj_labels x)"
proof -
  obtain xs es' where es: "es = es' @ [EvList IngressKind (exam_ns e) (OwnerLabels e) (Inr xs)]"
    and del: "\<forall>ev \<in> set es'. \<exists>x \<in> set xs. \<exists>res. ev = EvDelete (obj_key x) res" "\<forall>x \<in> set xs. deleted_in es' x"
    using assms(1) unfolding cleared_def by blast
  have t: "truthful \<sigma> es'" and listed: "\<And>x. x \<in> set xs \<longleftrightarrow> \<sigma> (obj_key x) = Some x \<and> obj_kind x = IngressKind \<and>
      ObjNamespace (obj_meta x) = exam_ns e \<and> selected_by (OwnerLabels e) (obj_labels x)"
    using assms(2) by (auto simp: es truthful_append)
  show "cluster \<sigma> es k = \<sigma> k" if "fst k \<noteq> IngressKind"
    unfolding es cluster_append
    by (simp, rule cluster_other) (use del(1) listed that in \<open>fastforce simp: obj_key_def\<close>)
  show "\<not> selected_by (OwnerLabels e) (obj_labels x)"
    if "cluster \<sigma> es k = Some x" "obj_kind x = IngressKind" "ObjNamespace (obj_meta x) = exam_ns e"
  proof
    assume sel: "selected_by (OwnerLabels e) (obj_labels x)"
    have quiet: "ev \<in> set es' \<Longrightarrow> created ev = None" for ev
      using del(1) by fastforce
    have c: "cluster \<sigma> es' k = Some x" using that(1) by (simp add: es cluster_append)
    have shrink: "cluster \<sigma> ds k = Some x \<Longrightarrow> \<sigma> k = Some x" if "\<And>ev. ev \<in> set ds \<Longrightarrow> created ev = None" for ds
      using that
    proof (induction ds)
      case (Cons ev ds)
      have "created ev = None" using Cons.prems(2) by simp
      with Cons.prems(1) have "cluster \<sigma> ds k = Some x"
        by (induction ev "cluster \<sigma> ds" rule: apply_event.induct) (auto split: if_splits)
      with Cons show ?case by simp
    qed simp
    from c have stored: "\<sigma> k = Some x" by (rule shrink [rotated]) (rule quiet)
    with assms(3) have k: "obj_key x = k" by blast
    with stored that sel have "x \<in> set xs" by (simp add: listed)
    with del(2) obtain res where "EvDelete k res \<in> set es'" "res \<in> {None, Some NotFound}"
      by (auto simp: deleted_in_def k)
    then have "cluster \<sigma> es' k = None"
    proof -
      obtain ds1 ds2 where ds: "es' = ds2 @ EvDelete k res # ds1"
        using \<open>EvDelete k res \<in> set es'\<close> by (meson split_list)
      have "answer_ok (cluster \<sigma> ds1) (EvDelete k res)" using t by (simp add: ds truthful_append)
      with \<open>res \<in> _\<close> have "cluster \<sigma> (EvDelete k res # ds1) k = None" by auto
      then have "cluster \<sigma> (ds2 @ EvDelete k res # ds1) k = None"
        unfolding cluster_append by (rule cluster_absent) (use quiet in \<open>force simp: ds\<close>)
      then show ?thesis by (simp add: ds)
    qed
    with c show False by simp
  qed
qed


lemma cluster_keys:
  assumes "cluster \<sigma> es k = Some y" "\<And>k y. \<sigma> k = Some y \<Longrightarrow> obj_key y = k"
  shows "obj_key y = k"
  using assms(1)
proof (induction es)
  case Nil
  with assms(2) show ?case by simp
next
  case (Cons ev es)
  have "apply_event ev (cluster \<sigma> es) k = Some y \<Longrightarrow> cluster \<sigma> es k = Some y \<or> obj_key y = k"
    by (induction ev "cluster \<sigma> es" rule: apply_event.induct) (auto split: if_splits)
  with Cons show ?case by auto
qed

lemma locked_cluster:
  assumes log: "locked_log r e es" and "truthful \<sigma> es" "accepted es" "\<And>k x. \<sigma> k = Some x \<Longrightarrow> obj_key x = k"
  shows "x \<in> set (collectSlugs e) \<Longrightarrow> settled_instance r e False (cluster \<sigma> es) x"
    and "cluster \<sigma> es k = Some y \<Longrightarrow> obj_kind y = IngressKind \<Longrightarrow> ObjNamespace (obj_meta y) = exam_ns e \<Longrightarrow>
      \<not> selected_by (OwnerLabels e) (obj_labels y)"
proof -
  obtain es1 es2 es3 where es: "es = es3 @ es2 @ es1" and d: "enforced r e False (collectSlugs e) es1"
    "cleared e es2" "unwritten es3"
    using log unfolding locked_log_def by blast
  let ?\<sigma> = "cluster \<sigma> es1"
  have t: "truthful \<sigma> es1" "truthful ?\<sigma> es2" and acc: "accepted es1"
    using assms(2,3) by (auto simp: es truthful_append accepted_append cluster_append)
  have end_state: "cluster \<sigma> es = cluster ?\<sigma> es2"
    using cluster_unwritten [OF d(3)] by (simp add: es cluster_append)
  have keys: "?\<sigma> k = Some y \<Longrightarrow> obj_key y = k" for k y
    using cluster_keys assms(4) by blast
  note c = cleared_cluster [OF d(2) t(2) keys]
  show "settled_instance r e False (cluster \<sigma> es) x" if "x \<in> set (collectSlugs e)"
  proof -
    have "settled_instance r e False ?\<sigma> x"
      using enforced_settled [OF d(1) t(1) acc] that by (cases x) blast
    moreover have "settled_instance r e False (cluster \<sigma> es) x = settled_instance r e False ?\<sigma> x"
      by (rule settled_instance_cong) (auto simp: end_state intro!: c(1))
    ultimately show ?thesis by simp
  qed
  show "\<not> selected_by (OwnerLabels e) (obj_labels y)"
    if "cluster \<sigma> es k = Some y" "obj_kind y = IngressKind" "ObjNamespace (obj_meta y) = exam_ns e"
    using c(2) that by (simp add: end_state)
qed

section \<open>Properties\<close>

text \<open>
  C22: the drift correction asks for exactly the reference list: for every recorded instance
  its deny-all and egress policies are created, and then, while the exam is open, its Ingress
  and its ingress policy, otherwise its ingress policy is deleted; in that order, instance by
  instance, whatever the answers are.
\<close>
theorem enforcePolicies_requests:
  "\<exists>es. run_state (enforcePolicies r e unlocked) h = ((), es @ h) \<and>
     requests es = concat (map (policy_requests r e unlocked) (collectSlugs e))"
proof -
  obtain es where "snd (run_state (enforcePolicies r e unlocked) h) = es @ h"
    and "requests es = concat (map (policy_requests r e unlocked) (collectSlugs e))"
    using runs_enforcePolicies [of h r e unlocked] unfolding runs_def enforced_def by blast
  then show ?thesis by (intro exI [of _ es]) (simp add: prod_eq_iff)
qed

text \<open>
  C6: the drift correction converges: after one correction whose calls met no unexpected
  error, a second one leaves every stored object but the copied TLS secret as it is, even if
  its own calls fail.
\<close>
theorem enforcePolicies_idempotent:
  assumes "run_state (enforcePolicies r e unlocked) h = ((), es @ h)" "accepted es"
    and "run_state (enforcePolicies r e unlocked) (es @ h) = ((), es2 @ es @ h)" "truthful \<sigma> (es2 @ es)"
    and "fst k \<noteq> SecretKind"
  shows "cluster \<sigma> (es2 @ es) k = cluster \<sigma> es k"
proof -
  have first: "enforced r e unlocked (collectSlugs e) es"
    using runs_enforcePolicies [of h r e unlocked] assms(1) by (simp add: runs_def)
  have second: "enforced r e unlocked (collectSlugs e) es2"
    using runs_enforcePolicies [of "es @ h" r e unlocked] assms(3) by (simp add: runs_def)
  have t: "truthful \<sigma> es" "truthful (cluster \<sigma> es) es2"
    using assms(4) by (simp_all add: truthful_append)
  have "\<forall>x \<in> set (collectSlugs e). settled_instance r e unlocked (cluster \<sigma> es) x"
    using enforced_settled [OF first t(1) assms(2)] by (metis surj_pair)
  from enforced_idle [OF second this] t(2) assms(5) show ?thesis
    by (simp add: cluster_append idle_cluster)
qed


section \<open>A truthful server\<close>

text \<open>
  A server that starts empty, keeps the store of its log and refuses nothing else: the laws
  above can be met. Every operation run against it leaves a truthful log.
\<close>

definition kept_objects :: "log \<Rightarrow> kobj list" where
  "kept_objects h = filter (\<lambda>x. cluster Map.empty h (obj_key x) = Some x) (List.map_filter created h)"

definition sample_server :: "policyProvider \<Rightarrow> exam \<Rightarrow> time \<Rightarrow> reconciler" where
  "sample_server p e t = (sample_reconciler e t)
     \<lparr>PolicyProvider := p, cl_Create := \<lambda>h x. if cluster Map.empty h (obj_key x) = None then None else Some AlreadyExists,
      cl_Delete := \<lambda>h k. if cluster Map.empty h k = None then Some NotFound else None,
      cl_List := \<lambda>h k n sel. Inr (filter (\<lambda>x. obj_kind x = k \<and> ObjNamespace (obj_meta x) = n \<and>
        selected_by sel (obj_labels x)) (kept_objects h))\<rparr>"

definition good_log :: "log \<Rightarrow> bool" where
  "good_log h \<longleftrightarrow> truthful Map.empty h \<and> accepted h"

definition keeps_good :: "'a io \<Rightarrow> bool" where
  "keeps_good m \<longleftrightarrow> (\<forall>h. good_log h \<longrightarrow> good_log (snd (run_state m h)))"

named_theorems keep_rules \<open>rules of \<open>keeps_good\<close>\<close>

lemma cluster_created: "cluster Map.empty h k = Some x \<Longrightarrow> x \<in> set (List.map_filter created h)"
proof (induction h)
  case (Cons ev h)
  have "apply_event ev (cluster Map.empty h) k = Some x \<Longrightarrow> cluster Map.empty h k = Some x \<or> created ev = Some x"
    by (induction ev "cluster Map.empty h" rule: apply_event.induct) (auto split: if_splits)
  with Cons show ?case by (auto simp: List.map_filter_simps split: option.splits)
qed simp

lemma kept_objects_iff: "x \<in> set (kept_objects h) \<longleftrightarrow> cluster Map.empty h (obj_key x) = Some x"
  using cluster_created [of h "obj_key x" x] by (auto simp: kept_objects_def)

lemma keep_bind [keep_rules]: "keeps_good m \<Longrightarrow> (\<And>x. keeps_good (f x)) \<Longrightarrow> keeps_good (m \<bind> f)"
  by (fastforce simp: keeps_good_def run_bind_lazy split: prod.splits)

lemma keep_ret [keep_rules]: "keeps_good (ret x)" "keeps_good (reads g)"
  by (simp_all add: keeps_good_def)

lemma good_log_other: "write_key ev = None \<Longrightarrow> (\<And>k n sel xs. ev \<noteq> EvList k n sel xs) \<Longrightarrow> good_log h \<Longrightarrow> good_log (ev # h)"
  by (cases ev) (auto simp: good_log_def accepted_def)

lemma keep_calls [keep_rules]:
  "keeps_good (rCreate (sample_server p e t) x)" "keeps_good (rDelete (sample_server p e t) k)"
  "keeps_good (rList (sample_server p e t) kd n sel)" "keeps_good (rCreateOrUpdate (sample_server p e t) x)"
  "keeps_good (rGetSecret (sample_server p e t) sk)" "keeps_good (rNow (sample_server p e t))"
  "keeps_good (metaNow (sample_server p e t))"
  by (auto simp: keeps_good_def run_calls sample_server_def good_log_def accepted_def kept_objects_iff
      simp del: split_paired_All)

lemma keep_setCondition [keep_rules]: "keeps_good (setCondition r e c)"
  by (auto simp: setCondition_def intro!: keep_rules)

lemma keep_if [keep_rules]: "(b \<Longrightarrow> keeps_good m) \<Longrightarrow> (\<not> b \<Longrightarrow> keeps_good m') \<Longrightarrow> keeps_good (if b then m else m')"
  by simp

lemma keep_case [keep_rules]:
  "keeps_good m \<Longrightarrow> (\<And>y. keeps_good (f y)) \<Longrightarrow> keeps_good (case z of None \<Rightarrow> m | Some y \<Rightarrow> f y)"
  "(\<And>a. keeps_good (g a)) \<Longrightarrow> (\<And>b. keeps_good (k b)) \<Longrightarrow> keeps_good (case w of Inl a \<Rightarrow> g a | Inr b \<Rightarrow> k b)"
  "(\<And>a b. keeps_good (p a b)) \<Longrightarrow> keeps_good (case v of (a, b) \<Rightarrow> p a b)"
  by (auto split: option.splits sum.splits prod.splits)

lemma keep_sendEmail [keep_rules]: "keeps_good (sendEmail (sample_server p e t) ex to msg)"
  by (auto simp: keeps_good_def sendEmail_def resolvedSender_def sender_Send_def sample_server_def run_bind_lazy
      intro!: good_log_other)

lemma keep_enforcePolicies [keep_rules]: "keeps_good (enforcePolicies (sample_server p e t) ex u)"
proof -
  have "keeps_good (enforce_entries (sample_server p e t) ex u xs)" for xs
    by (induction xs) (auto simp: enforce_entry_def Let_def intro!: keep_rules split: prod.splits)
  then show ?thesis
    by (auto simp: enforcePolicies_def reconcilePlatformTLSSecret_def Let_def intro!: keep_rules)
qed

lemma keep_deleteIngresses [keep_rules]: "keeps_good (deleteIngresses (sample_server p e t) ex ns)"
proof -
  have "keeps_good (delete_each (sample_server p e t) xs)" for xs
    by (induction xs) (auto intro!: keep_rules)
  then show ?thesis by (auto simp: deleteIngresses_def intro!: keep_rules)
qed

lemma keep_handlers:
  "keeps_good (reconcileUnlock (sample_server p e t) ex now)" "keeps_good (reconcileLocked (sample_server p e t) ex now)"
  by (auto simp: reconcileUnlock_def reconcileLocked_def notify_instructor_def Let_def intro!: keep_rules)


lemma good_run:
  assumes "keeps_good m"
  obtains x es where "run_state m [] = (x, es @ [])" "truthful Map.empty es" "accepted es"
proof -
  obtain x es where "run_state m [] = (x, es)" by (metis surj_pair)
  moreover have "good_log []" by (simp add: good_log_def accepted_def)
  with assms have "good_log (snd (run_state m []))" by (simp add: keeps_good_def)
  ultimately show ?thesis using that by (simp add: good_log_def)
qed

lemma sample_server_provider [simp]: "PolicyProvider (sample_server p e t) = p"
  by (simp add: sample_server_def)

lemma sample_instance: "(''100000001'', ''abcdefgh'') \<in> set (collectSlugs (sample_with ready_status))"
  by (simp add: collectSlugs_def ready_status_def)

theorem enforcePolicies_idempotent_witness:
  "\<exists>es es2. run_state (enforcePolicies (sample_server VanillaPolicyProvider (sample_with ready_status) 0) (sample_with ready_status) True) [] = ((), es) \<and>
     run_state (enforcePolicies (sample_server VanillaPolicyProvider (sample_with ready_status) 0) (sample_with ready_status) True) es = ((), es2 @ es) \<and>
     cluster Map.empty (es2 @ es) (IngressKind, exam_ns (sample_with ready_status), ''abcdefgh'') =
     cluster Map.empty es (IngressKind, exam_ns (sample_with ready_status), ''abcdefgh'')"
proof -
  let ?e = "sample_with ready_status"
  let ?m = "enforcePolicies (sample_server VanillaPolicyProvider ?e 0) ?e True"
  obtain u es where 1: "run_state ?m [] = (u, es @ [])" "truthful Map.empty es" "accepted es"
    using good_run [OF keep_enforcePolicies] by metis
  obtain es2 where 2: "run_state ?m es = ((), es2 @ es)"
    using runs_enforcePolicies [of es "sample_server VanillaPolicyProvider ?e 0" ?e True] unfolding runs_def
    by (metis (full_types) old.unit.exhaust prod.collapse)
  have "good_log (snd (run_state ?m es))"
    using keep_enforcePolicies 1 by (simp add: keeps_good_def good_log_def)
  then have "truthful Map.empty (es2 @ es)" by (simp add: 2 good_log_def)
  from enforcePolicies_idempotent [where h = "[]", OF _ 1(3) _ this] 1 2 show ?thesis by auto
qed

lemma delete_each_succeeds: "fst (run_state (delete_each (sample_server p e t) xs) h) = None"
  by (induction xs arbitrary: h)
    (simp_all add: run_bind_lazy rDelete_def sample_server_def ignore_missing_def IsNotFound_def)

lemma locked_returns:
  "RetentionDeadline (ExStatus e) \<noteq> None \<Longrightarrow>
   \<exists>e' d. fst (run_state (reconcileLocked (sample_server p e0 t) e now) h) = Returns (e', d, None)"
proof -
  let ?r = "sample_server p e0 t" and ?e1 = "set_phases StudentLocked e"
  assume d: "RetentionDeadline (ExStatus e) \<noteq> None"
  have del: "fst (run_state (deleteIngresses ?r e ns) h) = None" for ns h
    using delete_each_succeeds [of p e0 t]
    by (simp add: deleteIngresses_def run_bind_lazy rList_def sample_server_def [of p e0 t])
  have "\<exists>d. RetentionDeadline (ExStatus (fst (run_state (notify_instructor ?r ?e1 t' msg) h))) = Some d" for t' msg h
    using runs_notify [of h ?r ?e1 t' msg] d by (auto simp: runs_def set_phases_def dest: same_examD(16))
  note n = this
  obtain u h1 where 1: "run_state (enforcePolicies ?r e False) h = (u, h1)" by (metis surj_pair)
  obtain h2 where 2: "run_state (deleteIngresses ?r e (examNamespace (Name e) (Namespace e))) h1 = (None, h2)"
    using del by (metis surj_pair fst_conv)
  obtain e2 h3 where 3: "run_state (notify_instructor ?r ?e1 ConditionInstructorNotifiedLock (lock_message ?e1)) h2 = (e2, h3)"
    by (metis surj_pair)
  with n obtain dl where "RetentionDeadline (ExStatus e2) = Some dl" by (metis fst_conv)
  with 1 2 3 show ?thesis by (simp add: reconcileLocked_def run_bind_lazy Let_def)
qed

end
