(* ===== verification/Rounds.thy ===== *)
theory Rounds
  imports Outcomes Guarantees
begin

text \<open>
  Whole passes taken apart: which run of the phase handler lies behind the status that a pass
  writes. With it, properties of a handler become properties of passes and of their sequences.
\<close>

section \<open>The run behind a status write\<close>

lemma runs_conj: "runs h m P \<Longrightarrow> runs h m Q \<Longrightarrow> runs h m (\<lambda>es x. P es x \<and> Q es x)"
  by (auto simp: runs_def)

lemma emits_runs': "emits E m Q \<Longrightarrow> runs h m (\<lambda>es x. list_all E es \<and> Q x)"
  by (simp add: emits_def)

lemma emits_runs_result: "emits E m Q \<Longrightarrow> runs h m (\<lambda>_ x. Q x)"
  by (rule runs_conseq [OF emits_runs']) auto

lemma reconcile_exam_parts:
  "runs h (reconcile_exam r start e) (\<lambda>es out. \<exists>now h2 e2 h3 handled h4. EvNow now \<in> set es \<and>
     run_state (transition r (set_times e) now) h2 = (e2, h3) \<and> run_state (dispatch r e2 now) h3 = (handled, h4) \<and>
     (\<forall>x res. EvStatusUpdate x res \<in> set es \<longrightarrow> (\<exists>e3 d err m. handled = Returns (e3, d, err) \<and>
        (x = e3 \<or> x = upd_status (\<lambda>st. st\<lparr>ExMetrics := m\<rparr>) e3))))"
proof -
  have quiet: "EvStatusUpdate x res \<notin> set es" if "list_all (footprint r0 e0 b M (\<lambda>_. False)) es" for r0 e0 b M es x res
    using that by (auto simp: list_all_iff)
  have trans: "runs h (transition r (set_times e) now) (\<lambda>es e2. (\<forall>x res. EvStatusUpdate x res \<notin> set es) \<and>
      run_state (transition r (set_times e) now) h = (e2, es @ h))" for h now
    using runs_self [OF emits_runs' [OF fp_transition [where r = r and e = e and now = now and ?e0.0 = e and b = True
          and M = "\<lambda>_. True" and U = "\<lambda>_. False"]]]
    by (rule runs_conseq) (auto dest: quiet)
  have disp: "runs h (dispatch r e2 now) (\<lambda>es handled. (\<forall>x res. EvStatusUpdate x res \<notin> set es) \<and>
      run_state (dispatch r e2 now) h = (handled, es @ h))" for h e2 now
    using runs_self [OF emits_runs' [OF fp_dispatch [where r = r and e = e2 and now = now and b = True
          and M = "\<lambda>_. True" and U = "\<lambda>_. False"]]]
    by (rule runs_conseq) (auto dest: quiet)
  have finish: "runs h (finish_pass r start now res) (\<lambda>es _. \<forall>x a. EvStatusUpdate x a \<in> set es \<longrightarrow>
      (\<exists>m. x = fst res \<or> x = upd_status (\<lambda>st. st\<lparr>ExMetrics := m\<rparr>) (fst res)))" for h now res
    using emits_runs' [OF fp_finish_pass [where res = res and r = r and start = start and now = now and ?e0.0 = e
          and ?r0.0 = r and b = True and M = "\<lambda>_. True"
          and U = "\<lambda>x. \<exists>m. x = fst res \<or> x = upd_status (\<lambda>st. st\<lparr>ExMetrics := m\<rparr>) (fst res)"]]
    by (rule runs_conseq) (auto simp: list_all_iff)
  show ?thesis
    unfolding reconcile_exam_def Let_def
  proof (rule runs_bind [OF runs_rNow], rule runs_bind [OF trans], rule runs_bind [OF disp], goal_cases)
    case (1 es1 now es2 e2 es3 handled)
    show ?case
    proof (cases handled)
      case Panics
      with 1 show ?thesis by (auto intro!: runs_ret exI [of _ now])
    next
      case (Returns res)
      with 1 show ?thesis
        by (auto intro!: runs_bind [OF finish] runs_ret exI [of _ now]) (metis prod.collapse)+
    qed
  qed
qed

text \<open>
  A pass that wrote a status: the exam it worked on is the stored one (with other metadata),
  and what it wrote is what the handler of the phase left, with the metrics summary.
\<close>

lemma pass_handler:
  assumes "run_state (Reconcile r (Namespace e, Name e)) h = (out, es @ h)" "serves e es" "EvStatusUpdate x res \<in> set es"
  obtains e1 now h2 e2 h3 e3 d err h4 m where "Spec e1 = Spec e" "ExStatus e1 = ExStatus e" "Name e1 = Name e"
    "Namespace e1 = Namespace e" "EvNow now \<in> set es"
    "run_state (transition r (set_times e1) now) h2 = (e2, h3)" "run_state (dispatch r e2 now) h3 = (Returns (e3, d, err), h4)"
    "x = e3 \<or> x = upd_status (\<lambda>st. st\<lparr>ExMetrics := m\<rparr>) e3"
proof -
  have "pass_shape r (Namespace e, Name e) es out"
    using assms(1) Reconcile_shape [of h r "(Namespace e, Name e)"] by (simp add: runs_def)
  then show ?thesis
  proof cases
    case (worked e0 e1 now start h1 es1 es0)
    have "e0 = e" using worked(1) assms(2) by (auto simp: read_exam_def serves_def)
    with worked(3) assms(2) have e1: "Spec e1 = Spec e" "ExStatus e1 = ExStatus e" "Name e1 = Name e" "Namespace e1 = Namespace e"
      by (auto simp: kept_exam_def serves_def)
    have x: "EvStatusUpdate x res \<in> set es1"
      using assms(3) worked(8,9) by (auto simp: list_all_iff finalizer_event_def)
    obtain now' h2 e2 h3 handled h4 where p: "EvNow now' \<in> set es1"
      "run_state (transition r (set_times e1) now') h2 = (e2, h3)" "run_state (dispatch r e2 now') h3 = (handled, h4)"
      "\<exists>e3 d err m. handled = Returns (e3, d, err) \<and> (x = e3 \<or> x = upd_status (\<lambda>st. st\<lparr>ExMetrics := m\<rparr>) e3)"
      using reconcile_exam_parts [of h1 r start e1] worked(7) x by (fastforce simp: runs_def)
    from p(4) obtain e3 d err m where "handled = Returns (e3, d, err)"
      "x = e3 \<or> x = upd_status (\<lambda>st. st\<lparr>ExMetrics := m\<rparr>) e3" by blast
    with that [OF e1 _ p(2)] p(1,3) worked(8) show ?thesis by auto
  qed (use assms(3) in \<open>auto simp: list_all_iff deletion_event_def finalizer_event_def\<close>)
qed

section \<open>Rounds of mails\<close>

text \<open>
  A round: a pass by the given reconciler over the stored exam whose status write was accepted.
  What the environment answers in it is arbitrary, since the log \<open>h\<close> before it is.
\<close>

definition mail_round :: "reconciler \<Rightarrow> exam \<times> time \<Rightarrow> exam \<times> time \<Rightarrow> bool" where
  "mail_round r s s' \<longleftrightarrow> (\<exists>h out es x. run_state (Reconcile r (Namespace (fst s), Name (fst s))) h = (out, es @ h) \<and>
     serves (fst s) es \<and> clock_within (snd s) (snd s') es \<and> snd s \<le> snd s' \<and> fst s' = persisted (fst s) es \<and>
     EvStatusUpdate x None \<in> set es)"

lemma settled_pending: "list_all2 settled ss ss' \<Longrightarrow>
    length (filter (\<lambda>s. EmailStatus s = EmailPending) ss') \<le> length (filter (\<lambda>s. EmailStatus s = EmailPending) ss)"
  by (induction rule: list_all2_induct) (auto simp: settled_def)

text \<open>One Ready pass once the mails are due.\<close>

lemma reconcileReady_mail:
  assumes "condition_api r" "run_state (reconcileReady r e now) h = (Returns (e', d, err), h')"
    and "emailTime (computeSchedule e) \<le> now"
  shows "if cond r e ConditionAllEmailsSent then cond r e' ConditionAllEmailsSent \<and> pending_mails e' \<le> pending_mails e
    else if pending_mails e = 0 then cond r e' ConditionAllEmailsSent \<and> pending_mails e' = 0
    else \<not> cond r e' ConditionAllEmailsSent \<and> Suc (pending_mails e') = pending_mails e"
proof -
  have due: "\<not> time_before now (emailTime (computeSchedule e))" using assms(3) by (simp add: time_before_def)
  have "emits (footprint r e False (\<lambda>_. True) (\<lambda>_. True)) (reconcileReady r e now)
      (go_post (length (Students (Spec e)) < length (StatusStudents (ExStatus e))) (\<lambda>(e', d, err). moves_on e e' \<and> err = None))"
    by (rule fp_reconcileReady) simp
  from emitsD [OF this assms(2)] have "moves_on e e'" by auto
  then have fewer: "pending_mails e' \<le> pending_mails e"
    using settled_pending by (simp add: moves_on_def pending_mails_def)
  obtain m h1 where m: "run_state (ready_mail r e now) h = (m, h1)" by (metis surj_pair)
  obtain e1 stop where e1: "m = Returns (e1, stop)"
    using assms(2) m by (cases m) (auto simp: reconcileReady_def run_bind_lazy)
  have after: "cond r e' ConditionAllEmailsSent = cond r e1 ConditionAllEmailsSent" if "stop = None"
  proof -
    obtain e2 h2 where d2: "run_state (ready_dry_run r e1 now) h1 = (e2, h2)" by (metis surj_pair)
    obtain u h3 where "run_state (enforcePolicies r e2 False) h2 = (u, h3)" by (metis surj_pair)
    with assms(2) m e1 that d2 have "e' = e2" by (auto simp add: reconcileReady_def run_bind_lazy)
    with dry_run_done [OF assms(1) d2] show ?thesis by simp
  qed
  show ?thesis
  proof (cases "cond r e ConditionAllEmailsSent")
    case True
    with m e1 have "e1 = e" "stop = None" by (auto simp: ready_mail_def)
    with after True fewer show ?thesis by simp
  next
    case False
    obtain sent h2 where s: "run_state (sendNextPendingEmail r e) h = (sent, h2)" by (metis surj_pair)
    obtain e2 b where sent: "sent = Returns (e2, b)"
      using m e1 False due s by (cases sent) (auto simp: ready_mail_def run_bind_lazy Let_def)
    note mail = next_mail_facts [OF s [unfolded sent]]
    show ?thesis
    proof (cases b)
      case True
      with m e1 False due s sent have stop: "e1 = e2" "stop \<noteq> None"
        by (auto simp: ready_mail_def run_bind_lazy Let_def)
      with assms(2) m e1 have e': "e' = e2" by (cases stop) (auto simp: reconcileReady_def run_bind_lazy)
      from mail True obtain i s' where "e2 = upd_status (\<lambda>st. st\<lparr>StatusStudents := (StatusStudents st)[i := s']\<rparr>) e"
        "Suc (pending_mails e2) = pending_mails e" by (auto split: option.splits)
      moreover from this(1) have "cond r e2 ConditionAllEmailsSent = cond r e ConditionAllEmailsSent" by (simp add: cond_def)
      ultimately show ?thesis using e' False by simp
    next
      case unsent: False
      with mail have none: "pending_mails e = 0" by (auto split: option.splits)
      from m e1 False due s sent unsent have stop: "stop = None"
        by (auto simp: ready_mail_def run_bind_lazy Let_def split: prod.splits)
      have "cond r e1 ConditionAllEmailsSent"
        using ready_mail_done [OF assms(1) m [unfolded e1 stop]] due by blast
      with after [OF stop] none fewer False show ?thesis by simp
    qed
  qed
qed

lemma computeSchedule_cong: "Spec e' = Spec e \<Longrightarrow> computeSchedule e' = computeSchedule e"
  by (simp only: computeSchedule_def)

text \<open>One round between the email time and the unlock time.\<close>

lemma mail_round_step:
  assumes "condition_api r" "mail_round r (e, t) (e', t')" "ExPhase (ExStatus e) = PhaseReady"
    and "emailTime (computeSchedule e) \<le> t" "t' < Unlock (Schedule (Spec e))"
  shows "t \<le> t' \<and> Spec e' = Spec e \<and> ExPhase (ExStatus e') = PhaseReady \<and>
    (if cond r e ConditionAllEmailsSent then cond r e' ConditionAllEmailsSent \<and> pending_mails e' \<le> pending_mails e
     else if pending_mails e = 0 then cond r e' ConditionAllEmailsSent \<and> pending_mails e' = 0
     else \<not> cond r e' ConditionAllEmailsSent \<and> Suc (pending_mails e') = pending_mails e)"
proof -
  obtain h out es x where run: "run_state (Reconcile r (Namespace e, Name e)) h = (out, es @ h)" "serves e es"
    "clock_within t t' es" "t \<le> t'" "e' = persisted e es" "EvStatusUpdate x None \<in> set es"
    using assms(2) by (auto simp: mail_round_def)
  obtain y where y: "EvStatusUpdate y None \<in> set es" "ExStatus e' = ExStatus y"
    using persisted_accepted [OF run(6), of e] run(5) by blast
  obtain e1 now h2 e2 h3 e3 d err h4 m where
    e1: "Spec e1 = Spec e" "ExStatus e1 = ExStatus e" "Name e1 = Name e" "Namespace e1 = Namespace e"
    and now: "EvNow now \<in> set es"
    and tr: "run_state (transition r (set_times e1) now) h2 = (e2, h3)"
    and disp: "run_state (dispatch r e2 now) h3 = (Returns (e3, d, err), h4)"
    and y3: "y = e3 \<or> y = upd_status (\<lambda>st. st\<lparr>ExMetrics := m\<rparr>) e3"
    using pass_handler [OF run(1,2) y(1)] .
  have clock: "t \<le> now" "now \<le> t'" using run(3) now by (auto simp: clock_within_def)
  have "determineDesiredPhase (set_times e1) now = PhaseReady"
    using assms(3,5) clock by (simp add: determineDesiredPhase_def e1 time_before_def Let_def)
  with tr assms(3) have e2: "e2 = set_times e1" by (simp add: transition_def Let_def e1)
  have conds: "cond r e2 = cond r e" "pending_mails e2 = pending_mails e"
    by (simp_all add: e2 set_times_def cond_def fun_eq_iff pending_mails_def e1 Let_def)
  have ready: "run_state (reconcileReady r e2 now) h3 = (Returns (e3, d, err), h4)"
    using disp assms(3) by (simp add: dispatch_def e2 e1)
  have "emailTime (computeSchedule e2) \<le> now"
    using assms(4) clock(1) by (simp add: e2 computeSchedule_cong [OF e1(1)])
  note mail = reconcileReady_mail [OF assms(1) ready this, unfolded conds]
  have "emits (footprint r e2 False (\<lambda>_. True) (\<lambda>_. True)) (reconcileReady r e2 now)
      (go_post (length (Students (Spec e2)) < length (StatusStudents (ExStatus e2))) (\<lambda>(e', d, err). moves_on e2 e' \<and> err = None))"
    by (rule fp_reconcileReady) simp
  from emitsD [OF this ready] have "ExPhase (ExStatus e3) = PhaseReady"
    using assms(3) by (auto simp: moves_on_def e2 e1)
  moreover have "cond r e' = cond r e3" "pending_mails e' = pending_mails e3" "ExPhase (ExStatus e') = ExPhase (ExStatus e3)"
    using y(2) y3 by (auto simp: cond_def fun_eq_iff pending_mails_def)
  ultimately show ?thesis using mail run(4,5) persisted_same [of e es] by simp
qed

text \<open>
  C16: the mails run out in time: once they are due, every completed pass over a Ready exam
  before the unlock time settles exactly one pending mail, until none is left, and the pass
  after that records that all are sent. So a Ready exam with k pending mails needs k passes
  for them, whether the mail server takes them or not.
\<close>
theorem mails_run_out:
  assumes "condition_api r" "(mail_round r ^^ n) (e, t) (e', t')" "ExPhase (ExStatus e) = PhaseReady"
    and "emailTime (computeSchedule e) \<le> t" "t' < Unlock (Schedule (Spec e))" "\<not> cond r e ConditionAllEmailsSent"
  shows "pending_mails e' = pending_mails e - n \<and> (cond r e' ConditionAllEmailsSent \<longleftrightarrow> pending_mails e < n)"
proof -
  have "t \<le> t' \<and> Spec e' = Spec e \<and> ExPhase (ExStatus e') = PhaseReady \<and>
      pending_mails e' = pending_mails e - n \<and> (cond r e' ConditionAllEmailsSent \<longleftrightarrow> pending_mails e < n)"
    using assms(2,5)
  proof (induction n arbitrary: e' t')
    case 0
    with assms(3,6) show ?case by simp
  next
    case (Suc n)
    then obtain e1 t1 where 1: "(mail_round r ^^ n) (e, t) (e1, t1)" "mail_round r (e1, t1) (e', t')" by auto
    have "t1 \<le> t'" using 1(2) by (auto simp: mail_round_def)
    with Suc.prems(2) have "t1 < Unlock (Schedule (Spec e))" by simp
    note ih = Suc.IH [OF 1(1) this]
    then have e1: "Spec e1 = Spec e" "ExPhase (ExStatus e1) = PhaseReady" "t \<le> t1" by auto
    have "computeSchedule e1 = computeSchedule e" using e1(1) by (rule computeSchedule_cong)
    then have "emailTime (computeSchedule e1) \<le> t1" using assms(4) e1(3) by simp
    moreover have "t' < Unlock (Schedule (Spec e1))" using Suc.prems(2) e1 by simp
    ultimately have step: "t1 \<le> t' \<and> Spec e' = Spec e1 \<and> ExPhase (ExStatus e') = PhaseReady \<and>
      (if cond r e1 ConditionAllEmailsSent then cond r e' ConditionAllEmailsSent \<and> pending_mails e' \<le> pending_mails e1
       else if pending_mails e1 = 0 then cond r e' ConditionAllEmailsSent \<and> pending_mails e' = 0
       else \<not> cond r e' ConditionAllEmailsSent \<and> Suc (pending_mails e') = pending_mails e1)"
      using mail_round_step [OF assms(1) 1(2) e1(2)] by blast
    show ?case
    proof (cases "pending_mails e < n")
      case True
      with ih step e1 show ?thesis by auto
    next
      case False
      with ih have "\<not> cond r e1 ConditionAllEmailsSent" "pending_mails e1 = pending_mails e - n" by auto
      with False step ih e1 show ?thesis by (cases "pending_mails e = n") auto
    qed
  qed
  then show ?thesis by blast
qed

lemma sample_mail_round:
  "\<exists>e'. mail_round (sample_cluster (sample_with ready_status) (- 1800000000000))
     (sample_with ready_status, - 1800000000000) (e', - 1800000000000)"
proof -
  have [simp]: "emailTime sample_times = - 1800000000000"
    by (simp add: sample_times_def computeSchedule_def sample_spec_def time_add_def Minute_def Let_def)
  have "\<exists>d es x. run_state (Reconcile (sample_cluster (sample_with ready_status) (- 1800000000000)) (''exam-system'', ''midterm'')) [] =
      (Returns (d, None), es @ []) \<and> serves (sample_with ready_status) es \<and>
      clock_within (- 1800000000000) (- 1800000000000) es \<and> EvStatusUpdate x None \<in> set es"
    by (simp add: run_all run_mail run_sample ready_status_def persist_event_def serves_def clock_within_def
        cong: lazy_bind let_weak_cong)
  then obtain d es x where "run_state (Reconcile (sample_cluster (sample_with ready_status) (- 1800000000000))
      (Namespace (sample_with ready_status), Name (sample_with ready_status))) [] = (Returns (d, None), es @ [])"
    "serves (sample_with ready_status) es" "clock_within (- 1800000000000) (- 1800000000000) es"
    "EvStatusUpdate x None \<in> set es" by auto
  then show ?thesis
    unfolding mail_round_def fst_conv snd_conv
    by (intro exI [of _ "persisted (sample_with ready_status) es"] exI [of _ "[]"] exI [of _ "Returns (d, None)"]
        exI [of _ es] exI [of _ x]) simp
qed

theorem mails_run_out_witness:
  "\<exists>e'. mail_round (sample_cluster (sample_with ready_status) (- 1800000000000))
       (sample_with ready_status, - 1800000000000) (e', - 1800000000000) \<and>
     pending_mails (sample_with ready_status) = 1 \<and> pending_mails e' = 0"
proof -
  let ?r = "sample_cluster (sample_with ready_status) (- 1800000000000)"
  obtain e' where "mail_round ?r (sample_with ready_status, - 1800000000000) (e', - 1800000000000)"
    using sample_mail_round by blast
  moreover from this have "(mail_round ?r ^^ 1) (sample_with ready_status, - 1800000000000) (e', - 1800000000000)"
    by (simp only: relpowp_1)
  moreover have "emailTime sample_times = - 1800000000000"
    by (simp add: sample_times_def computeSchedule_def sample_spec_def time_add_def Minute_def Let_def)
  moreover have "pending_mails (sample_with ready_status) = 1" by (simp add: pending_mails_def ready_status_def)
  moreover have "\<not> cond ?r (sample_with ready_status) ConditionAllEmailsSent"
    by (simp add: cond_def sample_cluster_def ready_status_def)
  moreover have "condition_api ?r"
    using sample_condition_api [of "sample_with ready_status" "- 1800000000000"]
    by (simp add: sample_cluster_def condition_api_def)
  ultimately show ?thesis
    using mails_run_out [of ?r 1 "sample_with ready_status" "- 1800000000000" e' "- 1800000000000"]
    by (auto simp: ready_status_def sample_spec_def)
qed

end
