(* ===== verification/Readiness.thy ===== *)
theory Readiness
  imports Rounds
begin

text \<open>
  When an exam becomes Ready: the newest listing in the log of a provisioning pass decides.
\<close>

section \<open>The newest listing\<close>

fun newest_list :: "log \<Rightarrow> event option" where
  "newest_list [] = None"
| "newest_list (EvList k n sel res # es) = Some (EvList k n sel res)"
| "newest_list (ev # es) = newest_list es"

fun is_list_event :: "event \<Rightarrow> bool" where
  "is_list_event (EvList _ _ _ _) = True"
| "is_list_event _ = False"

lemma newest_list_other: "\<not> is_list_event ev \<Longrightarrow> newest_list (ev # es) = newest_list es"
  by (cases ev) simp_all

lemma newest_list_append:
  "newest_list (es2 @ es1) = (case newest_list es2 of None \<Rightarrow> newest_list es1 | Some ev \<Rightarrow> Some ev)"
  by (induction es2 rule: newest_list.induct) simp_all

lemma newest_list_none: "list_all (Not \<circ> is_list_event) es \<Longrightarrow> newest_list es = None"
  by (induction es) (simp_all add: newest_list_other)

text \<open>As many deployments as instances, each with a ready replica, in the newest listing.\<close>

definition seen_healthy :: "exam \<Rightarrow> log \<Rightarrow> bool" where
  "seen_healthy e es \<longleftrightarrow> (\<exists>xs. newest_list es = Some (EvList DeploymentKind (exam_ns e) (OwnerLabels e) (Inr xs)) \<and>
     (\<forall>x \<in> set xs. 1 \<le> sint (ReadyReplicas x)) \<and> of_nat (length xs) = expected_instances e)"

lemma seen_healthy_same: "same_exam e0 e \<Longrightarrow> seen_healthy e = seen_healthy e0"
  by (auto simp: fun_eq_iff seen_healthy_def expected_instances_def same_examD OwnerLabels_def)

section \<open>The provisioning pass\<close>

lemma runs_health_check:
  "runs h (allInstancesHealthy r e (exam_ns e)) (\<lambda>es ok. newest_list es \<noteq> None \<and> ok = seen_healthy e es)"
  unfolding allInstancesHealthy_def examResourceSelector_def examResourceLabels_def
  by (rule runs_bind [OF runs_rList])
    (auto intro!: runs_ret simp: seen_healthy_def list_all_iff not_less split: sum.splits)

lemma runs_enter_ready:
  "runs h (enter_ready r e) (\<lambda>es e'. newest_list es = None \<and> ExPhase (ExStatus e') = PhaseReady)"
proof -
  have "is_mail_event ev \<Longrightarrow> \<not> is_list_event ev" for ev by (cases ev) simp_all
  then have "emits (Not \<circ> is_list_event) (enter_ready r e) (\<lambda>e'. ExPhase (ExStatus e') = PhaseReady)"
    unfolding enter_ready_def Let_def
    by (auto intro!: emits_bind_known emit_rules emits_bind_True)
  from emits_runs' [OF this] show ?thesis by (rule runs_conseq) (simp add: newest_list_none)
qed

text \<open>What the phase and the delay are afterwards, as decided by the newest listing.\<close>

definition decided :: "exam \<Rightarrow> log \<Rightarrow> exam \<times> duration \<times> go_error option \<Rightarrow> bool" where
  "decided e es res \<longleftrightarrow> (case res of (e', d, err) \<Rightarrow>
     (ExPhase (ExStatus e') = PhaseReady \<longleftrightarrow> err = None \<and> seen_healthy e es) \<and>
     (ExPhase (ExStatus e') \<noteq> PhaseReady \<longrightarrow> ExPhase (ExStatus e') = PhaseProvisioning) \<and>
     (err = None \<longrightarrow> newest_list es \<noteq> None \<and> d = (if seen_healthy e es then 0 else 10 * Second)))"

lemma decided_append: "decided e es2 res \<Longrightarrow> decided e (es2 @ es1) res"
  by (auto simp: decided_def seen_healthy_def newest_list_append split: option.splits)

lemma decided_error: "provisioned e e' \<Longrightarrow> ExPhase (ExStatus e) = PhaseProvisioning \<Longrightarrow> decided e es (e', d, Some x)"
  by (simp add: decided_def provisioned_def)

fun go_decided :: "exam \<Rightarrow> log \<Rightarrow> handled go \<Rightarrow> bool" where
  "go_decided e es Panics = True"
| "go_decided e es (Returns res) = decided e es res"

lemma runs_decided_bind:
  assumes "runs h m R" "\<And>es x h. R es x \<Longrightarrow> runs h (f x) (go_decided e)"
  shows "runs h (m \<bind> f) (go_decided e)"
proof (rule runs_bind [OF assms(1)], rule runs_conseq [OF assms(2)])
  show "go_decided e (es2 @ es1) out" if "go_decided e es2 out" for es1 es2 out
    using that by (cases out) (simp_all add: decided_append)
qed

lemma runs_finish_decided:
  assumes "provisioned e0 e" "ExPhase (ExStatus e0) = PhaseProvisioning"
  shows "runs h (finish_provisioning r e (exam_ns e0) ok \<bind> (\<lambda>res. ret (Returns res))) (go_decided e0)"
proof -
  have rest: "runs h (cleanupOrphanedResources r e1 (exam_ns e0) \<bind> (\<lambda>_. allInstancesHealthy r e1 (exam_ns e0) \<bind>
        (\<lambda>healthy. if healthy then enter_ready r e1 \<bind> (\<lambda>e2. ret (e2, 0, None)) else ret (e1, 10 * Second, None))))
      (\<lambda>es. decided e0 es)"
    if e1: "provisioned e0 e1" for e1 h
  proof -
    have same: "exam_ns e0 = exam_ns e1" "seen_healthy e1 = seen_healthy e0"
      using same_examD(5) [OF provisionedD [OF e1]] seen_healthy_same [OF provisionedD [OF e1]] by simp_all
    have clean: "runs h (cleanupOrphanedResources r e1 (exam_ns e1)) (\<lambda>_ _. True)" for h
      using emits_runs_result [OF fp_cleanup [where e = e1 and Q = "\<lambda>_. True" and M = "\<lambda>_. True" and U = "\<lambda>_. True"]] by simp
    have healthy: "decided e0 (es2 @ es1) (e2, 0, None)"
      if "newest_list es1 \<noteq> None" "seen_healthy e0 es1" "newest_list es2 = None" "ExPhase (ExStatus e2) = PhaseReady"
      for es1 es2 e2 using that by (simp add: decided_def seen_healthy_def newest_list_append)
    have unhealthy: "decided e0 es1 (e1, 10 * Second, None)" if "newest_list es1 \<noteq> None" "\<not> seen_healthy e0 es1" for es1
      using that e1 assms(2) by (simp add: decided_def provisioned_def)
    have "runs h (allInstancesHealthy r e1 (exam_ns e1) \<bind>
        (\<lambda>healthy. if healthy then enter_ready r e1 \<bind> (\<lambda>e2. ret (e2, 0, None)) else ret (e1, 10 * Second, None)))
      (\<lambda>es. decided e0 es)" for h
      by (rule runs_bind [OF runs_health_check])
        (auto simp: same(2) intro!: runs_bind [OF runs_enter_ready] runs_ret healthy unhealthy)
    then show ?thesis
      unfolding same(1) by (intro runs_bind [OF clean]) (auto intro: runs_conseq decided_append)
  qed
  have "runs h (finish_provisioning r e (exam_ns e0) ok) (\<lambda>es. decided e0 es)"
    unfolding finish_provisioning_def
    using rest [OF assms(1), of h] rest [OF provisioned_conditions [OF assms(1)], of h]
    by (cases ok) (simp_all add: runs_def run_bind_lazy run_setCondition)
  then show ?thesis by (rule runs_bind) (auto intro!: runs_ret)
qed

lemma runs_provisioning_decided:
  assumes "ExPhase (ExStatus e) = PhaseProvisioning"
  shows "runs h (reconcileProvisioning r e) (go_decided e)"
proof -
  note error = decided_error [OF _ assms]
  have students: "runs h (provision_students r (exam_ns e) (enumerate 0 (Students (Spec e))) e True)
      (\<lambda>es. go_post False (\<lambda>res. provisioned e (fst res)))" for h
    by (rule emits_runs_result [OF go_conseq [OF fp_provision_students [where M = "\<lambda>_. True" and U = "\<lambda>_. True"
            and b = False and k = 0]]]) (simp_all add: students_done_def)
  have spares: "runs h (provision_spares r (exam_ns e) xs e1 ok) (\<lambda>es res. provisioned e (fst res))"
    if "provisioned e e1" for h xs e1 ok
    using emits_runs_result [OF fp_provision_spares [OF that, where M = "\<lambda>_. True" and U = "\<lambda>_. True" and b = False]]
    by (rule runs_conseq) simp
  have after: "runs h (case students of Panics \<Rightarrow> ret Panics
      | Returns (e1, ok1, err1) \<Rightarrow>
         (case err1 of
            Some x \<Rightarrow> ret (Returns (e1, 0, Some x))
          | None \<Rightarrow> do {
              (e2, ok2, err2) \<leftarrow> provision_spares r (exam_ns e) ns e1 ok1;
              case err2 of
                Some x \<Rightarrow> ret (Returns (e2, 0, Some x))
              | None \<Rightarrow> do { res \<leftarrow> finish_provisioning r e2 (exam_ns e) ok2; ret (Returns res) }
            })) (go_decided e)"
    if "go_post False (\<lambda>res. provisioned e (fst res)) students" for h ns students
    using that
    by (cases students)
      (auto intro!: runs_ret error runs_decided_bind [OF spares] runs_finish_decided assms split: option.splits prod.splits)
  have tls: "runs h (reconcilePlatformTLSSecret r e (exam_ns e)) (\<lambda>_ _. True)" for h
    by (rule emits_runs_result [OF emits_reconcilePlatformTLSSecret [where C = "\<lambda>_. True" and D = "\<lambda>_. True" and
          M = "\<lambda>_. True" and U = "\<lambda>_. True"]]) simp_all
  have create: "runs h (rCreate r x) (\<lambda>_ _. True)" for h x by (auto simp: rCreate_def intro!: runs_ask)
  have "runs h (provision_instances r e (exam_ns e)) (go_decided e)" for h
    unfolding provision_instances_def by (rule runs_decided_bind [OF students after])
  then show ?thesis
    unfolding reconcileProvisioning_def Let_def exam_ns_def [symmetric]
    by (auto intro!: runs_decided_bind [OF create] runs_decided_bind [OF tls] runs_ret error split: option.splits)
qed

text \<open>
  C13: the newest listing decides whether an exam becomes Ready: a provisioning pass moves it
  there exactly if it ends without an error and the last listing it made showed as many
  deployments of the exam as it has students and spares, every one with a ready replica.
  Otherwise the exam stays in Provisioning, and without an error it is looked at again after
  ten seconds.
\<close>
theorem ready_exactly_when_healthy:
  assumes "run_state (reconcileProvisioning r e) h = (Returns (e', d, err), es @ h)"
    and "ExPhase (ExStatus e) = PhaseProvisioning"
  shows "ExPhase (ExStatus e') = (if err = None \<and> seen_healthy e es then PhaseReady else PhaseProvisioning) \<and>
    (err = None \<longrightarrow> newest_list es \<noteq> None \<and> d = (if seen_healthy e es then 0 else 10 * Second))"
proof -
  have "go_decided e es (Returns (e', d, err))"
    using runs_provisioning_decided [OF assms(2), of h r] assms(1) by (simp add: runs_def)
  then show ?thesis by (auto simp: decided_def)
qed

lemma provisioning_pass:
  "\<exists>e' d es. run_state (reconcileProvisioning (sample_cluster (sample_exam PhaseProvisioning) 0) (sample_exam PhaseProvisioning)) [] =
     (Returns (e', d, None), es @ []) \<and> seen_healthy (sample_exam PhaseProvisioning) es"
  by (simp add: sample_exam_def seen_healthy_def exam_ns_def examResourceSelector_def examResourceLabels_def OwnerLabels_def
      run_all run_sample cong: lazy_bind let_weak_cong)

theorem ready_exactly_when_healthy_witness:
  "\<exists>e' d es. run_state (reconcileProvisioning (sample_cluster (sample_exam PhaseProvisioning) 0) (sample_exam PhaseProvisioning)) [] =
     (Returns (e', d, None), es @ []) \<and> ExPhase (ExStatus e') = PhaseReady"
proof -
  obtain e' d es where run: "run_state (reconcileProvisioning (sample_cluster (sample_exam PhaseProvisioning) 0)
      (sample_exam PhaseProvisioning)) [] = (Returns (e', d, None), es @ [])" "seen_healthy (sample_exam PhaseProvisioning) es"
    using provisioning_pass by blast
  from ready_exactly_when_healthy [OF run(1)] run(2) have "ExPhase (ExStatus e') = PhaseReady" by (simp add: sample_exam_def)
  with run(1) show ?thesis by blast
qed

end
