(* ===== verification/Mailing.thy ===== *)
theory Mailing
  imports Rounds
begin

text \<open>
  The mails of sequences of passes: which student a pass writes to, what its status write
  records of it, and what that means for the passes after it. A mail is an attempt to hand a
  message to a mail server.
\<close>

section \<open>The mails of one pass\<close>

definition mail_to :: "log \<Rightarrow> string list \<Rightarrow> bool" where
  "mail_to es to \<longleftrightarrow> (\<exists>ev \<in> set es. recipients ev = Some to)"

lemma mail_to_append [simp]: "mail_to (es2 @ es1) to \<longleftrightarrow> mail_to es2 to \<or> mail_to es1 to"
  by (auto simp: mail_to_def)

lemma mail_to_Nil [simp]: "\<not> mail_to [] to"
  by (simp add: mail_to_def)

lemma mail_toI: "EvSend from to msg res \<in> set es \<Longrightarrow> mail_to es to" "EvSmtp addr auth from to msg res' \<in> set es \<Longrightarrow> mail_to es to"
  unfolding mail_to_def by force+

lemma footprint_mail: "list_all (footprint r e b M U) es \<Longrightarrow> mail_to es to \<Longrightarrow> M to"
proof -
  have "footprint r e b M U ev \<Longrightarrow> recipients ev = Some to \<Longrightarrow> M to" for ev
    by (cases ev) (simp_all add: footprint_def)
  then show "list_all (footprint r e b M U) es \<Longrightarrow> mail_to es to \<Longrightarrow> M to"
    by (auto simp: mail_to_def list_all_iff)
qed

lemma finalizer_no_mail: "list_all (finalizer_event r e) es \<Longrightarrow> \<not> mail_to es to"
  using no_mail by (fastforce simp: mail_to_def list_all_iff)

lemma runs_mails: "emits (footprint r e b M U) m Q \<Longrightarrow> runs h m (\<lambda>es x. (\<forall>to. mail_to es to \<longrightarrow> M to) \<and> Q x)"
  by (rule runs_conseq [OF emits_runs']) (auto dest: footprint_mail)

text \<open>A log that writes to the student at position \<open>i\<close> only; records in which that mail is settled.\<close>

definition writes_to :: "exam \<Rightarrow> log \<Rightarrow> nat \<Rightarrow> bool" where
  "writes_to e es i \<longleftrightarrow> next_pending (records e) = Some i \<and> i < length (Students (Spec e)) \<and>
     (\<forall>to. mail_to es to \<longrightarrow> to = [Email (Students (Spec e) ! i)])"

definition mail_settled :: "exam \<Rightarrow> exam \<Rightarrow> nat \<Rightarrow> bool" where
  "mail_settled e x i \<longleftrightarrow> (\<exists>s'. records x = (records e)[i := s'] \<and> EmailStatus s' \<noteq> EmailPending)"

lemma runs_send_next:
  "runs h (sendNextPendingEmail r e) (\<lambda>es out.
     if \<exists>i. next_pending (records e) = Some i \<and> i < length (Students (Spec e))
     then \<exists>i x. writes_to e es i \<and> mail_settled e x i \<and> out = Returns (x, True)
     else (\<forall>to. \<not> mail_to es to) \<and> (\<forall>x b. out = Returns (x, b) \<longrightarrow> \<not> b))"
proof (rule runs_conseq [OF runs_self [OF runs_mails [OF fp_sendNextPendingEmail
      [where M = "to_student e" and r = r and e = e and ?e0.0 = e and b = False and U = "\<lambda>_. True"]]]], goal_cases)
  case (1 to)
  then show ?case .
next
  case (2 es out)
  then have mails: "\<And>to. mail_to es to \<Longrightarrow> to_student e to"
    and run: "run_state (sendNextPendingEmail r e) h = (out, es @ h)" by auto
  show ?case
  proof (cases "\<exists>i. next_pending (records e) = Some i \<and> i < length (Students (Spec e))")
    case True
    then obtain i where i: "next_pending (records e) = Some i" "i < length (Students (Spec e))" by blast
    obtain x b where out: "out = Returns (x, b)"
      using run i by (auto simp: sendNextPendingEmail_def run_bind_lazy Let_def split: prod.splits option.splits)
    have "writes_to e es i" using mails i by (auto simp: writes_to_def to_student_def)
    moreover have "mail_settled e x i \<and> b"
      using next_mail_facts [OF run [unfolded out]] i by (auto simp: mail_settled_def)
    ultimately show ?thesis using True out by auto
  next
    case False
    then have "\<not> to_student e to" for to by (auto simp: to_student_def)
    moreover have "\<not> b" if "out = Returns (x, b)" for x b
      using run that False
      by (auto simp: sendNextPendingEmail_def run_bind_lazy Let_def split: prod.splits option.splits if_splits)
    ultimately show ?thesis using False mails by auto
  qed
qed

text \<open>The mail step of a Ready pass: it ends the pass exactly if it wrote to a student.\<close>

definition mail_due :: "reconciler \<Rightarrow> exam \<Rightarrow> time \<Rightarrow> bool" where
  "mail_due r e now \<longleftrightarrow> \<not> cond r e ConditionAllEmailsSent \<and> emailTime (computeSchedule e) \<le> now"

definition mail_step :: "exam \<Rightarrow> log \<Rightarrow> exam \<Rightarrow> bool" where
  "mail_step e es x \<longleftrightarrow> (\<exists>i. writes_to e es i \<and> mail_settled e x i)"

lemma runs_ready_mail:
  "runs h (ready_mail r e now) (\<lambda>es out.
     (\<forall>to. \<not> mail_to es to) \<and> (\<forall>x iv. out = Returns (x, iv) \<longrightarrow> iv = None) \<or>
     (\<exists>x iv. mail_step e es x \<and> out = Returns (x, Some iv)))"
  (is "runs h _ ?Q")
proof (cases "mail_due r e now")
  case False
  then have "ready_mail r e now = ret (Returns (e, None))"
    by (auto simp: mail_due_def ready_mail_def time_before_def)
  then show ?thesis by (auto intro: runs_ret)
next
  case True
  then have start: "ready_mail r e now = sendNextPendingEmail r e \<bind> (\<lambda>sent. case sent of
        Panics \<Rightarrow> ret Panics
      | Returns (e1, b) \<Rightarrow> if b then ret (Returns (e1, Some (if sint (SendInterval (SpecEmail (Spec e))) \<le> 0 then Second
            else SendInterval (SpecEmail (Spec e)))))
          else setCondition r e1 (new_condition ConditionAllEmailsSent ConditionTrue ReasonComplete '''') \<bind>
            (\<lambda>e2. ret (Returns (e2, None))))"
    by (simp add: ready_mail_def mail_due_def time_before_def Let_def)
  have quiet: "runs h' (setCondition r e1 c \<bind> (\<lambda>e2. ret (Returns (e2, None)))) (\<lambda>es out. (\<forall>to. \<not> mail_to es to) \<and>
      (\<forall>x iv. out = Returns (x, iv) \<longrightarrow> iv = None))" for h' e1 c
    by (rule runs_conseq [OF runs_mails [where M = "\<lambda>_. False" and r = r and e = e and b = False and U = "\<lambda>_. True" and
        Q = "\<lambda>out. \<forall>x iv. out = Returns (x, iv) \<longrightarrow> iv = None"]])
      (auto intro!: emit_rules emits_bind_known)
  show ?thesis
    unfolding start
  proof (rule runs_bind [OF runs_send_next], goal_cases)
    case (1 es out)
    show ?case
    proof (cases "\<exists>i. next_pending (records e) = Some i \<and> i < length (Students (Spec e))")
      case True
      with 1 obtain i x where "writes_to e es i" "mail_settled e x i" "out = Returns (x, True)" by auto
      then show ?thesis by (auto intro!: runs_ret simp: mail_step_def)
    next
      case False
      with 1 show ?thesis
        by (cases out) (auto intro!: runs_ret runs_conseq [OF quiet] split: prod.splits)
    qed
  qed
qed

lemma runs_reconcileReady_mail:
  "runs h (reconcileReady r e now) (\<lambda>es out. (\<forall>to. \<not> mail_to es to) \<or>
     (\<exists>x d err. mail_step e es x \<and> out = Returns (x, d, err)))"
  unfolding reconcileReady_def
proof (rule runs_bind [OF runs_ready_mail], goal_cases)
  case (1 es mailed)
  then show ?case
  proof
    assume none: "(\<forall>to. \<not> mail_to es to) \<and> (\<forall>x iv. mailed = Returns (x, iv) \<longrightarrow> iv = None)"
    have rest: "runs h' (ready_dry_run r e1 now \<bind> (\<lambda>e2. enforcePolicies r e2 False \<bind>
        (\<lambda>_. ret (Returns (e2, dur_max (time_sub (next_wake r e2) now) 0, None))))) (\<lambda>es out. \<forall>to. \<not> mail_to es to)" for h' e1
      by (rule runs_conseq [OF runs_mails [where M = "\<lambda>_. False" and r = r and e = e1 and b = False and
          U = "\<lambda>_. True" and Q = "\<lambda>_. True"]])
        (auto intro!: emit_rules emits_bind [where R = "moves_on e1"] emits_bind_True [OF fp_enforce_same] elim: moves_onD)
    with none show ?case
      by (cases mailed) (auto intro!: runs_ret runs_conseq [OF rest])
  next
    assume "\<exists>x iv. mail_step e es x \<and> mailed = Returns (x, Some iv)"
    then show ?case by (auto intro!: runs_ret)
  qed
qed

lemma runs_dispatch_mail:
  "runs h (dispatch r e now) (\<lambda>es out. (\<forall>to. mail_to es to \<longrightarrow> to_instructor e to) \<or>
     ExPhase (ExStatus e) = PhaseReady \<and> (\<exists>x d err. mail_step e es x \<and> out = Returns (x, d, err)))"
proof (cases "ExPhase (ExStatus e) = PhaseReady")
  case True
  then have "dispatch r e now = reconcileReady r e now" by (simp add: dispatch_def)
  with True show ?thesis by (auto intro!: runs_conseq [OF runs_reconcileReady_mail])
next
  case False
  then have "mail_targets e to \<Longrightarrow> to_instructor e to" for to
    by (cases "ExPhase (ExStatus e)") (simp_all add: mail_targets_def)
  then show ?thesis
    by (intro runs_conseq [OF runs_mails [OF fp_dispatch [where M = "to_instructor e" and b = True and U = "\<lambda>_. True"]]]) auto
qed

lemma footprint_no_status: "list_all (footprint r e b M (\<lambda>_. False)) es \<Longrightarrow> EvStatusUpdate y res \<notin> set es"
  by (auto simp: list_all_iff)

lemma finish_no_mail:
  "runs h (finish_pass r start now res) (\<lambda>es _. (\<forall>to. \<not> mail_to es to) \<and>
     (\<forall>y a. EvStatusUpdate y a \<in> set es \<longrightarrow> records y = records (fst res)))"
  by (rule runs_conseq [OF emits_runs' [OF fp_finish_pass [where res = res and r = r and start = start and now = now and
      ?e0.0 = "fst res" and ?r0.0 = r and b = True and M = "\<lambda>_. False" and
      U = "\<lambda>x. records x = records (fst res)"]]])
    (auto simp: list_all_iff dest: footprint_mail [unfolded list_all_iff])

lemma desired_Ready: "desired e now = PhaseReady \<Longrightarrow> ExPhase (ExStatus e) = PhaseReady"
  by (cases "ExPhase (ExStatus e)") (auto simp: desired_def determineDesiredPhase_def Let_def split: if_splits)

text \<open>A pass that writes to a student settles that student's mail in every status it writes.\<close>

definition mails_student :: "exam \<Rightarrow> log \<Rightarrow> bool" where
  "mails_student e es \<longleftrightarrow> ExPhase (ExStatus e) = PhaseReady \<and>
     (\<exists>i. writes_to e es i \<and> (\<forall>y res. EvStatusUpdate y res \<in> set es \<longrightarrow> mail_settled e y i))"

lemma runs_reconcile_exam_mail:
  "runs h (reconcile_exam r start e) (\<lambda>es _. (\<forall>to. mail_to es to \<longrightarrow> to_instructor e to) \<or> mails_student e es)"
proof -
  have trans: "runs h (transition r (set_times e) now) (\<lambda>es e2. begun e now e2 \<and> (\<forall>to. \<not> mail_to es to) \<and>
      (\<forall>y res. EvStatusUpdate y res \<notin> set es))" for h now
    by (rule runs_conseq [OF emits_runs' [OF fp_transition [where ?e0.0 = e and b = True and M = "\<lambda>_. False" and U = "\<lambda>_. False"]]])
      (auto dest: footprint_mail footprint_no_status)
  have disp: "runs h (dispatch r e2 now) (\<lambda>es out. \<forall>y res. EvStatusUpdate y res \<notin> set es)" for h e2 now
    by (rule runs_conseq [OF emits_runs' [OF fp_dispatch [where b = True and M = "\<lambda>_. True" and U = "\<lambda>_. False"]]])
      (auto dest: footprint_no_status)
  show ?thesis
    unfolding reconcile_exam_def Let_def
  proof (rule runs_bind [OF runs_rNow], rule runs_bind [OF trans],
      rule runs_bind [OF runs_conj [OF runs_dispatch_mail disp]], goal_cases)
    case (1 es1 now es2 e2 es3 handled)
    then have e2: "records e2 = records e" "Spec e2 = Spec e" "to_instructor e2 = to_instructor e"
      "ExPhase (ExStatus e2) = desired e now"
      using begunD(1,4,5,6) [of e now e2] by simp_all
    have quiet: "\<not> mail_to (es2 @ es1) to" for to using 1 by (auto simp: mail_to_def)
    have status: "EvStatusUpdate y res \<notin> set (es3 @ es2 @ es1)" for y res using 1 by auto
    consider "\<forall>to. mail_to es3 to \<longrightarrow> to_instructor e to"
      | i x d err where "ExPhase (ExStatus e) = PhaseReady" "writes_to e es3 i" "mail_settled e x i" "handled = Returns (x, d, err)"
    proof -
      have "mail_step e2 = mail_step e"
        by (simp add: fun_eq_iff mail_step_def writes_to_def mail_settled_def e2)
      then show thesis
        using 1(3) e2 desired_Ready [of e now] that by (auto simp: mail_step_def)
    qed
    then show ?case
    proof cases
      case mails: 1
      show ?thesis
        using mails quiet
        by (cases handled) (auto intro!: runs_ret runs_bind [OF finish_no_mail] simp flip: append_assoc)
    next
      case mails: 2
      have "mails_student e ((es @ es3) @ es2 @ es1)"
        if "\<forall>to. \<not> mail_to es to" "\<forall>y a. EvStatusUpdate y a \<in> set es \<longrightarrow> records y = records x" for es
        using mails(1-3) that quiet status
        by (auto simp: mails_student_def writes_to_def mail_settled_def intro!: exI [of _ i])
      with mails(4) show ?thesis
        by (auto intro!: runs_bind [OF finish_no_mail] runs_ret)
    qed
  qed
qed

lemma pass_mails:
  assumes "run_state (Reconcile r (Namespace e, Name e)) h = (out, es @ h)" "serves e es"
  shows "(\<forall>to. mail_to es to \<longrightarrow> to_instructor e to) \<or> mails_student e es"
proof -
  have "pass_shape r (Namespace e, Name e) es out"
    using assms(1) Reconcile_shape [of h r "(Namespace e, Name e)"] by (simp add: runs_def)
  then show ?thesis
  proof cases
    case (worked e0 e1 now start h1 es1 es0)
    note same = serves_kept [OF assms(2) worked(1,3)]
    have "(\<forall>to. mail_to es1 to \<longrightarrow> to_instructor e1 to) \<or> mails_student e1 es1"
      using runs_reconcile_exam_mail [of h1 r start e1] worked(7) by (auto simp: runs_def)
    moreover have "to_instructor e1 = to_instructor e" "mails_student e1 = mails_student e"
      using same by (simp_all add: fun_eq_iff to_instructor_def mails_student_def writes_to_def mail_settled_def)
    moreover have "EvStatusUpdate y res \<notin> set es0" for y res
      using worked(9) by (auto simp: list_all_iff finalizer_event_def)
    ultimately show ?thesis
      using worked(8) finalizer_no_mail [OF worked(9)] by (auto simp: mails_student_def writes_to_def)
  qed (use no_mail in \<open>fastforce simp: mail_to_def list_all_iff\<close>)+
qed

section \<open>Histories\<close>

text \<open>A sequence of lifecycle steps, with the stored exam and the log of each.\<close>

inductive history :: "exam \<times> time \<Rightarrow> (exam \<times> log) list \<Rightarrow> exam \<times> time \<Rightarrow> bool" for s where
  start: "history s [] s"
| more: "history s tr (e, t) \<Longrightarrow> lifecycle (e, t) es s' \<Longrightarrow> history s (tr @ [(e, es)]) s'"

lemma history_split:
  "history s (tr1 @ (e, es) # tr2) s' \<Longrightarrow>
    \<exists>t s''. history s tr1 (e, t) \<and> lifecycle (e, t) es s'' \<and> history s'' tr2 s'"
proof (induction tr2 arbitrary: s' rule: rev_induct)
  case Nil
  then obtain t where "history s tr1 (e, t)" "lifecycle (e, t) es s'"
    by (cases rule: history.cases) auto
  then show ?case using history.start [of s'] by blast
next
  case (snoc x tr2)
  from snoc.prems obtain e' t' es' where 1: "history s (tr1 @ (e, es) # tr2) (e', t')" "lifecycle (e', t') es' s'" "x = (e', es')"
    by (cases rule: history.cases) (auto simp: append_eq_append_conv2 Cons_eq_append_conv)
  with snoc.IH show ?case by (metis history.more)
qed

abbreviation past_provisioning :: "exam \<Rightarrow> bool" where
  "past_provisioning e \<equiv> ExPhase (ExStatus e) \<in> {PhaseReady, PhaseUnlocked, PhaseLocked, PhaseTearingDown}"

lemma lifecycle_settled:
  assumes "lifecycle (e, t) es (e', t')" "past_provisioning e"
  shows "past_provisioning e' \<and> list_all2 settled (records e) (records e')"
  using assms(1)
proof (cases rule: lifecycle_cases [consumes 1, case_names pass edit delete])
  case (pass r h out)
  then have shape: "pass_shape r (Namespace e, Name e) es out"
    using Reconcile_shape [of h r "(Namespace e, Name e)"] by (simp add: runs_def)
  obtain s where s: "stage_of (ExPhase (ExStatus e)) = Some s" "Ready \<le> s"
    using assms(2) by (cases "ExPhase (ExStatus e)") (auto simp: less_eq_stage_def)
  from persisted_status [of e es] have "past_provisioning (persisted e es)"
  proof
    assume "\<exists>x. EvStatusUpdate x None \<in> set es \<and> ExStatus (persisted e es) = ExStatus x"
    then obtain x where x: "EvStatusUpdate x None \<in> set es" "ExStatus (persisted e es) = ExStatus x" by blast
    from pass_status [OF shape pass(3) x(1)] obtain e1 now
      where "ExStatus e1 = ExStatus e" "written_by_pass e1 now x" by blast
    from written_stage [OF this(2)] this(1) s(1) obtain s' where
      "stage_of (ExPhase (ExStatus x)) = Some s'" "stage_step e1 now s s'" by metis
    with stage_step_ge [OF this(2)] s(2) have "stage_of (ExPhase (ExStatus x)) = Some s'" "Ready \<le> s'" by auto
    with x(2) show ?thesis by (cases "ExPhase (ExStatus x)") (auto simp: less_eq_stage_def)
  qed (use assms(2) in simp)
  with persisted_settled [OF shape pass(3) assms(2)] pass show ?thesis by simp
qed (use assms(2) in \<open>auto simp: list_all2_refl\<close>)

lemma history_settled:
  "history s tr s' \<Longrightarrow> past_provisioning (fst s) \<Longrightarrow>
    past_provisioning (fst s') \<and> list_all2 settled (records (fst s)) (records (fst s'))"
proof (induction rule: history.induct)
  case start
  then show ?case by (simp add: list_all2_refl)
next
  case (more tr e t es s')
  then have before: "past_provisioning e" "list_all2 settled (records (fst s)) (records e)" by auto
  moreover have "past_provisioning (fst s') \<and> list_all2 settled (records e) (records (fst s'))"
    using lifecycle_settled [of e t es "fst s'" "snd s'"] more.hyps(2) before(1) by simp
  ultimately show ?case by (blast intro: list_all2_trans [of settled settled settled] settled_trans)
qed

section \<open>At most one pass per mail\<close>

definition student_mail :: "exam \<Rightarrow> log \<Rightarrow> nat \<Rightarrow> bool" where
  "student_mail e es i \<longleftrightarrow> i < length (Students (Spec e)) \<and> mail_to es [Email (Students (Spec e) ! i)]"

definition addresses_distinct :: "exam \<Rightarrow> bool" where
  "addresses_distinct e \<longleftrightarrow> distinct (InstructorEmail (SpecEmail (Spec e)) # map Email (Students (Spec e)))"

lemma pass_student_mail:
  assumes "run_state (Reconcile r (Namespace e, Name e)) h = (out, es @ h)" "serves e es"
    and "student_mail e es i" "addresses_distinct e"
  shows "next_pending (records e) = Some i" "ExPhase (ExStatus e) = PhaseReady"
    "EvStatusUpdate x None \<in> set es \<Longrightarrow> mail_settled e (persisted e es) i"
proof -
  have mail: "mail_to es [Email (Students (Spec e) ! i)]" "i < length (Students (Spec e))"
    using assms(3) by (auto simp: student_mail_def)
  have other: "Email (Students (Spec e) ! i) \<noteq> InstructorEmail (SpecEmail (Spec e))"
    using assms(4) imageI [OF nth_mem [OF mail(2)], of Email] by (auto simp: addresses_distinct_def)
  with pass_mails [OF assms(1,2)] mail(1) have "mails_student e es" by (auto simp: to_instructor_def)
  then obtain k where k: "writes_to e es k" "\<forall>y res. EvStatusUpdate y res \<in> set es \<longrightarrow> mail_settled e y k"
    "ExPhase (ExStatus e) = PhaseReady" by (auto simp: mails_student_def)
  have "Email (Students (Spec e) ! i) = Email (Students (Spec e) ! k)" "k < length (Students (Spec e))"
    using k(1) mail(1) by (auto simp: writes_to_def)
  then have ik: "i = k"
    using assms(4) mail(2) nth_eq_iff_index_eq [of "map Email (Students (Spec e))" i k]
    by (simp add: addresses_distinct_def)
  with k show "next_pending (records e) = Some i" "ExPhase (ExStatus e) = PhaseReady"
    by (auto simp: writes_to_def)
  assume "EvStatusUpdate x None \<in> set es"
  from persisted_accepted [OF this, of e] obtain y where "EvStatusUpdate y None \<in> set es" "ExStatus (persisted e es) = ExStatus y"
    by blast
  with k(2) ik show "mail_settled e (persisted e es) i" unfolding mail_settled_def by metis
qed

lemma student_mailD:
  assumes "lifecycle (e, t) es (e', t')" "student_mail e es i" "addresses_distinct e"
  shows "next_pending (records e) = Some i" "ExPhase (ExStatus e) = PhaseReady"
    "EvStatusUpdate x None \<in> set es \<Longrightarrow> mail_settled e e' i"
proof -
  have "\<exists>r h out. run_state (Reconcile r (Namespace e, Name e)) h = (out, es @ h) \<and> serves e es \<and> e' = persisted e es"
    using assms(1) by (cases rule: lifecycle_cases) (use assms(2) in \<open>auto simp: student_mail_def\<close>)
  then obtain r h out where run: "run_state (Reconcile r (Namespace e, Name e)) h = (out, es @ h)" "serves e es"
    and e': "e' = persisted e es" by blast
  show "next_pending (records e) = Some i" "ExPhase (ExStatus e) = PhaseReady"
    "EvStatusUpdate x None \<in> set es \<Longrightarrow> mail_settled e e' i"
    unfolding e' by (rule pass_student_mail [OF run assms(2,3)], assumption?)+
qed

text \<open>
  C17: no student is written to twice, and the mails go out in the order of the students: if a
  pass wrote to student i and stored its status, every pass that writes to a student j later,
  however many passes, accepted edits and deletions lie between, does so for some j above i. A
  student is told by the address, so the addresses of the students and of the instructor are
  assumed to differ at both passes.
\<close>
theorem students_mailed_once_in_order:
  assumes "history s (tr1 @ (e1, es1) # tr2 @ (e2, es2) # tr3) s'"
    and "student_mail e1 es1 i" "student_mail e2 es2 j" "addresses_distinct e1" "addresses_distinct e2"
    and "EvStatusUpdate x None \<in> set es1"
  shows "i < j"
proof -
  obtain t1 s1 where 1: "lifecycle (e1, t1) es1 s1" "history s1 (tr2 @ (e2, es2) # tr3) s'"
    using history_split [OF assms(1)] by blast
  obtain t2 s2 where 2: "history s1 tr2 (e2, t2)" "lifecycle (e2, t2) es2 s2"
    using history_split [OF 1(2)] by blast
  obtain e1' t1' where s1: "s1 = (e1', t1')" by (cases s1)
  obtain e2' t2' where s2: "s2 = (e2', t2')" by (cases s2)
  note first = student_mailD [OF 1(1) [unfolded s1] assms(2,4)]
  have j: "next_pending (records e2) = Some j" using student_mailD(1) [OF 2(2) [unfolded s2] assms(3,5)] .
  have "past_provisioning e1'" using lifecycle_settled [OF 1(1) [unfolded s1]] first(2) by simp
  with history_settled [OF 2(1)] s1 have settled: "list_all2 settled (records e1') (records e2)" by simp
  obtain s' where s': "records e1' = (records e1)[i := s']" "EmailStatus s' \<noteq> EmailPending"
    using first(3) [OF assms(6)] by (auto simp: mail_settled_def)
  have "EmailStatus (records e1' ! k) \<noteq> EmailPending" if "k \<le> i" for k
    using next_pending_Some [OF first(1)] s' that by (cases "k = i") auto
  moreover have "i < length (records e1')" using next_pending_Some [OF first(1)] s'(1) by simp
  ultimately have "EmailStatus (records e2 ! k) \<noteq> EmailPending" if "k \<le> i" for k
    using list_all2_nthD [OF settled, of k] that by (auto simp: settled_def)
  with next_pending_Some [OF j] show ?thesis by (meson not_less)
qed

text \<open>Two students with pending mails, and two passes in a row over their exam.\<close>

definition pair_spec :: examSpec where
  "pair_spec = sample_spec\<lparr>Students := [\<lparr>StudentID = ''100000001'', Email = ''a@otu.ca''\<rparr>,
     \<lparr>StudentID = ''100000002'', Email = ''b@otu.ca''\<rparr>]\<rparr>"

definition pair_with :: "examStatus \<Rightarrow> exam" where
  "pair_with st = (sample_with st)\<lparr>Spec := pair_spec\<rparr>"

lemma pair_with_simps [simp]:
  "Name (pair_with st) = ''midterm''" "Namespace (pair_with st) = ''exam-system''"
  "DeletionTimestamp (pair_with st) = None" "Generation (pair_with st) = 1"
  "Finalizers (pair_with st) = [''exam.otu.ca/cleanup'']" "Spec (pair_with st) = pair_spec"
  "ExStatus (pair_with st) = st" "upd_status f (pair_with st) = pair_with (f st)"
  "(pair_with st)\<lparr>ExStatus := st'\<rparr> = pair_with st'" "computeSchedule (pair_with st) = sample_times"
  by (simp_all add: pair_with_def sample_with_def upd_status_def pair_spec_def computeSchedule_def sample_times_def)

definition pair_status :: "emailStatus \<Rightarrow> time option \<Rightarrow> examStatus" where
  "pair_status m sa = ready_status\<lparr>StatusStudents :=
     [\<lparr>ID = ''100000001'', Slug = ''abcdefgh'', URL = '''', Phase = StudentProvisioned, EmailStatus = m, EmailSentAt = sa\<rparr>,
      \<lparr>ID = ''100000002'', Slug = ''bcdefghi'', URL = '''', Phase = StudentProvisioned, EmailStatus = EmailPending, EmailSentAt = None\<rparr>],
     ExMetrics := Some \<lparr>TotalStudents = 2, TotalSpares = 0, EmailsSent = (if m = EmailSent then 1 else 0), EmailsFailed = 0,
        InstancesHealthy = 2, InstancesFailed = 0\<rparr>\<rparr>"

lemma mail_time [simp]: "emailTime sample_times = - 1800000000000"
  by (simp add: sample_times_def computeSchedule_def sample_spec_def time_add_def Minute_def Let_def)

lemma first_mail:
  "\<exists>d es fr msg x. run_state (Reconcile (sample_cluster (pair_with (pair_status EmailPending None)) (- 1800000000000))
       (''exam-system'', ''midterm'')) [] = (Returns (d, None), es @ []) \<and>
     EvSend fr [''a@otu.ca''] msg None \<in> set es \<and> EvStatusUpdate x None \<in> set es \<and>
     serves (pair_with (pair_status EmailPending None)) es \<and> clock_within (- 1800000000000) (- 1800000000000) es \<and>
     persisted (pair_with (pair_status EmailPending None)) es = pair_with (pair_status EmailSent (Some (- 1800000000000)))"
  by (simp add: run_all run_mail run_sample ready_status_def serves_def clock_within_def pair_status_def pair_spec_def
      persist_event_def cong: lazy_bind let_weak_cong)

lemma second_mail:
  "\<exists>d es fr msg. run_state (Reconcile (sample_cluster (pair_with (pair_status EmailSent sa)) (- 1800000000000))
       (''exam-system'', ''midterm'')) [] = (Returns (d, None), es @ []) \<and>
     EvSend fr [''b@otu.ca''] msg None \<in> set es \<and>
     serves (pair_with (pair_status EmailSent sa)) es \<and> clock_within (- 1800000000000) (- 1800000000000) es"
  by (simp add: run_all run_mail run_sample ready_status_def serves_def clock_within_def pair_status_def pair_spec_def
      cong: lazy_bind let_weak_cong)

theorem students_mailed_once_in_order_witness:
  "\<exists>es1 es2 s'. history (pair_with (pair_status EmailPending None), - 1800000000000)
       ([] @ (pair_with (pair_status EmailPending None), es1) # [] @
          (pair_with (pair_status EmailSent (Some (- 1800000000000))), es2) # []) s' \<and>
     student_mail (pair_with (pair_status EmailPending None)) es1 0 \<and>
     student_mail (pair_with (pair_status EmailSent (Some (- 1800000000000)))) es2 1 \<and> (0::nat) < 1"
proof -
  let ?e1 = "pair_with (pair_status EmailPending None)" and ?t = "- 1800000000000 :: time"
  let ?e2 = "pair_with (pair_status EmailSent (Some ?t))"
  obtain d1 es1 fr1 msg1 x where 1: "run_state (Reconcile (sample_cluster ?e1 ?t) (''exam-system'', ''midterm'')) [] = (Returns (d1, None), es1 @ [])"
    "EvSend fr1 [''a@otu.ca''] msg1 None \<in> set es1" "EvStatusUpdate x None \<in> set es1" "serves ?e1 es1" "clock_within ?t ?t es1"
    "persisted ?e1 es1 = ?e2"
    using first_mail by blast
  obtain d2 es2 fr2 msg2 where 2: "run_state (Reconcile (sample_cluster ?e2 ?t) (''exam-system'', ''midterm'')) [] = (Returns (d2, None), es2 @ [])"
    "EvSend fr2 [''b@otu.ca''] msg2 None \<in> set es2" "serves ?e2 es2" "clock_within ?t ?t es2"
    using second_mail by blast
  have "lifecycle (?e1, ?t) es1 (?e2, ?t)"
    using lifecycle.pass [of "sample_cluster ?e1 ?t" ?e1 "[]" "Returns (d1, None)" es1 ?t ?t] 1 by simp
  moreover have "lifecycle (?e2, ?t) es2 (persisted ?e2 es2, ?t)"
    using lifecycle.pass [of "sample_cluster ?e2 ?t" ?e2 "[]" "Returns (d2, None)" es2 ?t ?t] 2 by simp
  ultimately have hist: "history (?e1, ?t) ([] @ (?e1, es1) # [] @ (?e2, es2) # []) (persisted ?e2 es2, ?t)"
    using history.more [OF history.more [OF history.start]] by fastforce
  have mails: "student_mail ?e1 es1 0" "student_mail ?e2 es2 1"
    using mail_toI(1) [OF 1(2)] mail_toI(1) [OF 2(2)] by (simp_all add: student_mail_def pair_spec_def)
  have "addresses_distinct ?e1" "addresses_distinct ?e2"
    by (simp_all add: addresses_distinct_def pair_spec_def sample_spec_def)
  from students_mailed_once_in_order [OF hist mails this 1(3)] hist mails show ?thesis by blast
qed

section \<open>A mail that is sent again\<close>

text \<open>A reconciler that gets as far as the mail server: an injected sender, or a readable secret.\<close>

definition can_send :: "reconciler \<Rightarrow> bool" where
  "can_send r \<longleftrightarrow> Sender r = OtherSender \<or> SMTPSecretName (Platform r) \<noteq> '''' \<and> (\<forall>h k. \<exists>s. cl_GetSecret r h k = Inr s)"

lemma runs_anything: "emits E m Q \<Longrightarrow> runs h m (\<lambda>_ _. True)"
  by (rule runs_conseq [OF emits_runs']) auto

lemma mail_to_sent [simp]:
  "mail_to (EvSend from to' msg res # es) to \<longleftrightarrow> to' = to \<or> mail_to es to"
  "mail_to (EvSmtp addr auth from to' msg res' # es) to \<longleftrightarrow> to' = to \<or> mail_to es to"
  by (auto simp: mail_to_def)

text \<open>Whatever follows, a mail stays in the log.\<close>

lemma runs_then:
  assumes "runs h m (\<lambda>es _. mail_to es to)" "\<And>h x. runs h (f x) (\<lambda>_ _. True)"
  shows "runs h (m \<bind> f) (\<lambda>es _. mail_to es to)"
  by (rule runs_bind [OF assms(1)], rule runs_conseq [OF assms(2)]) simp

lemma runs_SMTP_attempt: "runs h (sender_Send r (RetrySMTP s 3) from to msg) (\<lambda>es _. mail_to es to)"
proof -
  have upt: "[0..3] = (0::int) # [1..3]" by (simp add: upto.simps)
  have loop: "emits is_mail_event (retry_loop (SMTPSender_Send r s from to msg) rSleep 3 as err) (\<lambda>_. True)" for as err
    by (rule emits_retry_loop) (auto simp: emits_SMTPSender_Send rSleep_def intro!: emit_rules)
  have "runs h (retry_loop (SMTPSender_Send r s from to msg) rSleep 3 [0..3] None) (\<lambda>es _. mail_to es to)"
    unfolding upt retry_loop.simps
  proof (rule runs_then, goal_cases)
    case 1
    show ?case by (auto simp: SMTPSender_Send_def Let_def intro!: runs_ask)
  next
    case (2 h err)
    have "emits is_mail_event (rSleep d \<bind> (\<lambda>_. retry_loop (SMTPSender_Send r s from to msg) rSleep 3 as err)) (\<lambda>_. True)" for d as
      by (rule emits_bind_True [OF _ loop]) (auto simp: rSleep_def intro!: emit_rules)
    note this [THEN runs_anything]
    then show ?case by (cases err) (simp_all add: runs_ret)
  qed
  then show ?thesis
    unfolding sender_Send_def RetrySender_Send_def NewRetrySender_def
    by (auto simp: Let_def intro!: runs_then runs_ret split: sum.splits)
qed

lemma runs_sendEmail_attempt: "can_send r \<Longrightarrow> runs h (sendEmail r e to msg) (\<lambda>es _. mail_to es to)"
proof (cases "Sender r = OtherSender")
  case True
  then show ?thesis
    by (auto simp: sendEmail_def resolvedSender_def sender_Send_def intro!: runs_then runs_ask runs_ret)
next
  case False
  assume "can_send r"
  with False have can: "SMTPSecretName (Platform r) \<noteq> ''''" "\<exists>s. cl_GetSecret r h k = Inr s" for h k
    unfolding can_send_def by blast+
  have "runs h (resolvedSender r e) (\<lambda>_ v. \<exists>s. v = Inr (RetrySMTP s 3))"
    unfolding resolvedSender_def rGetSecret_def
    using False can by (auto simp: Let_def intro!: runs_bind [OF runs_ask [where R = "\<lambda>_ x. \<exists>s. x = Inr s"]] runs_ret)
  then show ?thesis
    unfolding sendEmail_def
    by (rule runs_bind) (auto intro!: runs_conseq [OF runs_SMTP_attempt])
qed

lemma runs_due_mail:
  assumes "can_send r" "mail_due r e now" "next_pending (records e) = Some i" "i < length (Students (Spec e))"
  shows "runs h (reconcileReady r e now) (\<lambda>es _. mail_to es [Email (Students (Spec e) ! i)])"
proof -
  have "runs h (sendNextPendingEmail r e) (\<lambda>es out. mail_to es [Email (Students (Spec e) ! i)] \<and> (\<exists>x. out = Returns (x, True)))" for h
  proof -
    have now: "runs h (metaNow r) (\<lambda>_ _. True)" for h
      by (rule runs_anything [where E = "\<lambda>_. True" and Q = "\<lambda>_. True"])
        (auto simp: metaNow_def intro!: emits_ask split: option.splits)
    have rest: "runs h (metric r op \<bind> (\<lambda>_. ret (Returns (x, True)))) (\<lambda>_ out. \<exists>x. out = Returns (x, True))" for h op x
      by (rule runs_conseq [OF emits_runs' [where E = "\<lambda>_. True" and Q = "\<lambda>out. \<exists>x. out = Returns (x, True)"]])
        (auto intro!: emit_rules emits_bind_True)
    show ?thesis
      unfolding sendNextPendingEmail_def assms(3) option.case Let_def
      using assms(4)
      by (auto intro!: runs_bind [OF now] runs_bind [OF runs_sendEmail_attempt [OF assms(1)]] runs_conseq [OF rest]
          split: option.splits)
  qed
  then have "runs h (ready_mail r e now) (\<lambda>es out. mail_to es [Email (Students (Spec e) ! i)] \<and> (\<exists>x iv. out = Returns (x, Some iv)))"
    using assms(2) by (auto simp: ready_mail_def mail_due_def time_before_def Let_def intro!: runs_bind runs_ret)
  then show ?thesis
    unfolding reconcileReady_def by (rule runs_bind) (auto intro!: runs_ret)
qed

lemma runs_reconcile_exam_due:
  assumes "can_send r" "ExPhase (ExStatus e) = PhaseReady" "\<not> cond r e ConditionAllEmailsSent"
    and "next_pending (records e) = Some i" "i < length (Students (Spec e))"
  shows "runs h (reconcile_exam r start e) (\<lambda>es _.
    (\<forall>now. EvNow now \<in> set es \<longrightarrow> emailTime (computeSchedule e) \<le> now \<and> now < Unlock (Schedule (Spec e))) \<longrightarrow>
    mail_to es [Email (Students (Spec e) ! i)])"
  unfolding reconcile_exam_def Let_def
proof (rule runs_bind [OF runs_rNow], goal_cases)
  case (1 es now)
  let ?rest = "transition r (set_times e) now \<bind> (\<lambda>e2. dispatch r e2 now \<bind> (\<lambda>handled.
    case handled of Panics \<Rightarrow> ret Panics | Returns res \<Rightarrow> finish_pass r start now res \<bind> (\<lambda>out. ret (Returns out))))"
  show ?case
  proof (cases "emailTime (computeSchedule e) \<le> now \<and> now < Unlock (Schedule (Spec e))")
    case False
    then show ?thesis
      using 1 by (auto intro!: runs_conseq [OF runs_anything [OF reconcile_exam_after_now]])
  next
    case True
    then have "desired e now = PhaseReady"
      using assms(2) by (simp add: desired_def determineDesiredPhase_def time_before_def Let_def)
    then have "transition r (set_times e) now = ret (set_times e)"
      using assms(2) by (simp add: transition_def desired_def Let_def)
    moreover have "dispatch r (set_times e) now = reconcileReady r (set_times e) now"
      using assms(2) by (simp add: dispatch_def)
    ultimately have rest: "?rest = reconcileReady r (set_times e) now \<bind> (\<lambda>handled.
        case handled of Panics \<Rightarrow> ret Panics | Returns res \<Rightarrow> finish_pass r start now res \<bind> (\<lambda>out. ret (Returns out)))"
      by simp
    have "mail_due r (set_times e) now"
      using True assms(3) by (simp add: mail_due_def cond_def set_times_def Let_def computeSchedule_cong [of "upd_status _ e" e])
    from runs_due_mail [OF assms(1) this] assms(4,5)
    have mail: "runs h (reconcileReady r (set_times e) now) (\<lambda>es _. mail_to es [Email (Students (Spec e) ! i)])" for h
      by simp
    have "runs h ?rest (\<lambda>es _. mail_to es [Email (Students (Spec e) ! i)])" for h
      unfolding rest by (rule runs_then [OF mail]) (auto intro!: runs_ret runs_bind [OF finish_no_mail] split: go.splits)
    then show ?thesis by (auto intro: runs_conseq)
  qed
qed

lemma pass_due_mail:
  assumes "run_state (Reconcile r (Namespace e, Name e)) h = (out, es @ h)" "serves e es" "EvStatusUpdate x res \<in> set es"
    and "can_send r" "ExPhase (ExStatus e) = PhaseReady" "\<not> cond r e ConditionAllEmailsSent"
    and "next_pending (records e) = Some i" "i < length (Students (Spec e))"
    and "clock_within t t' es" "emailTime (computeSchedule e) \<le> t" "t' < Unlock (Schedule (Spec e))"
  shows "mail_to es [Email (Students (Spec e) ! i)]"
proof -
  have "pass_shape r (Namespace e, Name e) es out"
    using assms(1) Reconcile_shape [of h r "(Namespace e, Name e)"] by (simp add: runs_def)
  then show ?thesis
  proof cases
    case (worked e0 e1 now start h1 es1 es0)
    note same = serves_kept [OF assms(2) worked(1,3)]
    have "cond r e1 = cond r e" using same by (simp add: fun_eq_iff cond_def)
    with runs_reconcile_exam_due [of r e1 i h1 start] worked(7) same assms(4-8) have
      "(\<forall>now. EvNow now \<in> set es1 \<longrightarrow> emailTime (computeSchedule e1) \<le> now \<and> now < Unlock (Schedule (Spec e1))) \<longrightarrow>
       mail_to es1 [Email (Students (Spec e) ! i)]" by (simp add: runs_def)
    moreover have "computeSchedule e1 = computeSchedule e" using same by (blast intro: computeSchedule_cong)
    ultimately show ?thesis using assms(9-11) worked(8) same by (fastforce simp: clock_within_def)
  qed (use assms(3) in \<open>auto simp: list_all_iff deletion_event_def finalizer_event_def\<close>)
qed

text \<open>
  C18: a mail is sent before its status is stored: if the status write of the pass that wrote to
  student i is refused (after a conflict, say), the next pass in time that gets to its status
  write and to a mail server writes to the same student again, whether or not the mail server
  had accepted the first mail. A student is told by the address: the addresses of the students
  and of the instructor are assumed to differ.
\<close>
theorem unstored_mail_sent_again:
  assumes "run_state (Reconcile r (Namespace e, Name e)) h = (out, es @ h)" "serves e es"
    and "student_mail e es i" "addresses_distinct e" "\<forall>y. EvStatusUpdate y None \<notin> set es"
    and "run_state (Reconcile r2 (Namespace e, Name e)) h2 = (out2, es2 @ h2)" "serves (persisted e es) es2"
    and "EvStatusUpdate x res \<in> set es2" "can_send r2" "\<not> cond r2 e ConditionAllEmailsSent"
    and "clock_within t t' es2" "emailTime (computeSchedule e) \<le> t" "t' < Unlock (Schedule (Spec e))"
  shows "student_mail (persisted e es) es2 i"
proof -
  let ?e = "persisted e es"
  note first = pass_student_mail [OF assms(1-4)]
  have "ExStatus ?e = ExStatus e" using persisted_status [of e es] assms(5) by blast
  moreover have "Spec ?e = Spec e" "Name ?e = Name e" "Namespace ?e = Namespace e" by (simp_all add: persisted_same)
  moreover from this(1) have "computeSchedule ?e = computeSchedule e" by (rule computeSchedule_cong)
  moreover have "cond r2 ?e = cond r2 e" using calculation(1) by (simp add: cond_def fun_eq_iff)
  moreover have "i < length (Students (Spec e))" using assms(3) by (simp add: student_mail_def)
  ultimately show ?thesis
    using pass_due_mail [of r2 ?e h2 out2 es2 x res i t t'] assms first(1,2) by (simp add: student_mail_def)
qed

lemma refused_mail:
  "\<exists>d es fr msg x. run_state (Reconcile ((sample_cluster (sample_with ready_status) (- 1800000000000))\<lparr>cl_StatusUpdate := \<lambda>h x. Some Conflict\<rparr>)
       (''exam-system'', ''midterm'')) [] = (Returns (d, Some x), es @ []) \<and>
     EvSend fr [''a@otu.ca''] msg None \<in> set es \<and> (\<forall>y. EvStatusUpdate y None \<notin> set es) \<and>
     serves (sample_with ready_status) es \<and> persisted (sample_with ready_status) es = sample_with ready_status"
  by (simp add: run_all run_mail run_sample ready_status_def serves_def persist_event_def cong: lazy_bind let_weak_cong)

lemma stored_mail:
  "\<exists>d es x. run_state (Reconcile (sample_cluster (sample_with ready_status) (- 1800000000000)) (''exam-system'', ''midterm'')) [] =
       (Returns (d, None), es @ []) \<and> EvStatusUpdate x None \<in> set es \<and>
     serves (sample_with ready_status) es \<and> clock_within (- 1800000000000) (- 1800000000000) es"
  by (simp add: run_all run_mail run_sample ready_status_def serves_def clock_within_def cong: lazy_bind let_weak_cong)

theorem unstored_mail_sent_again_witness:
  "\<exists>es es2. (\<exists>fr msg. EvSend fr [''a@otu.ca''] msg None \<in> set es) \<and> student_mail (sample_with ready_status) es 0 \<and>
     student_mail (persisted (sample_with ready_status) es) es2 0"
proof -
  let ?e = "sample_with ready_status" and ?t = "- 1800000000000 :: time"
  let ?r2 = "sample_cluster ?e ?t"
  let ?r = "?r2\<lparr>cl_StatusUpdate := \<lambda>h x. Some Conflict\<rparr>"
  obtain d es fr msg x where 1: "run_state (Reconcile ?r (Namespace ?e, Name ?e)) [] = (Returns (d, Some x), es @ [])"
    "EvSend fr [''a@otu.ca''] msg None \<in> set es" "\<forall>y. EvStatusUpdate y None \<notin> set es" "serves ?e es" "persisted ?e es = ?e"
    using refused_mail by auto
  obtain d2 es2 y where 2: "run_state (Reconcile ?r2 (Namespace ?e, Name ?e)) [] = (Returns (d2, None), es2 @ [])"
    "EvStatusUpdate y None \<in> set es2" "serves ?e es2" "clock_within ?t ?t es2"
    using stored_mail by auto
  have first: "student_mail ?e es 0" using mail_toI(1) [OF 1(2)] by (simp add: student_mail_def sample_spec_def)
  have "student_mail (persisted ?e es) es2 0"
    by (rule unstored_mail_sent_again [OF 1(1,4) first _ 1(3) 2(1) _ 2(2) _ _ 2(4)])
      (use 1(5) 2(3) in \<open>simp_all add: addresses_distinct_def sample_spec_def can_send_def cond_def sample_cluster_def ready_status_def\<close>)
  with 1(2) first show ?thesis by blast
qed

end
