(* ===== verification/Deployed.thy ===== *)
theory Deployed
  imports Cluster Rounds
begin

text \<open>
  What a provisioning pass leaves in the cluster. The pass creates the objects of the students
  and of the spares one by one, ignores objects that exist already, records what failed, and finally deletes
  orphans, among them possibly objects it has just found to exist; the theorem below says that
  the status it reports can be relied on all the same.
\<close>

section \<open>Creating the objects of an instance\<close>

definition created_in :: "log \<Rightarrow> kobj \<Rightarrow> bool" where
  "created_in es x \<longleftrightarrow> EvCreate x None \<in> set es \<or> EvCreate x (Some AlreadyExists) \<in> set es"

lemma created_in_append [simp]: "created_in (es2 @ es1) x \<longleftrightarrow> created_in es2 x \<or> created_in es1 x"
  by (auto simp: created_in_def)

definition refused_in :: "log \<Rightarrow> kobj \<Rightarrow> bool" where
  "refused_in es x \<longleftrightarrow> (\<exists>a. a \<noteq> AlreadyExists \<and> EvCreate x (Some a) \<in> set es)"

lemma refused_in_append [simp]: "refused_in (es2 @ es1) x \<longleftrightarrow> refused_in es2 x \<or> refused_in es1 x"
  by (auto simp: refused_in_def)

text \<open>A log without deletions; operations that never delete.\<close>

definition undeleting :: "log \<Rightarrow> bool" where
  "undeleting es \<longleftrightarrow> (\<forall>k res. EvDelete k res \<notin> set es)"

lemma undeleting_simps [simp]: "undeleting []" "undeleting (es2 @ es1) \<longleftrightarrow> undeleting es2 \<and> undeleting es1"
  by (auto simp: undeleting_def)

abbreviation no_deletes :: "event \<Rightarrow> bool" where
  "no_deletes \<equiv> allows (\<lambda>_. True) (\<lambda>_. False) (\<lambda>_. True) (\<lambda>_. True)"

lemma runs_undeleting: "emits no_deletes m Q \<Longrightarrow> runs h m (\<lambda>es x. undeleting es \<and> Q x)"
  by (rule runs_conseq [OF emits_runs']) (auto simp: undeleting_def list_all_iff)

lemma ignore_exists_None: "ignore_exists err = None \<longleftrightarrow> err = None \<or> err = Some AlreadyExists"
  by (auto simp: ignore_exists_def IsAlreadyExists_def split: option.splits)

lemma runs_create_each:
  "runs h (create_each r xs) (\<lambda>es err. undeleting es \<and>
     (if err = None then \<forall>x \<in> set xs. created_in es x else \<exists>x \<in> set xs. refused_in es x))"
proof (induction xs arbitrary: h)
  case Nil
  then show ?case by (auto simp: undeleting_def intro: runs_ret)
next
  case (Cons x xs)
  show ?case
    unfolding create_each.simps
  proof (rule runs_bind [OF runs_rCreate], goal_cases)
    case (1 es res)
    show ?case
    proof (cases "ignore_exists res")
      case None
      with 1 have "created_in es x" "undeleting es" by (auto simp: ignore_exists_None created_in_def undeleting_def)
      with None show ?thesis
        by (auto intro!: runs_conseq [OF Cons.IH])
    next
      case (Some a)
      with 1 have "refused_in es x"
        by (auto simp: refused_in_def ignore_exists_def IsAlreadyExists_def split: option.splits if_splits)
      with Some 1 show ?thesis by (auto simp: undeleting_def intro!: runs_ret)
    qed
  qed
qed

section \<open>The students\<close>

text \<open>The outcome of an instance of slug \<open>s\<close>, and a student's record that tells it.\<close>

definition instance_outcome :: "reconciler \<Rightarrow> exam \<Rightarrow> log \<Rightarrow> string \<Rightarrow> string \<Rightarrow> studentPhase \<Rightarrow> bool" where
  "instance_outcome r e es sid s p \<longleftrightarrow> (let xs = set (instance_objects (PolicyProvider r) e (exam_ns e) sid s) in
     p = StudentProvisioned \<and> (\<forall>x \<in> xs. created_in es x) \<or> p = StudentFailed \<and> (\<exists>x \<in> xs. refused_in es x))"

lemma instance_outcome_append:
  "instance_outcome r e es1 sid s p \<Longrightarrow> instance_outcome r e (es2 @ es1) sid s p"
  "instance_outcome r e es2 sid s p \<Longrightarrow> instance_outcome r e (es2 @ es1) sid s p"
  unfolding instance_outcome_def Let_def by fastforce+

definition student_deployed :: "reconciler \<Rightarrow> exam \<Rightarrow> log \<Rightarrow> exam \<Rightarrow> nat \<Rightarrow> bool" where
  "student_deployed r e es e' i \<longleftrightarrow> i < length (records e') \<and> Slug (records e' ! i) \<noteq> '''' \<and>
     instance_outcome r e es (StudentID (Students (Spec e) ! i)) (Slug (records e' ! i)) (Phase (records e' ! i))"

lemma student_deployed_append: "student_deployed r e es1 e' i \<Longrightarrow> student_deployed r e (es2 @ es1) e' i"
  "student_deployed r e es2 e' i \<Longrightarrow> student_deployed r e (es2 @ es1) e' i"
  by (auto simp: student_deployed_def instance_outcome_append)

lemma student_deployed_cong: "records e2 = records e1 \<Longrightarrow> student_deployed r e es e2 i = student_deployed r e es e1 i"
  by (simp add: student_deployed_def)

lemma instance_objects_same: "same_exam e e' \<Longrightarrow> instance_objects p e' = instance_objects p e"
  by (auto simp: same_exam_def instance_objects_def fun_eq_iff)

lemma setStudentStatus_records:
  assumes "setStudentStatus r e i s p = Returns e'"
  shows "same_exam e e'" "i < length (records e')" "Slug (records e' ! i) = s" "Phase (records e' ! i) = p"
    "j \<noteq> i \<Longrightarrow> j < length (records e) \<Longrightarrow> j < length (records e') \<and> records e' ! j = records e ! j"
    "StatusSpares (ExStatus e') = StatusSpares (ExStatus e)"
  using assms by (auto simp: setStudentStatus_def padded_def nth_append intro!: same_exam_upd split: if_splits)

lemma no_deletes_slug: "emits no_deletes (findOrGenerateSlug r e ns sid) (\<lambda>x. \<forall>s. x = Inr s \<longrightarrow> s \<noteq> '''')"
  by (rule emits_findOrGenerateSlug) (auto simp: recorded_slug_set)

lemma no_deletes_observe: "emits no_deletes (observe_provision r e w who) (\<lambda>_. True)"
  by (auto simp: observe_provision_def intro!: emits_bind_known emit_rules)

definition students_deployed :: "reconciler \<Rightarrow> exam \<Rightarrow> (nat \<times> examStudent) list \<Rightarrow> exam \<Rightarrow> log \<Rightarrow> exam \<Rightarrow> bool" where
  "students_deployed r e0 xs e es e' \<longleftrightarrow> same_exam e0 e' \<and> StatusSpares (ExStatus e') = StatusSpares (ExStatus e) \<and>
     (\<forall>i \<in> fst ` set xs. student_deployed r e0 es e' i) \<and>
     (\<forall>i. i \<notin> fst ` set xs \<longrightarrow> i < length (records e) \<longrightarrow> i < length (records e') \<and> records e' ! i = records e ! i)"

lemma students_deployed_Cons:
  assumes "students_deployed r e0 xs e1 es2 e'" "setStudentStatus r e i s p = Returns e1" "i \<notin> fst ` set xs"
    and "s \<noteq> ''''" "instance_outcome r e0 es1 (StudentID (Students (Spec e0) ! i)) s p"
  shows "students_deployed r e0 ((i, st) # xs) e (es2 @ es1) e'"
proof -
  note set_status = setStudentStatus_records [OF assms(2)]
  have i: "i < length (records e')" "records e' ! i = records e1 ! i"
    using assms(1,3) set_status(2) by (auto simp: students_deployed_def)
  have "student_deployed r e0 es1 e' i"
    using i set_status(3,4) assms(4,5) by (simp add: student_deployed_def)
  moreover have "j < length (records e') \<and> records e' ! j = records e ! j"
    if "j \<notin> fst ` set ((i, st) # xs)" "j < length (records e)" for j
    using set_status(5) [of j] that assms(1) by (auto simp: students_deployed_def)
  ultimately show ?thesis
    using assms(1) set_status(6) by (auto simp: students_deployed_def student_deployed_append)
qed

text \<open>One student: the creations, the record, then whatever follows.\<close>

lemma runs_one_student:
  assumes same: "same_exam e0 e" and slug: "s \<noteq> ''''" and sid: "sid = StudentID (Students (Spec e0) ! i)"
    and rest: "\<And>h e1 ok1 p es1. setStudentStatus r e i s p = Returns e1 \<Longrightarrow> instance_outcome r e0 es1 sid s p \<Longrightarrow>
      runs h (provision_students r (exam_ns e0) xs e1 ok1) (\<lambda>es out. undeleting es \<and> Q (es @ es1) out)"
    and panics: "\<And>es. Q es Panics"
  shows "runs h (provisionInstance r e (exam_ns e0) sid s \<bind> (\<lambda>err. case err of
       Some _ \<Rightarrow> (case setStudentStatus r e i s StudentFailed of
            Panics \<Rightarrow> ret Panics | Returns e1 \<Rightarrow> provision_students r (exam_ns e0) xs e1 False)
     | None \<Rightarrow> (case setStudentStatus r e i s StudentProvisioned of
            Panics \<Rightarrow> ret Panics
          | Returns e1 \<Rightarrow> observe_provision r e1 (was_student_provisioned e i) sid \<bind>
              (\<lambda>_. provision_students r (exam_ns e0) xs e1 ok)))) (\<lambda>es out. undeleting es \<and> Q (es @ prev) out)"
proof (rule runs_bind [OF runs_create_each [of _ r "instance_objects (PolicyProvider r) e (exam_ns e0) sid s",
      folded provisionInstance_def]], goal_cases)
  case (1 es1 err)
  show ?case
  proof (cases err)
    case None
    with 1 have objects: "instance_outcome r e0 (es1 @ prev) sid s StudentProvisioned"
      using instance_objects_same [OF same] by (simp add: instance_outcome_def Let_def)
    show ?thesis
    proof (cases "setStudentStatus r e i s StudentProvisioned")
      case Panics
      with None 1 show ?thesis by (auto intro!: runs_ret panics)
    next
      case (Returns e1)
      have "runs (es1 @ h) (observe_provision r e1 (was_student_provisioned e i) sid \<bind>
          (\<lambda>_. provision_students r (exam_ns e0) xs e1 ok)) (\<lambda>es out. undeleting es \<and> Q ((es @ es1) @ prev) out)"
        by (rule runs_bind [OF runs_undeleting [OF no_deletes_observe]],
            rule runs_conseq [OF rest [OF Returns, of "_ @ es1 @ prev"]])
          (use objects in \<open>auto simp: instance_outcome_append\<close>)
      with None Returns 1 show ?thesis by (auto intro: runs_conseq)
    qed
  next
    case (Some a)
    with 1 have refused: "instance_outcome r e0 (es1 @ prev) sid s StudentFailed"
      using instance_objects_same [OF same] by (auto simp: instance_outcome_def Let_def)
    show ?thesis
    proof (cases "setStudentStatus r e i s StudentFailed")
      case Panics
      with Some 1 show ?thesis by (auto intro!: runs_ret panics)
    next
      case (Returns e1)
      with Some 1 show ?thesis by (auto intro!: runs_conseq [OF rest [OF Returns refused]])
    qed
  qed
qed

lemma runs_provision_students:
  assumes "same_exam e0 e" "distinct (map fst xs)" "\<forall>(i, st) \<in> set xs. st = Students (Spec e0) ! i"
  shows "runs h (provision_students r (exam_ns e0) xs e ok) (\<lambda>es out. undeleting es \<and>
    (\<forall>e' ok'. out = Returns (e', ok', None) \<longrightarrow> students_deployed r e0 xs e es e'))"
  using assms
proof (induction xs arbitrary: h e ok)
  case Nil
  then show ?case by (auto simp: undeleting_def students_deployed_def intro!: runs_ret)
next
  case (Cons x xs)
  obtain i where x: "x = (i, Students (Spec e0) ! i)" using Cons.prems(3) by (cases x) simp
  have i: "i \<notin> fst ` set xs" and xs: "distinct (map fst xs)" "\<forall>(i, st) \<in> set xs. st = Students (Spec e0) ! i"
    using Cons.prems(2,3) x by auto
  have next_student: "runs h (provision_students r (exam_ns e0) xs e1 ok1) (\<lambda>es out. undeleting es \<and>
      (\<forall>e' ok'. out = Returns (e', ok', None) \<longrightarrow> students_deployed r e0 (x # xs) e (es @ es1) e'))"
    if "setStudentStatus r e i s p = Returns e1" "s \<noteq> ''''"
      "instance_outcome r e0 es1 (StudentID (Students (Spec e0) ! i)) s p" for h e1 ok1 s p es1
    by (rule runs_conseq [OF Cons.IH [OF same_exam_trans [OF Cons.prems(1) setStudentStatus_records(1) [OF that(1)]] xs]])
      (use students_deployed_Cons [OF _ that(1) i that(2,3)] x in simp)
  show ?case
    unfolding x provision_students.simps
  proof (rule runs_bind [OF runs_undeleting [OF no_deletes_slug]], goal_cases)
    case (1 es found)
    show ?case
    proof (cases found)
      case (Inl err)
      with 1 show ?thesis by (auto intro!: runs_ret)
    next
      case (Inr s)
      then have slug: "s \<noteq> ''''" using 1 by simp
      show ?thesis
        unfolding Inr sum.case
        by (rule runs_conseq [OF runs_one_student [OF Cons.prems(1) slug refl, where prev = es and
            Q = "\<lambda>es out. \<forall>e' ok'. out = Returns (e', ok', None) \<longrightarrow> students_deployed r e0 (x # xs) e es e'"]])
          (use next_student slug 1 x in auto)
    qed
  qed
qed


section \<open>The spares\<close>

abbreviation spare_records :: "exam \<Rightarrow> spareStatus list" where
  "spare_records e \<equiv> StatusSpares (ExStatus e)"

abbreviation same_records :: "exam \<Rightarrow> exam \<Rightarrow> bool" where
  "same_records e e' \<equiv> records e' = records e \<and> spare_records e' = spare_records e"

definition spare_objects :: "reconciler \<Rightarrow> exam \<Rightarrow> string \<Rightarrow> kobj set" where
  "spare_objects r e s = set (instance_objects (PolicyProvider r) e (exam_ns e) '''' s)"

text \<open>A record that was left as it was: absent ones may have been filled up with empty ones.\<close>

definition spare_kept :: "exam \<Rightarrow> exam \<Rightarrow> nat \<Rightarrow> bool" where
  "spare_kept e e' i \<longleftrightarrow>
     (if i < length (spare_records e) then i < length (spare_records e') \<and> spare_records e' ! i = spare_records e ! i
      else i < length (spare_records e') \<longrightarrow> spare_records e' ! i = zero_spare)"

definition spare_slug_kept :: "exam \<Rightarrow> nat \<Rightarrow> string \<Rightarrow> bool" where
  "spare_slug_kept e i s \<longleftrightarrow> s \<noteq> '''' \<and>
     (i < length (spare_records e) \<longrightarrow> SpareSlug (spare_records e ! i) \<noteq> '''' \<longrightarrow> s = SpareSlug (spare_records e ! i))"

text \<open>
  The outcome of one spare, by the events of its own turn of the loop: either all its objects
  were created or found and the record says so, or the server refused one of them and the record
  stays as it was.
\<close>

definition spare_outcome :: "reconciler \<Rightarrow> exam \<Rightarrow> exam \<Rightarrow> exam \<Rightarrow> log \<Rightarrow> nat \<Rightarrow> bool" where
  "spare_outcome r e0 e e' seg i \<longleftrightarrow> (\<exists>s. spare_slug_kept e i s \<and>
     (i < length (spare_records e') \<and>
      spare_records e' ! i = \<lparr>SpareSlug = s, SpareURL = instanceURL r s, SparePhase = StudentProvisioned\<rparr> \<and>
      (\<forall>x \<in> spare_objects r e0 s. created_in seg x) \<or>
      (\<exists>x \<in> spare_objects r e0 s. refused_in seg x) \<and> spare_kept e e' i))"

lemma spare_kept_refl: "spare_kept e e i"
  by (simp add: spare_kept_def)

lemma spare_kept_trans: "spare_kept e e1 i \<Longrightarrow> spare_kept e1 e' i \<Longrightarrow> spare_kept e e' i"
  by (auto simp: spare_kept_def split: if_splits)

lemma spare_outcome_mono:
  assumes "spare_outcome r e0 e1 e' seg i" "spare_kept e e1 i"
  shows "spare_outcome r e0 e e' seg i"
proof -
  have "spare_slug_kept e1 i s \<Longrightarrow> spare_slug_kept e i s" for s
    using assms(2) by (auto simp: spare_slug_kept_def spare_kept_def split: if_splits)
  with assms spare_kept_trans show ?thesis unfolding spare_outcome_def by metis
qed

lemma spare_outcome_cong:
  assumes "spare_records e2 = spare_records e1"
  shows "spare_outcome r e0 e e2 seg i = spare_outcome r e0 e e1 seg i"
    and "spare_outcome r e0 e1 e' seg i = spare_outcome r e0 e2 e' seg i"
  using assms by (simp_all add: spare_outcome_def spare_kept_def spare_slug_kept_def)

lemma setSpareStatus_records:
  assumes "e' = setSpareStatus r e i s p"
  shows "same_exam e e'" "records e' = records e" "i < length (spare_records e')"
    "spare_records e' ! i = \<lparr>SpareSlug = s, SpareURL = instanceURL r s, SparePhase = p\<rparr>"
    "j \<noteq> i \<Longrightarrow> spare_kept e e' j"
  using assms by (auto simp: setSpareStatus_def padded_def nth_append spare_kept_def intro!: same_exam_upd)

text \<open>The events of a list of spares: one segment for each, the latest first.\<close>

definition spares_deployed :: "reconciler \<Rightarrow> exam \<Rightarrow> nat list \<Rightarrow> exam \<Rightarrow> log \<Rightarrow> exam \<Rightarrow> bool" where
  "spares_deployed r e0 is e es e' \<longleftrightarrow> same_exam e0 e' \<and> records e' = records e \<and>
     (\<exists>seg. es = concat (map seg (rev is)) \<and> (\<forall>i \<in> set is. spare_outcome r e0 e e' (seg i) i)) \<and>
     (\<forall>i. i \<notin> set is \<longrightarrow> spare_kept e e' i)"

lemma spares_deployed_Cons:
  assumes "spares_deployed r e0 is e1 es2 e'" "i \<notin> set is" "records e1 = records e"
    and "\<And>j. j \<noteq> i \<Longrightarrow> spare_kept e e1 j" "spare_outcome r e0 e e' es1 i"
  shows "spares_deployed r e0 (i # is) e (es2 @ es1) e'"
proof -
  obtain seg where seg: "es2 = concat (map seg (rev is))" "\<forall>j \<in> set is. spare_outcome r e0 e1 e' (seg j) j"
    using assms(1) unfolding spares_deployed_def by blast
  let ?seg = "seg(i := es1)"
  have "map ?seg (rev is) = map seg (rev is)" by (rule map_cong) (use assms(2) in auto)
  then have segs: "es2 @ es1 = concat (map ?seg (rev (i # is)))"
    using seg(1) by (simp only: rev.simps map_append concat_append) simp
  have "spare_outcome r e0 e e' (?seg j) j" if "j \<in> set (i # is)" for j
    using that assms(2,4,5) seg(2) spare_outcome_mono by auto
  with segs have "\<exists>seg. es2 @ es1 = concat (map seg (rev (i # is))) \<and> (\<forall>j \<in> set (i # is). spare_outcome r e0 e e' (seg j) j)"
    by blast
  moreover have "spare_kept e e' j" if "j \<notin> set (i # is)" for j
    using that assms(1) spare_kept_trans [OF assms(4)] by (simp add: spares_deployed_def)
  moreover have "same_exam e0 e'" "records e' = records e" using assms(1,3) by (simp_all add: spares_deployed_def)
  ultimately show ?thesis unfolding spares_deployed_def by blast
qed

lemma spares_deployed_refused:
  assumes "spares_deployed r e0 is e es2 e'" "i \<notin> set is" "spare_slug_kept e i s"
    "x \<in> spare_objects r e0 s" "refused_in es1 x"
  shows "spares_deployed r e0 (i # is) e (es2 @ es1) e'"
proof (rule spares_deployed_Cons [OF assms(1,2) refl spare_kept_refl])
  have "spare_kept e e' i" using assms(1,2) by (simp add: spares_deployed_def)
  then show "spare_outcome r e0 e e' es1 i" using assms(3-5) unfolding spare_outcome_def by blast
qed

lemma spares_deployed_created:
  assumes "spares_deployed r e0 is (setSpareStatus r e i s StudentProvisioned) es2 e'" "i \<notin> set is"
    and "spare_slug_kept e i s" "\<forall>x \<in> spare_objects r e0 s. created_in es1 x"
  shows "spares_deployed r e0 (i # is) e (es2 @ es1) e'"
proof -
  note set_status = setSpareStatus_records [OF refl, where r = r and e = e and i = i and s = s and p = StudentProvisioned]
  show ?thesis
  proof (rule spares_deployed_Cons [OF assms(1,2) set_status(2,5)])
    have "spare_kept (setSpareStatus r e i s StudentProvisioned) e' i"
      using assms(1,2) by (simp add: spares_deployed_def)
    then show "spare_outcome r e0 e e' es1 i"
      using assms(3,4) set_status(3,4) unfolding spare_outcome_def spare_kept_def by auto
  qed
qed

lemma no_deletes_spare_slug: "emits no_deletes (findOrGenerateSpareSlug r e ns i) (\<lambda>x. \<forall>s. x = Inr s \<longrightarrow> spare_slug_kept e i s)"
proof (cases "i < length (spare_records e) \<and> SpareSlug (spare_records e ! i) \<noteq> ''''")
  case True
  then show ?thesis by (auto simp: findOrGenerateSpareSlug_def spare_slug_kept_def intro!: emit_rules)
next
  case False
  then show ?thesis by (intro emits_findOrGenerateSpareSlug) (auto simp: spare_slug_kept_def)
qed

text \<open>One spare: the creations, the record, then whatever follows; \<open>prev\<close> holds the events of finding its slug.\<close>

lemma runs_one_spare:
  assumes same: "same_exam e0 e" and slug: "spare_slug_kept e i s" and i: "i \<notin> set is"
    and rest: "\<And>h e1 ok1. same_exam e0 e1 \<Longrightarrow> runs h (provision_spares r (exam_ns e0) is e1 ok1)
      (\<lambda>es res. undeleting es \<and> (snd (snd res) = None \<longrightarrow> spares_deployed r e0 is e1 es (fst res)))"
  shows "runs h (provisionInstance r e (exam_ns e0) '''' s \<bind> (\<lambda>err. case err of
       Some _ \<Rightarrow> provision_spares r (exam_ns e0) is e False
     | None \<Rightarrow> observe_provision r (setSpareStatus r e i s StudentProvisioned) (was_spare_provisioned e i) s \<bind>
         (\<lambda>_. provision_spares r (exam_ns e0) is (setSpareStatus r e i s StudentProvisioned) ok)))
    (\<lambda>es res. undeleting es \<and> (snd (snd res) = None \<longrightarrow> spares_deployed r e0 (i # is) e (es @ prev) (fst res)))"
proof -
  let ?e1 = "setSpareStatus r e i s StudentProvisioned"
  have objects: "set (instance_objects (PolicyProvider r) e (exam_ns e0) '''' s) = spare_objects r e0 s"
    using instance_objects_same [OF same] by (simp add: spare_objects_def)
  have same1: "same_exam e0 ?e1" using same_exam_trans [OF same setSpareStatus_records(1) [OF refl]] .
  show ?thesis
  proof (rule runs_bind [OF runs_create_each [of _ r "instance_objects (PolicyProvider r) e (exam_ns e0) '''' s",
        folded provisionInstance_def, unfolded objects]], goal_cases)
    case (1 es1 err)
    show ?case
    proof (cases err)
      case None
      with 1 have c: "undeleting es1" "\<forall>x \<in> spare_objects r e0 s. created_in es1 x" by auto
      have "runs (es1 @ h) (observe_provision r ?e1 (was_spare_provisioned e i) s \<bind>
            (\<lambda>_. provision_spares r (exam_ns e0) is ?e1 ok))
          (\<lambda>es res. undeleting (es @ es1) \<and>
            (snd (snd res) = None \<longrightarrow> spares_deployed r e0 (i # is) e ((es @ es1) @ prev) (fst res)))"
      proof (rule runs_bind [OF runs_undeleting [OF no_deletes_observe]], rule runs_conseq [OF rest [OF same1]], goal_cases)
        case (1 es2 u es3 res)
        have "\<forall>x \<in> spare_objects r e0 s. created_in (es2 @ es1 @ prev) x" using c(2) by simp
        note spares_deployed_created [OF _ i slug this]
        with 1 c(1) show ?case by auto
      qed
      with None show ?thesis by simp
    next
      case (Some a)
      with 1 obtain x where x: "undeleting es1" "x \<in> spare_objects r e0 s" "refused_in (es1 @ prev) x" by auto
      note step = x(1) spares_deployed_refused [OF _ i slug x(2,3)]
      show ?thesis
        unfolding Some option.case by (rule runs_conseq [OF rest [OF same]]) (use step in auto)
    qed
  qed
qed

lemma runs_provision_spares:
  assumes "same_exam e0 e" "distinct is"
  shows "runs h (provision_spares r (exam_ns e0) is e ok) (\<lambda>es res. undeleting es \<and>
    (snd (snd res) = None \<longrightarrow> spares_deployed r e0 is e es (fst res)))"
  using assms
proof (induction "is" arbitrary: h e ok)
  case Nil
  then show ?case by (auto simp: spares_deployed_def spare_kept_refl intro!: runs_ret)
next
  case (Cons i "is")
  have i: "i \<notin> set is" "distinct is" using Cons.prems(2) by auto
  show ?case
    unfolding provision_spares.simps
  proof (rule runs_bind [OF runs_undeleting [OF no_deletes_spare_slug]], goal_cases)
    case (1 es0 found)
    show ?case
    proof (cases found)
      case (Inl err)
      with 1 show ?thesis by (auto intro!: runs_ret)
    next
      case (Inr s)
      with 1 have "spare_slug_kept e i s" "undeleting es0" by auto
      then show ?thesis
        unfolding Inr sum.case Let_def
        by (intro runs_conseq [OF runs_one_spare [OF Cons.prems(1) _ i(1) Cons.IH [OF _ i(2)], where prev = es0]]) auto
    qed
  qed
qed

section \<open>The rest of the pass\<close>

text \<open>The deletions of a pass: what a listing returned and is an orphan by the final records.\<close>

definition orphans_only :: "exam \<Rightarrow> log \<Rightarrow> exam \<Rightarrow> bool" where
  "orphans_only e es e' \<longleftrightarrow> (\<forall>k res. EvDelete k res \<in> set es \<longrightarrow>
     (\<exists>kd xs x e2. EvList kd (exam_ns e) (OwnerLabels e) (Inr xs) \<in> set es \<and> x \<in> set xs \<and> k = obj_key x \<and>
        orphan e2 x \<and> same_records e' e2))"

lemma orphans_only_append: "orphans_only e es2 e' \<Longrightarrow> undeleting es1 \<Longrightarrow> orphans_only e (es2 @ es1) e'"
  "orphans_only e es1 e' \<Longrightarrow> undeleting es2 \<Longrightarrow> orphans_only e (es2 @ es1) e'"
  unfolding orphans_only_def undeleting_def set_append Un_iff by meson+

lemma no_deletes_enter_ready: "emits no_deletes (enter_ready r e) (same_records e)"
  unfolding enter_ready_def Let_def
  by (auto intro!: emits_bind_known emit_rules emits_bind_True)

lemma runs_finish_deletes:
  assumes "same_exam e0 e"
  shows "runs h (finish_provisioning r e (exam_ns e0) ok) (\<lambda>es res. same_records e (fst res) \<and> orphans_only e0 es e)"
proof -
  have sel: "OwnerLabels e1 = OwnerLabels e0" if "same_exam e0 e1" for e1
    using that by (auto simp: same_exam_def)
  have rest: "runs h (cleanupOrphanedResources r e1 (exam_ns e0) \<bind> (\<lambda>_. allInstancesHealthy r e1 (exam_ns e0) \<bind>
        (\<lambda>healthy. if healthy then enter_ready r e1 \<bind> (\<lambda>e2. ret (e2, 0, None)) else ret (e1, 10 * Second, None))))
      (\<lambda>es res. same_records e (fst res) \<and> orphans_only e0 es e)"
    if e1: "same_exam e0 e1" "same_records e e1" for e1 h
  proof -
    have clean: "runs h (cleanupOrphanedResources r e1 (exam_ns e0)) (\<lambda>es _. orphans_only e0 es e)" for h
      unfolding cleanupOrphanedResources_def examResourceSelector_def examResourceLabels_def sel [OF e1(1)]
      by (rule runs_conseq [OF runs_cleanup_kinds]) (use e1(2) in \<open>unfold cleaned_def orphans_only_def, blast\<close>)
    have "emits no_deletes (allInstancesHealthy r e1 (exam_ns e0) \<bind>
        (\<lambda>healthy. if healthy then enter_ready r e1 \<bind> (\<lambda>e2. ret (e2, 0, None)) else ret (e1, 10 * Second, None)))
      (\<lambda>res. same_records e (fst res))"
      using e1(2) by (auto simp: allInstancesHealthy_def intro!: emit_rules emits_bind_True emits_bind [OF no_deletes_enter_ready])
    note idle = runs_undeleting [OF this]
    show ?thesis
      by (rule runs_bind [OF clean], rule runs_conseq [OF idle]) (simp add: orphans_only_append(2))
  qed
  have cond: "same_exam e0 (upd_status (\<lambda>s. s\<lparr>Conditions := cs\<rparr>) e)" for cs
    using assms by (auto intro: same_exam_upd)
  show ?thesis
    unfolding finish_provisioning_def
    using rest [of e h] rest [OF cond, of _ h] assms
    by (cases ok) (simp_all add: runs_def run_bind_lazy run_setCondition)
qed


definition pass_deploys :: "reconciler \<Rightarrow> exam \<Rightarrow> log \<Rightarrow> exam \<Rightarrow> bool" where
  "pass_deploys r e es e' \<longleftrightarrow> orphans_only e es e' \<and>
     (\<forall>i < length (Students (Spec e)). student_deployed r e es e' i) \<and>
     (\<exists>late seg early. es = late @ concat (map seg (rev [0..<nat (sint (Spares (Spec e)))])) @ early \<and>
        (\<forall>i < nat (sint (Spares (Spec e))). spare_outcome r e e e' (seg i) i))"

abbreviation numbered_students :: "exam \<Rightarrow> (nat \<times> examStudent) list" where
  "numbered_students e \<equiv> enumerate 0 (Students (Spec e))"

lemma numbered_students:
  "distinct (map fst (numbered_students e))" "\<forall>(i, st) \<in> set (numbered_students e). st = Students (Spec e) ! i"
  "fst ` set (numbered_students e) = {..<length (Students (Spec e))}"
  by (auto simp: in_set_enumerate_eq simp flip: set_map)

lemma pass_deploysI:
  assumes "undeleting es1" "students_deployed r e (numbered_students e) e es1 e1" "undeleting es2"
    "spares_deployed r e [0..<nat (sint (Spares (Spec e)))] e1 es2 e2" "same_records e2 e'" "orphans_only e es3 e2"
  shows "pass_deploys r e ((es3 @ es2) @ es1) e'"
proof -
  have "student_deployed r e es1 e1 i" if "i < length (Students (Spec e))" for i
    using assms(2) that by (simp add: students_deployed_def numbered_students(3))
  then have "student_deployed r e ((es3 @ es2) @ es1) e' i" if "i < length (Students (Spec e))" for i
    using that student_deployed_cong [of e' e1] assms(4,5) by (simp add: student_deployed_append spares_deployed_def)
  moreover obtain seg where seg: "es2 = concat (map seg (rev [0..<nat (sint (Spares (Spec e)))]))"
    "\<forall>i \<in> {..<nat (sint (Spares (Spec e)))}. spare_outcome r e e1 e2 (seg i) i"
    using assms(4) unfolding spares_deployed_def by auto
  have "spare_outcome r e e e' (seg i) i" if "i < nat (sint (Spares (Spec e)))" for i
    using seg(2) that assms(2,5) spare_outcome_cong(1) [of e' e2] spare_outcome_cong(2) [of e e1]
    by (simp add: students_deployed_def)
  with seg(1) have "\<exists>late seg early. (es3 @ es2) @ es1 = late @ concat (map seg (rev [0..<nat (sint (Spares (Spec e)))])) @ early \<and>
      (\<forall>i < nat (sint (Spares (Spec e))). spare_outcome r e e e' (seg i) i)"
    by (intro exI [of _ es3] exI [of _ seg] exI [of _ es1]) simp
  moreover have "orphans_only e ((es3 @ es2) @ es1) e'"
    using orphans_only_append(1) [OF orphans_only_append(1) [OF assms(6,3)] assms(1)] assms(5)
    by (simp add: orphans_only_def)
  ultimately show ?thesis unfolding pass_deploys_def by blast
qed

lemma runs_spares_finish:
  assumes "undeleting es1" "students_deployed r e (numbered_students e) e es1 e1"
  shows "runs h (provision_spares r (exam_ns e) [0..<nat (sint (Spares (Spec e)))] e1 ok1 \<bind>
      (\<lambda>(e2, ok2, err2). case err2 of Some x \<Rightarrow> ret (Returns (e2, 0, Some x))
        | None \<Rightarrow> finish_provisioning r e2 (exam_ns e) ok2 \<bind> (\<lambda>res. ret (Returns res))))
    (\<lambda>es out. \<forall>e' d. out = Returns (e', d, None) \<longrightarrow> pass_deploys r e (es @ es1) e')"
proof (rule runs_bind [OF runs_provision_spares [of e]], goal_cases)
  case 1
  show ?case using assms(2) by (simp add: students_deployed_def)
next
  case 2
  show ?case by simp
next
  case (3 es2 res)
  obtain e2 ok2 err2 where res: "res = (e2, ok2, err2)" by (cases res)
  show ?case
  proof (cases err2)
    case None
    then have same: "same_exam e e2" using 3 res by (simp add: spares_deployed_def)
    have "runs (es2 @ h) (finish_provisioning r e2 (exam_ns e) ok2 \<bind> (\<lambda>res. ret (Returns res)))
        (\<lambda>es out. \<forall>e' d. out = Returns (e', d, None) \<longrightarrow> pass_deploys r e ((es @ es2) @ es1) e')"
      by (rule runs_bind [OF runs_finish_deletes [OF same]], rule runs_ret) (use pass_deploysI [OF assms] 3 res None in auto)
    with res None show ?thesis by simp
  qed (use res in \<open>auto intro!: runs_ret\<close>)
qed

lemma runs_provision_instances:
  "runs h (provision_instances r e (exam_ns e)) (\<lambda>es out. \<forall>e' d. out = Returns (e', d, None) \<longrightarrow> pass_deploys r e es e')"
  unfolding provision_instances_def
proof (rule runs_bind [OF runs_provision_students [OF same_exam_refl numbered_students(1,2)]], goal_cases)
  case (1 es1 students)
  show ?case
  proof (cases "\<exists>e1 ok1. students = Returns (e1, ok1, None)")
    case False
    then show ?thesis by (auto intro!: runs_ret split: go.splits option.splits)
  next
    case True
    with 1 runs_spares_finish [of es1 r e] show ?thesis by auto
  qed
qed

lemma runs_provisioning_deploys:
  "runs h (reconcileProvisioning r e) (\<lambda>es out. \<forall>e' d. out = Returns (e', d, None) \<longrightarrow> pass_deploys r e es e')"
proof -
  have more: "pass_deploys r e (es2 @ es1) e'" if p: "pass_deploys r e es2 e'" "undeleting es1" for es1 es2 e'
  proof -
    have "orphans_only e (es2 @ es1) e'" using p orphans_only_append(1) by (simp add: pass_deploys_def)
    moreover obtain late seg early where "es2 = late @ concat (map seg (rev [0..<nat (sint (Spares (Spec e)))])) @ early"
      "\<forall>i < nat (sint (Spares (Spec e))). spare_outcome r e e e' (seg i) i"
      using p(1) unfolding pass_deploys_def by blast
    moreover from this(1) have "es2 @ es1 = late @ concat (map seg (rev [0..<nat (sint (Spares (Spec e)))])) @ early @ es1"
      by simp
    ultimately have "orphans_only e (es2 @ es1) e'" "\<exists>late seg early.
        es2 @ es1 = late @ concat (map seg (rev [0..<nat (sint (Spares (Spec e)))])) @ early \<and>
        (\<forall>i < nat (sint (Spares (Spec e))). spare_outcome r e e e' (seg i) i)" by blast+
    then show ?thesis using p(1) by (simp add: pass_deploys_def student_deployed_append(2))
  qed
  have tls: "emits no_deletes (reconcilePlatformTLSSecret r e (exam_ns e)) (\<lambda>_. True)"
    by (rule emits_reconcilePlatformTLSSecret) simp_all
  have ns: "undeleting [EvCreate x res]" for x res by (simp add: undeleting_def)
  show ?thesis
    unfolding reconcileProvisioning_def Let_def exam_ns_def [symmetric]
  proof (rule runs_bind [OF runs_rCreate], goal_cases)
    case (1 es1 err)
    have "runs (es1 @ h) (reconcilePlatformTLSSecret r e (exam_ns e) \<bind> (\<lambda>tls. case tls of
          Some x \<Rightarrow> ret (Returns (e, 0, Some x)) | None \<Rightarrow> provision_instances r e (exam_ns e)))
        (\<lambda>es out. \<forall>e' d. out = Returns (e', d, None) \<longrightarrow> pass_deploys r e (es @ es1) e')"
    proof (rule runs_bind [OF runs_undeleting [OF tls]], goal_cases)
      case (1 es2 tls)
      then have "undeleting es2" by simp
      then show ?case
        by (auto intro!: runs_ret runs_conseq [OF runs_provision_instances] more split: option.splits
            simp: \<open>es1 = _\<close> ns simp flip: append_assoc)
    qed
    then show ?case by (auto intro!: runs_ret split: option.splits)
  qed
qed


section \<open>The store after the pass\<close>

text \<open>The keys of the objects of an instance.\<close>

definition instance_keys :: "policyProvider \<Rightarrow> string \<Rightarrow> string \<Rightarrow> okey set" where
  "instance_keys p n s = {(DeploymentKind, n, s), (ServiceKind, n, s), (policy_kind p, n, s @ ''-deny-all''),
     (policy_kind p, n, s @ ''-egress-allow'')}"

lemma workload_key [simp]: "obj_key (Deployment e n sid s) = (DeploymentKind, n, s)" "obj_key (Service e n sid s) = (ServiceKind, n, s)"
  by (simp_all add: obj_key_def)

lemma instance_object_keys: "x \<in> set (instance_objects p e n sid s) \<Longrightarrow> obj_key x \<in> instance_keys p n s"
  by (auto simp: instance_objects_def instance_keys_def)

lemma labels_slug: "map_get (Labels e sid s) LabelSlug = s" "map_get (policyLabels e sid s) LabelSlug = s"
  by (simp_all add: map_get_def Labels_def policyLabels_def Let_def)

lemma policy_kind_workload [simp]: "policy_kind p \<noteq> DeploymentKind" "policy_kind p \<noteq> ServiceKind"
  by (cases p; simp)+

lemma created_slug:
  assumes "exam_creates r e b x" "obj_key x \<in> instance_keys (PolicyProvider r) (exam_ns e) s"
  shows "map_get (obj_labels x) LabelSlug = s"
proof -
  have ns: "obj_kind x \<noteq> NamespaceKind" "obj_kind x \<noteq> SecretKind"
    using assms(2) policy_kind_apart(1) [of "PolicyProvider r"]
    by (cases "PolicyProvider r"; auto simp: instance_keys_def obj_key_def)+
  then have "(\<exists>sid s. x \<in> set (instance_objects (PolicyProvider r) e (exam_ns e) sid s)) \<or>
      (\<exists>sid s. x = Ingress e (exam_ns e) sid s (BaseDomain (Platform r)) (IngressTLSSecretName (Platform r)) \<or>
         x = IngressAllow (PolicyProvider r) (exam_ns e) (policyLabels e sid s))"
    using assms(1) by (auto simp: exam_creates_def tls_copy_def)
  with assms(2) show ?thesis
    by (auto simp: instance_objects_def instance_keys_def provider.policy_labels suffixes_apart labels_slug
        policy_kind_workload [symmetric] policy_kind_apart(2) [symmetric])
qed

text \<open>
  An object of slug \<open>s\<close> the pass has created or found stays if the final records know its slug.
  The one exception is an object found under its key that was there before the pass with another
  slug label: the cleanup may take that for an orphan.
\<close>

definition in_place :: "store \<Rightarrow> store \<Rightarrow> string \<Rightarrow> kobj \<Rightarrow> bool" where
  "in_place \<sigma> \<sigma>' s x \<longleftrightarrow> \<sigma>' (obj_key x) \<noteq> None \<or>
     (\<exists>y. \<sigma> (obj_key x) = Some y \<and> map_get (obj_labels y) LabelSlug \<noteq> s)"

lemma cluster_origin:
  "cluster \<sigma> es k = Some y \<Longrightarrow> \<sigma> k = Some y \<or> (\<exists>ev \<in> set es. created ev = Some y \<and> obj_key y = k)"
proof (induction es)
  case (Cons ev es)
  have "apply_event ev (cluster \<sigma> es) k = Some y \<Longrightarrow> cluster \<sigma> es k = Some y \<or> created ev = Some y \<and> obj_key y = k"
    by (induction ev "cluster \<sigma> es" rule: apply_event.induct) (auto split: if_splits)
  with Cons show ?case by auto
qed simp

lemma created_survives:
  assumes "run_state (reconcileProvisioning r e) h = (out, es @ h)" "truthful \<sigma> es" "orphans_only e es e'"
    and x: "x \<in> set (instance_objects (PolicyProvider r) e (exam_ns e) sid s)" "created_in es x" "validSlugs e' s"
  shows "in_place \<sigma> (cluster \<sigma> es) s x"
proof (rule ccontr)
  assume "\<not> in_place \<sigma> (cluster \<sigma> es) s x"
  then have gone: "cluster \<sigma> es (obj_key x) = None"
    and before: "\<And>y. \<sigma> (obj_key x) = Some y \<Longrightarrow> map_get (obj_labels y) LabelSlug = s"
    by (auto simp: in_place_def)
  from x(2) obtain res where res: "EvCreate x res \<in> set es" "res \<in> {None, Some AlreadyExists}" by (auto simp: created_in_def)
  have "\<not> deletes_key ev (obj_key x)" if ev: "ev \<in> set es" for ev
  proof
    assume "deletes_key ev (obj_key x)"
    then obtain a where "EvDelete (obj_key x) a \<in> set es" using ev by (cases ev) auto
    with assms(3) obtain kd xs y e2 where y: "EvList kd (exam_ns e) (OwnerLabels e) (Inr xs) \<in> set es" "y \<in> set xs"
      "obj_key x = obj_key y" "orphan e2 y" "same_records e' e2"
      unfolding orphans_only_def by blast
    obtain es1 es2 where es: "es = es2 @ EvList kd (exam_ns e) (OwnerLabels e) (Inr xs) # es1"
      using y(1) by (meson split_list)
    with assms(2) y(2) have "cluster \<sigma> es1 (obj_key y) = Some y" by (auto simp: truthful_append)
    from cluster_origin [OF this] have "map_get (obj_labels y) LabelSlug = s"
    proof
      assume "\<sigma> (obj_key y) = Some y"
      with before y(3) show ?thesis by simp
    next
      assume "\<exists>ev \<in> set es1. created ev = Some y \<and> obj_key y = obj_key y"
      then obtain ev' where "ev' \<in> set es" "created ev' = Some y" using es by auto
      from emits_created [OF fp_reconcileProvisioning assms(1) this] have "exam_creates r e False y" by blast
      then show ?thesis using created_slug instance_object_keys [OF x(1)] y(3) by metis
    qed
    with y(4,5) x(3) show False by (auto simp: orphan_def validSlugs_def)
  qed
  from created_stays [OF assms(2) res this] gone show False by simp
qed

lemma recorded_valid:
  "i < length (records e) \<Longrightarrow> Slug (records e ! i) \<noteq> '''' \<Longrightarrow> validSlugs e (Slug (records e ! i))"
  "i < length (spare_records e) \<Longrightarrow> SpareSlug (spare_records e ! i) \<noteq> '''' \<Longrightarrow> validSlugs e (SpareSlug (spare_records e ! i))"
  by (simp_all add: validSlugs_def)

section \<open>Properties\<close>

text \<open>
  C8: after a provisioning pass without error the status can be relied on. The record of every
  student has a slug, and either it says Provisioned and the Deployment, the Service, the
  deny-all and the egress policy of that slug are in the cluster, or it says Failed and the
  server refused to create one of them. Every spare had its own turn in the pass, with a slug
  that is the recorded one if there was one: either it is recorded as Provisioned with that slug
  and its objects are in the cluster as well, or the server refused one of them in that turn and
  the record stays as it was. That holds whichever calls failed on the way and whatever the
  orphan cleanup at the end of the pass deleted. The one exception is an object that lay under
  the name of an instance's object before the pass with another slug label, which the cleanup
  may take for an orphan.
\<close>
theorem provisioned_instances_deployed:
  assumes "run_state (reconcileProvisioning r e) h = (Returns (e', d, None), es @ h)" "truthful \<sigma> es"
  shows "(\<forall>i < length (Students (Spec e)). i < length (StatusStudents (ExStatus e')) \<and>
      (let s = StatusStudents (ExStatus e') ! i;
           xs = set (instance_objects (PolicyProvider r) e (exam_ns e) (StudentID (Students (Spec e) ! i)) (Slug s)) in
       Slug s \<noteq> '''' \<and>
       (Phase s = StudentProvisioned \<and> (\<forall>x \<in> xs. in_place \<sigma> (cluster \<sigma> es) (Slug s) x) \<or>
        Phase s = StudentFailed \<and> (\<exists>x \<in> xs. \<exists>a. a \<noteq> AlreadyExists \<and> EvCreate x (Some a) \<in> set es)))) \<and>
    (\<exists>late turn early. es = late @ concat (map turn (rev [0..<nat (sint (Spares (Spec e)))])) @ early \<and>
      (\<forall>i < nat (sint (Spares (Spec e))). \<exists>s. spare_slug_kept e i s \<and>
        (let xs = set (instance_objects (PolicyProvider r) e (exam_ns e) '''' s) in
         i < length (StatusSpares (ExStatus e')) \<and>
           StatusSpares (ExStatus e') ! i = \<lparr>SpareSlug = s, SpareURL = instanceURL r s, SparePhase = StudentProvisioned\<rparr> \<and>
           (\<forall>x \<in> xs. in_place \<sigma> (cluster \<sigma> es) s x) \<or>
         (\<exists>x \<in> xs. \<exists>a. a \<noteq> AlreadyExists \<and> EvCreate x (Some a) \<in> set (turn i)) \<and> spare_kept e e' i)))"
proof (intro conjI allI impI)
  have p: "pass_deploys r e es e'"
    using runs_provisioning_deploys [of h r e] assms(1) by (simp add: runs_def)
  then have "orphans_only e es e'" by (simp add: pass_deploys_def)
  note there = created_survives [OF assms this]
  {
    fix i assume "i < length (Students (Spec e))"
    with p have deployed: "student_deployed r e es e' i" by (simp add: pass_deploys_def)
    then show "i < length (records e')" by (simp add: student_deployed_def)
    with deployed there [OF _ _ recorded_valid(1) [of i e']]
    show "let s = records e' ! i;
        xs = set (instance_objects (PolicyProvider r) e (exam_ns e) (StudentID (Students (Spec e) ! i)) (Slug s)) in
      Slug s \<noteq> '''' \<and>
      (Phase s = StudentProvisioned \<and> (\<forall>x \<in> xs. in_place \<sigma> (cluster \<sigma> es) (Slug s) x) \<or>
       Phase s = StudentFailed \<and> (\<exists>x \<in> xs. \<exists>a. a \<noteq> AlreadyExists \<and> EvCreate x (Some a) \<in> set es))"
      by (auto simp: Let_def student_deployed_def instance_outcome_def refused_in_def)
  }
  let ?n = "nat (sint (Spares (Spec e)))"
  obtain late turn early where es: "es = late @ concat (map turn (rev [0..<?n])) @ early"
    and turns: "\<forall>i < ?n. spare_outcome r e e e' (turn i) i"
    using p unfolding pass_deploys_def by blast
  have sub: "set (turn i) \<subseteq> set es" if "i < ?n" for i using that by (force simp: es)
  have "\<exists>s. spare_slug_kept e i s \<and> (let xs = set (instance_objects (PolicyProvider r) e (exam_ns e) '''' s) in
      i < length (spare_records e') \<and>
        spare_records e' ! i = \<lparr>SpareSlug = s, SpareURL = instanceURL r s, SparePhase = StudentProvisioned\<rparr> \<and>
        (\<forall>x \<in> xs. in_place \<sigma> (cluster \<sigma> es) s x) \<or>
      (\<exists>x \<in> xs. \<exists>a. a \<noteq> AlreadyExists \<and> EvCreate x (Some a) \<in> set (turn i)) \<and> spare_kept e e' i)" if i: "i < ?n" for i
  proof -
    obtain s where s: "spare_slug_kept e i s" and outcome:
      "i < length (spare_records e') \<and>
         spare_records e' ! i = \<lparr>SpareSlug = s, SpareURL = instanceURL r s, SparePhase = StudentProvisioned\<rparr> \<and>
         (\<forall>x \<in> spare_objects r e s. created_in (turn i) x) \<or>
       (\<exists>x \<in> spare_objects r e s. refused_in (turn i) x) \<and> spare_kept e e' i"
      using turns i unfolding spare_outcome_def by blast
    have "in_place \<sigma> (cluster \<sigma> es) s x"
      if "i < length (spare_records e')" "SpareSlug (spare_records e' ! i) = s" "x \<in> spare_objects r e s" "created_in (turn i) x" for x
    proof (rule there [of x "''''" s])
      show "created_in es x" using that(4) sub [OF i] by (auto simp: created_in_def)
      show "validSlugs e' s" using recorded_valid(2) [OF that(1)] that(2) s by (auto simp: spare_slug_kept_def)
    qed (use that(3) in \<open>simp add: spare_objects_def\<close>)
    with outcome s show ?thesis
      unfolding Let_def refused_in_def spare_objects_def by (intro exI [of _ s]) fastforce
  qed
  with es show "\<exists>late turn early. es = late @ concat (map turn (rev [0..<?n])) @ early \<and>
      (\<forall>i < ?n. \<exists>s. spare_slug_kept e i s \<and> (let xs = set (instance_objects (PolicyProvider r) e (exam_ns e) '''' s) in
        i < length (spare_records e') \<and>
          spare_records e' ! i = \<lparr>SpareSlug = s, SpareURL = instanceURL r s, SparePhase = StudentProvisioned\<rparr> \<and>
          (\<forall>x \<in> xs. in_place \<sigma> (cluster \<sigma> es) s x) \<or>
        (\<exists>x \<in> xs. \<exists>a. a \<noteq> AlreadyExists \<and> EvCreate x (Some a) \<in> set (turn i)) \<and> spare_kept e e' i))"
    by blast
qed

section \<open>A concrete pass\<close>

text \<open>The truthful server again: provisioning after a pass in which the instance had failed.\<close>

lemma keep_quiet [keep_rules]: "keeps_good (slugGenerate (sample_server p e t))" "keeps_good (metric (sample_server p e t) op)"
  by (auto simp: keeps_good_def slugGenerate_def metric_def sample_server_def intro!: good_log_other)

lemma keep_create_each [keep_rules]: "keeps_good (create_each (sample_server p e t) xs)"
  by (induction xs) (auto intro!: keep_rules)

lemma keep_cleanup [keep_rules]: "keeps_good (cleanupOrphanedResources (sample_server p e t) ex ns)"
proof -
  have "keeps_good (delete_orphans (sample_server p e t) f xs)" for f xs
    by (induction xs) (auto simp: Let_def intro!: keep_rules)
  then have "keeps_good (cleanup_kinds (sample_server p e t) f ns' sel ks)" for f ns' sel ks
    by (induction ks) (auto intro!: keep_rules)
  then show ?thesis by (simp add: cleanupOrphanedResources_def)
qed

lemma keep_slugs [keep_rules]:
  "keeps_good (findOrGenerateSlug (sample_server p e t) ex ns sid)"
  "keeps_good (findOrGenerateSpareSlug (sample_server p e t) ex ns i)"
  by (auto simp: findOrGenerateSlug_def findOrGenerateSpareSlug_def new_slug_def Let_def intro!: keep_rules split: list.splits)

lemma keep_observe [keep_rules]: "keeps_good (observe_provision (sample_server p e t) ex w who)"
  by (auto simp: observe_provision_def intro!: keep_rules)

lemma keep_provisioning: "keeps_good (reconcileProvisioning (sample_server p e t) ex)"
proof -
  have go: "keeps_good m \<Longrightarrow> (\<And>y. keeps_good (f y)) \<Longrightarrow> keeps_good (case x of Panics \<Rightarrow> m | Returns y \<Rightarrow> f y)" for m f x
    by (cases x) auto
  have "keeps_good (provision_students (sample_server p e t) ns xs ex ok)" for ns xs ex ok
    by (induction xs arbitrary: ex ok) (auto simp: provisionInstance_def intro!: keep_rules go)
  moreover have "keeps_good (provision_spares (sample_server p e t) ns is ex ok)" for ns "is" ex ok
    by (induction "is" arbitrary: ex ok) (auto simp: provisionInstance_def Let_def intro!: keep_rules)
  moreover have "keeps_good (finish_provisioning (sample_server p e t) ex ns ok)" for ex ns ok
    by (auto simp: finish_provisioning_def allInstancesHealthy_def enter_ready_def Let_def intro!: keep_rules)
  ultimately show ?thesis
    by (auto simp: reconcileProvisioning_def provision_instances_def reconcilePlatformTLSSecret_def Let_def
        intro!: keep_rules go)
qed

text \<open>An exam of one student and one spare; the student's instance has failed, the spare's too.\<close>

definition failed_status :: examStatus where
  "failed_status = zero_status\<lparr>ExPhase := PhaseProvisioning, StatusStudents := [\<lparr>ID = ''100000001'', Slug = ''abcdefgh'',
     URL = '''', Phase = StudentFailed, EmailStatus = EmailPending, EmailSentAt = None\<rparr>],
     StatusSpares := [\<lparr>SpareSlug = ''qrstuvwx'', SpareURL = '''', SparePhase = StudentFailed\<rparr>]\<rparr>"

definition failed_exam :: exam where
  "failed_exam = (sample_with failed_status)\<lparr>Spec := sample_spec\<lparr>Spares := 1\<rparr>\<rparr>"

lemma failed_exam_simps [simp]:
  "Spec failed_exam = sample_spec\<lparr>Spares := 1\<rparr>" "ExStatus failed_exam = failed_status"
  by (simp_all add: failed_exam_def)

lemma sample_server_creates: "cl_Create (sample_server p e t) h x \<in> {None, Some AlreadyExists}"
  by (simp add: sample_server_def)

lemma failed_pass:
  "\<exists>e' d. fst (run_state (reconcileProvisioning (sample_server VanillaPolicyProvider failed_exam 0) failed_exam) h) = Returns (e', d, None)"
proof -
  let ?e = failed_exam and ?s = "''abcdefgh''" and ?sid = "''100000001''"
  let ?r = "sample_server VanillaPolicyProvider failed_exam 0" and ?ns = "exam_ns failed_exam"
  have slug: "run_state (findOrGenerateSlug ?r ?e ?ns ?sid) h = (Inr ?s, h)" for h
    by (simp add: findOrGenerateSlug_def failed_status_def)
  obtain e1 where e1: "setStudentStatus ?r ?e 0 ?s StudentProvisioned = Returns e1"
    by (simp add: setStudentStatus_def sample_spec_def)
  note same = setStudentStatus_records [OF e1]
  have spec: "Spec e1 = sample_spec\<lparr>Spares := 1\<rparr>" "ProvisionTime (ExStatus e1) = None"
    using same_examD(1) [OF same(1)] e1 by (auto simp: setStudentStatus_def failed_status_def zero_status_def split: if_splits)
  have spares: "StatusSpares (ExStatus e1) = [\<lparr>SpareSlug = ''qrstuvwx'', SpareURL = '''', SparePhase = StudentFailed\<rparr>]"
    using same(6) by (simp add: failed_status_def)
  have students: "\<exists>h'. run_state (provision_students ?r ?ns (enumerate 0 (Students sample_spec)) ?e True) h =
      (Returns (e1, True, None), h')" for h
  proof -
    obtain h1 where "run_state (provisionInstance ?r ?e ?ns ?sid ?s) h = (None, h1)"
      using run_provisionInstance [OF sample_server_creates] .
    then show ?thesis by (simp add: sample_spec_def slug run_bind_lazy e1 case_prod_beta)
  qed
  have spare: "\<exists>e2 h'. run_state (provision_spares ?r ?ns [0..<1] e1 True) h = ((e2, True, None), h')" for h
  proof -
    obtain h1 where "run_state (provisionInstance ?r e1 ?ns '''' ''qrstuvwx'') h = (None, h1)"
      using run_provisionInstance [OF sample_server_creates] .
    then show ?thesis by (simp add: findOrGenerateSpareSlug_def spares run_bind_lazy case_prod_beta Let_def)
  qed
  have finish: "\<exists>e3 d h'. run_state (finish_provisioning ?r e2 ?ns True) h = ((e3, d, None), h')" for h e2
  proof -
    have "snd (snd (fst (run_state (finish_provisioning ?r e2 ?ns True) h))) = None"
      by (simp add: finish_provisioning_def run_bind_lazy case_prod_beta)
    then show ?thesis by (metis prod.collapse)
  qed
  have create: "\<exists>err h'. run_state (rCreate ?r x) h = (err, h') \<and> ignore_exists err = None" for x h
    using sample_server_creates [of VanillaPolicyProvider ?e 0 h x] by (auto simp: rCreate_def ignore_exists_None)
  obtain err h1 where 1: "run_state (rCreate ?r (KNamespace \<lparr>ObjName = ?ns, ObjNamespace = '''', ObjLabels = examResourceLabels ?e\<rparr>)) h =
      (err, h1)" "ignore_exists err = None"
    using create by blast
  obtain h2 where 2: "run_state (provision_students ?r ?ns (enumerate 0 (Students sample_spec)) ?e True) h1 = (Returns (e1, True, None), h2)"
    using students by blast
  obtain e2 h3 where 3: "run_state (provision_spares ?r ?ns [0..<1] e1 True) h2 = ((e2, True, None), h3)"
    using spare by blast
  obtain e3 d h4 where 4: "run_state (finish_provisioning ?r e2 ?ns True) h3 = ((e3, d, None), h4)"
    using finish by blast
  have "IngressTLSSecretName (Platform ?r) = ''''" by (simp add: sample_server_def)
  with 1 2 3 4 show ?thesis
    by (simp add: reconcileProvisioning_def exam_ns_def reconcilePlatformTLSSecret_def provision_instances_def run_bind_lazy
        spec Let_def del: provision_spares.simps)
qed

theorem provisioned_instances_deployed_witness:
  "\<exists>e' d es. run_state (reconcileProvisioning (sample_server VanillaPolicyProvider failed_exam 0) failed_exam) [] = (Returns (e', d, None), es @ []) \<and>
     Phase (StatusStudents (ExStatus e') ! 0) = StudentProvisioned \<and>
     cluster Map.empty es (ServiceKind, exam_ns failed_exam, Slug (StatusStudents (ExStatus e') ! 0)) \<noteq> None \<and>
     SparePhase (StatusSpares (ExStatus e') ! 0) = StudentProvisioned \<and>
     SpareSlug (StatusSpares (ExStatus e') ! 0) = ''qrstuvwx'' \<and>
     cluster Map.empty es (ServiceKind, exam_ns failed_exam, ''qrstuvwx'') \<noteq> None"
proof -
  let ?e = failed_exam
  let ?m = "reconcileProvisioning (sample_server VanillaPolicyProvider ?e 0) ?e"
  obtain out es where 1: "run_state ?m [] = (out, es @ [])" "truthful Map.empty es" "accepted es"
    using good_run [OF keep_provisioning] by metis
  obtain e' d where "out = Returns (e', d, None)" using failed_pass [of "[]"] 1(1) by auto
  with 1 have run: "run_state ?m [] = (Returns (e', d, None), es @ [])" by simp
  note deployed = provisioned_instances_deployed [OF run 1(2)]
  have accepted: "a = AlreadyExists" if "EvCreate x (Some a) \<in> set es" for x a
    using 1(3) that by (auto simp: accepted_def)
  have service: "Service ?e (exam_ns ?e) sid s \<in> set (instance_objects (PolicyProvider (sample_server VanillaPolicyProvider ?e 0)) ?e (exam_ns ?e) sid s)" for sid s
    by (simp add: instance_objects_def)
  have key: "obj_key (Service ?e (exam_ns ?e) sid s) = (ServiceKind, exam_ns ?e, s)" for sid s
    by (simp add: obj_key_def)
  have "0 < length (Students (Spec ?e))" by (simp add: sample_spec_def)
  note student = deployed [THEN conjunct1, rule_format, OF this]
  then have "Phase (StatusStudents (ExStatus e') ! 0) = StudentProvisioned"
    "cluster Map.empty es (ServiceKind, exam_ns ?e, Slug (StatusStudents (ExStatus e') ! 0)) \<noteq> None"
    using accepted service key unfolding Let_def in_place_def by (metis option.distinct(1))+
  moreover have n: "0 < nat (sint (Spares (Spec ?e)))" by simp
  with deployed [THEN conjunct2] obtain late turn early s where
    es: "es = late @ concat (map turn (rev [0..<nat (sint (Spares (Spec ?e)))])) @ early" and slug: "spare_slug_kept ?e 0 s" and
    spare: "StatusSpares (ExStatus e') ! 0 = \<lparr>SpareSlug = s, SpareURL = instanceURL (sample_server VanillaPolicyProvider ?e 0) s, SparePhase = StudentProvisioned\<rparr> \<and>
        (\<forall>x \<in> set (instance_objects (PolicyProvider (sample_server VanillaPolicyProvider ?e 0)) ?e (exam_ns ?e) '''' s). in_place Map.empty (cluster Map.empty es) s x) \<or>
      (\<exists>x a. a \<noteq> AlreadyExists \<and> EvCreate x (Some a) \<in> set (turn 0))"
    unfolding Let_def by blast
  have s: "s = ''qrstuvwx''" "set (turn 0) \<subseteq> set es"
    using slug es by (auto simp: spare_slug_kept_def failed_status_def)
  with spare accepted have "StatusSpares (ExStatus e') ! 0 = \<lparr>SpareSlug = s, SpareURL = instanceURL (sample_server VanillaPolicyProvider ?e 0) s, SparePhase = StudentProvisioned\<rparr>"
    "in_place Map.empty (cluster Map.empty es) s (Service ?e (exam_ns ?e) '''' s)"
    using service by blast+
  with s have "SparePhase (StatusSpares (ExStatus e') ! 0) = StudentProvisioned" "SpareSlug (StatusSpares (ExStatus e') ! 0) = ''qrstuvwx''"
    "cluster Map.empty es (ServiceKind, exam_ns ?e, ''qrstuvwx'') \<noteq> None"
    using key by (simp_all add: in_place_def)
  ultimately show ?thesis using run by blast
qed

end
