(* ===== verification/Traffic.thy ===== *)
theory Traffic
  imports Deployed
begin

text \<open>
  What the policies stored in the cluster mean for traffic, for both policy providers, and what
  the passes of the controller therefore guarantee: who can reach an instance while its exam is
  closed and open, and whom an instance can reach.

  The datapath is not part of the repository. A NetworkPolicy is read by the documented
  semantics of Kubernetes: once some policy selects a pod for a direction, traffic in that
  direction needs a rule of such a policy that allows it. A CiliumNetworkPolicy is read by the
  documented semantics of Cilium: an endpoint that a policy with an \<^verbatim>\<open>ingress\<close> or
  \<^verbatim>\<open>ingressDeny\<close> section selects is in default deny for ingress (and likewise for egress), a
  rule allows what matches its peers and its ports, an empty allow rule allows nothing, and a
  deny rule that matches prevails over every allow rule. Two things are parameters: whether a
  deny rule without any field matches all traffic or none, which the documentation leaves open,
  and which peers Cilium's name cache maps to a DNS pattern. The HTTP rule of the ingress policy
  admits every request and is not modelled further.
\<close>

section \<open>The datapath\<close>

record datapath =
  EmptyDenyMatches :: bool
  NameMatches :: "string \<Rightarrow> labels \<Rightarrow> labels \<Rightarrow> bool"

text \<open>Reading the untyped content of a CiliumNetworkPolicy.\<close>

fun json_get :: "string \<Rightarrow> json \<Rightarrow> json option" where
  "json_get k (JObj kvs) = map_of kvs k"
| "json_get k _ = None"

fun json_items :: "json option \<Rightarrow> json list" where
  "json_items (Some (JArr xs)) = xs"
| "json_items _ = []"

fun label_is :: "labels \<Rightarrow> string \<times> json \<Rightarrow> bool" where
  "label_is l (k, JStr v) \<longleftrightarrow> l k = Some v"
| "label_is l _ \<longleftrightarrow> False"

fun labels_match :: "labels \<Rightarrow> json option \<Rightarrow> bool" where
  "labels_match l None \<longleftrightarrow> True"
| "labels_match l (Some (JObj kvs)) \<longleftrightarrow> list_all (label_is l) kvs"
| "labels_match l _ \<longleftrightarrow> False"

definition endpoint_matches :: "labels \<Rightarrow> json \<Rightarrow> bool" where
  "endpoint_matches l sel \<longleftrightarrow> labels_match l (json_get ''matchLabels'' sel)"

text \<open>
  The labels of a peer as Cilium sees it: those of the pod, and the name of its namespace, which
  the API server also keeps as a label of the namespace.
\<close>

definition peer_labels :: "labels \<Rightarrow> labels \<Rightarrow> labels" where
  "peer_labels nsl podl =
     (\<lambda>k. if k = ''k8s:io.kubernetes.pod.namespace'' then nsl ''kubernetes.io/metadata.name'' else podl k)"

fun direction :: "policyType \<Rightarrow> string" where
  "direction PolicyIngress = ''ingress''"
| "direction PolicyEgress = ''egress''"

fun protocol_name :: "protocol \<Rightarrow> string" where
  "protocol_name TCP = ''TCP''"
| "protocol_name UDP = ''UDP''"

definition cilium_peer :: "datapath \<Rightarrow> policyType \<Rightarrow> json \<Rightarrow> labels \<Rightarrow> labels \<Rightarrow> bool" where
  "cilium_peer C t rule nsl podl \<longleftrightarrow>
     (let endpoints = json_get (case t of PolicyIngress \<Rightarrow> ''fromEndpoints'' | PolicyEgress \<Rightarrow> ''toEndpoints'') rule;
          names = json_get ''toFQDNs'' rule in
      endpoints = None \<and> names = None \<or>
      list_ex (endpoint_matches (peer_labels nsl podl)) (json_items endpoints) \<or>
      list_ex (\<lambda>n. case json_get ''matchPattern'' n of Some (JStr p) \<Rightarrow> NameMatches C p nsl podl | _ \<Rightarrow> False) (json_items names))"

definition cilium_port :: "json \<Rightarrow> int32 \<Rightarrow> protocol \<Rightarrow> bool" where
  "cilium_port rule port proto \<longleftrightarrow>
     json_get ''toPorts'' rule = None \<or>
     list_ex (\<lambda>entry. list_ex (\<lambda>p. json_get ''port'' p = Some (JStr (dec_int (sint port))) \<and>
         json_get ''protocol'' p = Some (JStr (protocol_name proto))) (json_items (json_get ''ports'' entry)))
       (json_items (json_get ''toPorts'' rule))"

definition cilium_rule :: "datapath \<Rightarrow> bool \<Rightarrow> policyType \<Rightarrow> json \<Rightarrow> labels \<Rightarrow> labels \<Rightarrow> int32 \<Rightarrow> protocol \<Rightarrow> bool" where
  "cilium_rule C deny t rule nsl podl port proto \<longleftrightarrow>
     (if rule = JObj [] then deny \<and> EmptyDenyMatches C
      else cilium_peer C t rule nsl podl \<and> cilium_port rule port proto)"

definition cilium_section :: "string \<Rightarrow> json \<Rightarrow> json option" where
  "cilium_section name j = (case json_get ''spec'' j of None \<Rightarrow> None | Some spec \<Rightarrow> json_get name spec)"

text \<open>The rules of a NetworkPolicy.\<close>

definition peer_matches :: "policyPeer \<Rightarrow> labels \<Rightarrow> labels \<Rightarrow> bool" where
  "peer_matches peer nsl podl \<longleftrightarrow>
     (case PeerNamespaceLabels peer of None \<Rightarrow> True | Some s \<Rightarrow> selected_by s nsl) \<and>
     (case PeerPodLabels peer of None \<Rightarrow> True | Some s \<Rightarrow> selected_by s podl)"

definition rule_allows :: "policyRule \<Rightarrow> labels \<Rightarrow> labels \<Rightarrow> int32 \<Rightarrow> protocol \<Rightarrow> bool" where
  "rule_allows r nsl podl port proto \<longleftrightarrow>
     (RulePeers r = [] \<or> (\<exists>peer \<in> set (RulePeers r). peer_matches peer nsl podl)) \<and>
     (RulePorts r = [] \<or> \<lparr>PolicyPortNumber = port, PolicyProtocol = proto\<rparr> \<in> set (RulePorts r))"

fun policy_rules :: "policyType \<Rightarrow> networkPolicySpec \<Rightarrow> policyRule list" where
  "policy_rules PolicyIngress s = IngressAllowed s"
| "policy_rules PolicyEgress s = EgressAllowed s"

text \<open>The verdicts of one stored policy.\<close>

fun policy_selects :: "policyType \<Rightarrow> kobj \<Rightarrow> labels \<Rightarrow> bool" where
  "policy_selects t (KNetworkPolicy m s) pod \<longleftrightarrow> selected_by (PolicySelector s) pod \<and> t \<in> set (PolicyTypes s)"
| "policy_selects t (KCiliumPolicy m j) pod \<longleftrightarrow>
     (case cilium_section ''endpointSelector'' j of None \<Rightarrow> False | Some sel \<Rightarrow> endpoint_matches pod sel) \<and>
     (cilium_section (direction t) j \<noteq> None \<or> cilium_section (direction t @ ''Deny'') j \<noteq> None)"
| "policy_selects t _ pod \<longleftrightarrow> False"

fun policy_admits :: "datapath \<Rightarrow> policyType \<Rightarrow> kobj \<Rightarrow> labels \<Rightarrow> labels \<Rightarrow> int32 \<Rightarrow> protocol \<Rightarrow> bool" where
  "policy_admits C t (KNetworkPolicy m s) nsl podl port proto \<longleftrightarrow>
     (\<exists>r \<in> set (policy_rules t s). rule_allows r nsl podl port proto)"
| "policy_admits C t (KCiliumPolicy m j) nsl podl port proto \<longleftrightarrow>
     list_ex (\<lambda>rule. cilium_rule C False t rule nsl podl port proto) (json_items (cilium_section (direction t) j))"
| "policy_admits C t _ nsl podl port proto \<longleftrightarrow> False"

fun policy_denies :: "datapath \<Rightarrow> policyType \<Rightarrow> kobj \<Rightarrow> labels \<Rightarrow> labels \<Rightarrow> int32 \<Rightarrow> protocol \<Rightarrow> bool" where
  "policy_denies C t (KCiliumPolicy m j) nsl podl port proto \<longleftrightarrow>
     list_ex (\<lambda>rule. cilium_rule C True t rule nsl podl port proto) (json_items (cilium_section (direction t @ ''Deny'') j))"
| "policy_denies C t _ nsl podl port proto \<longleftrightarrow> False"

text \<open>
  \<open>traffic_allowed C t P pod nsl podl port proto\<close>: under the policies \<open>P\<close> of its namespace, a
  pod with labels \<open>pod\<close> may exchange traffic in direction \<open>t\<close> with a pod labelled \<open>podl\<close> in
  a namespace labelled \<open>nsl\<close>.
\<close>

definition traffic_allowed ::
    "datapath \<Rightarrow> policyType \<Rightarrow> kobj list \<Rightarrow> labels \<Rightarrow> labels \<Rightarrow> labels \<Rightarrow> int32 \<Rightarrow> protocol \<Rightarrow> bool" where
  "traffic_allowed C t P pod nsl podl port proto \<longleftrightarrow>
     (let sel = filter (\<lambda>p. policy_selects t p pod) P in
      (sel = [] \<or> (\<exists>p \<in> set sel. policy_admits C t p nsl podl port proto)) \<and>
      \<not> (\<exists>p \<in> set sel. policy_denies C t p nsl podl port proto))"

lemma traffic_allowed_iff:
  "traffic_allowed C t P pod nsl podl port proto \<longleftrightarrow>
     ((\<forall>p \<in> set P. \<not> policy_selects t p pod) \<or>
      (\<exists>p \<in> set P. policy_selects t p pod \<and> policy_admits C t p nsl podl port proto)) \<and>
     \<not> (\<exists>p \<in> set P. policy_selects t p pod \<and> policy_denies C t p nsl podl port proto)"
  by (auto simp: traffic_allowed_def Let_def filter_empty_conv)

section \<open>The three policies of an instance\<close>

definition controller_traffic :: "exam \<Rightarrow> labels \<Rightarrow> labels \<Rightarrow> int32 \<Rightarrow> protocol \<Rightarrow> bool" where
  "controller_traffic e nsl podl port proto \<longleftrightarrow>
     nsl ''kubernetes.io/metadata.name'' = Some ''ingress-nginx'' \<and>
     podl ''app.kubernetes.io/name'' = Some ''ingress-nginx'' \<and>
     port = Port (Template (Spec e)) \<and> proto = TCP"

definition dns_traffic :: "datapath \<Rightarrow> policyProvider \<Rightarrow> labels \<Rightarrow> labels \<Rightarrow> int32 \<Rightarrow> bool" where
  "dns_traffic C p nsl podl port \<longleftrightarrow> port = 53 \<and>
     (case p of
        VanillaPolicyProvider \<Rightarrow>
          nsl ''kubernetes.io/metadata.name'' = Some ''kube-system'' \<and> podl ''k8s-app'' = Some ''kube-dns''
      | CiliumPolicyProvider \<Rightarrow> NameMatches C ''*.cluster.local'' nsl podl)"

definition denies_all :: "datapath \<Rightarrow> policyProvider \<Rightarrow> bool" where
  "denies_all C p \<longleftrightarrow> p = CiliumPolicyProvider \<and> EmptyDenyMatches C"

lemma dec_int_inject: "dec_int (sint (p :: int32)) = dec_int (sint (q :: int32)) \<longleftrightarrow> p = q"
  using Atoi_dec_int sint32_bounds by (metis prod.inject signed_word_eqI)

lemma dec_int_53: "''53'' = dec_int (sint (p :: int32)) \<longleftrightarrow> p = 53"
proof -
  have "dec_int (sint (53 :: int32)) = ''53''" by code_simp
  then show ?thesis using dec_int_inject [of 53 p] by auto
qed

lemma portFromLabels_policy: "portFromLabels (policyLabels e sid s) = dec_int (sint (Port (Template (Spec e))))"
  by (simp add: portFromLabels_def policyLabels_def map_get_def Let_def)

lemmas cilium_defs = ciliumPolicy_def endpointSelector_def cilium_section_def endpoint_matches_def cilium_rule_def
  cilium_peer_def cilium_port_def peer_labels_def Let_def

lemma deny_verdicts [simp]:
  "policy_selects t (DenyAll p n l) pod \<longleftrightarrow> pod LabelSlug = Some (slugFromLabels l)"
  "\<not> policy_admits C t (DenyAll p n l) nsl podl port proto"
  "policy_denies C t (DenyAll p n l) nsl podl port proto \<longleftrightarrow> denies_all C p"
  by (cases p; cases t; (simp add: Vanilla_DenyAll_def Cilium_DenyAll_def cilium_defs denies_all_def; fail))+

lemma egress_selects [simp]:
  "policy_selects t (EgressAllowlist p n l) pod \<longleftrightarrow> t = PolicyEgress \<and> pod LabelSlug = Some (slugFromLabels l)"
  "\<not> policy_denies C t (EgressAllowlist p n l) nsl podl port proto"
  by (cases p; cases t; (simp add: Vanilla_EgressAllowlist_def Cilium_EgressAllowlist_def cilium_defs; fail))+

lemma egress_admits [simp]:
  "policy_admits C PolicyEgress (EgressAllowlist p n l) nsl podl port proto \<longleftrightarrow> dns_traffic C p nsl podl port"
proof (cases p)
  case VanillaPolicyProvider
  then show ?thesis
    by (cases proto) (auto simp: Vanilla_EgressAllowlist_def Let_def dns_traffic_def rule_allows_def peer_matches_def selected_by_upd)
next
  case CiliumPolicyProvider
  then show ?thesis
    by (cases proto) (simp_all add: Cilium_EgressAllowlist_def cilium_defs dns_traffic_def dec_int_53 conj_commute)
qed

lemma ingress_selects [simp]:
  "policy_selects t (IngressAllow p n l) pod \<longleftrightarrow> t = PolicyIngress \<and> pod LabelSlug = Some (slugFromLabels l)"
  "\<not> policy_denies C t (IngressAllow p n l) nsl podl port proto"
  by (cases p; cases t; simp add: Vanilla_IngressAllow_def Cilium_IngressAllow_def cilium_defs)+

lemma ingress_admits [simp]:
  "policy_admits C PolicyIngress (IngressAllow p n (policyLabels e sid s)) nsl podl port proto \<longleftrightarrow>
     controller_traffic e nsl podl port proto"
proof (cases p)
  case VanillaPolicyProvider
  then show ?thesis
    by (auto simp: Vanilla_IngressAllow_def Let_def controller_traffic_def port_roundtrip rule_allows_def peer_matches_def selected_by_upd)
next
  case CiliumPolicyProvider
  then show ?thesis
    by (cases proto) (auto simp: Cilium_IngressAllow_def cilium_defs controller_traffic_def portFromLabels_policy dec_int_inject)
qed

section \<open>A store with the exam's policies\<close>

text \<open>
  A store in which every object sits under its key and what lies under the name of a policy of
  the exam is that policy, as the controller made it. Other objects, also other policies, may
  be in it. The list of the policies of a namespace.
\<close>

definition own_policy :: "policyProvider \<Rightarrow> exam \<Rightarrow> kobj \<Rightarrow> bool" where
  "own_policy p e x \<longleftrightarrow> (\<exists>sid s. x = DenyAll p (exam_ns e) (policyLabels e sid s) \<or>
     x = EgressAllowlist p (exam_ns e) (policyLabels e sid s) \<or> x = IngressAllow p (exam_ns e) (policyLabels e sid s))"

definition own_names :: "policyProvider \<Rightarrow> exam \<Rightarrow> store \<Rightarrow> bool" where
  "own_names p e \<sigma> \<longleftrightarrow> (\<forall>k x. \<sigma> k = Some x \<longrightarrow> obj_key x = k) \<and>
     (\<forall>s x. (\<sigma> (policy_kind p, exam_ns e, s @ ''-deny-all'') = Some x \<longrightarrow>
               (\<exists>sid. x = DenyAll p (exam_ns e) (policyLabels e sid s))) \<and>
            (\<sigma> (policy_kind p, exam_ns e, s @ ''-egress-allow'') = Some x \<longrightarrow>
               (\<exists>sid. x = EgressAllowlist p (exam_ns e) (policyLabels e sid s))) \<and>
            (\<sigma> (policy_kind p, exam_ns e, s @ ''-ingress-allow'') = Some x \<longrightarrow>
               (\<exists>sid. x = IngressAllow p (exam_ns e) (policyLabels e sid s))))"

definition stored_policies :: "store \<Rightarrow> string \<Rightarrow> kobj list \<Rightarrow> bool" where
  "stored_policies \<sigma> n P \<longleftrightarrow> (\<forall>x. x \<in> set P \<longleftrightarrow>
     \<sigma> (obj_key x) = Some x \<and> obj_kind x \<in> {NetworkPolicyKind, CiliumPolicyKind} \<and> ObjNamespace (obj_meta x) = n)"

lemma own_namesD:
  assumes "own_names p e \<sigma>"
  shows "\<sigma> k = Some x \<Longrightarrow> obj_key x = k"
    and "\<sigma> (policy_kind p, exam_ns e, s @ ''-deny-all'') = Some x \<Longrightarrow> \<exists>sid. x = DenyAll p (exam_ns e) (policyLabels e sid s)"
    and "\<sigma> (policy_kind p, exam_ns e, s @ ''-egress-allow'') = Some x \<Longrightarrow> \<exists>sid. x = EgressAllowlist p (exam_ns e) (policyLabels e sid s)"
    and "\<sigma> (policy_kind p, exam_ns e, s @ ''-ingress-allow'') = Some x \<Longrightarrow> \<exists>sid. x = IngressAllow p (exam_ns e) (policyLabels e sid s)"
  using assms unfolding own_names_def by blast+

lemma policy_object [simp]:
  "obj_kind (DenyAll p n l) = policy_kind p" "ObjNamespace (obj_meta (DenyAll p n l)) = n"
  "obj_kind (EgressAllowlist p n l) = policy_kind p" "ObjNamespace (obj_meta (EgressAllowlist p n l)) = n"
  "obj_kind (IngressAllow p n l) = policy_kind p" "ObjNamespace (obj_meta (IngressAllow p n l)) = n"
  using policy_keys [of p n l] by (simp_all add: obj_key_def)

lemma policy_kinds: "policy_kind p = NetworkPolicyKind \<or> policy_kind p = CiliumPolicyKind"
  by (cases p) simp_all

lemma stored_own:
  assumes "own_names p e \<sigma>" "stored_policies \<sigma> (exam_ns e) P" "\<sigma> k = Some x" "own_policy p e x"
  shows "x \<in> set P"
proof -
  have "obj_kind x = policy_kind p" "ObjNamespace (obj_meta x) = exam_ns e"
    using assms(4) unfolding own_policy_def by (elim exE disjE; simp)+
  moreover have "\<sigma> (obj_key x) = Some x" using own_namesD(1) [OF assms(1,3)] assms(3) by simp
  ultimately show ?thesis using assms(2) policy_kinds [of p] unfolding stored_policies_def by simp
qed

text \<open>The verdicts of the policies that are not the exam's own.\<close>

definition others_admit ::
    "datapath \<Rightarrow> policyProvider \<Rightarrow> exam \<Rightarrow> policyType \<Rightarrow> kobj list \<Rightarrow> labels \<Rightarrow> labels \<Rightarrow> labels \<Rightarrow> int32 \<Rightarrow> protocol \<Rightarrow> bool" where
  "others_admit C p e t P pod nsl podl port proto \<longleftrightarrow>
     (\<exists>x \<in> set P. \<not> own_policy p e x \<and> policy_selects t x pod \<and> policy_admits C t x nsl podl port proto)"

definition others_deny ::
    "datapath \<Rightarrow> policyProvider \<Rightarrow> exam \<Rightarrow> policyType \<Rightarrow> kobj list \<Rightarrow> labels \<Rightarrow> labels \<Rightarrow> labels \<Rightarrow> int32 \<Rightarrow> protocol \<Rightarrow> bool" where
  "others_deny C p e t P pod nsl podl port proto \<longleftrightarrow>
     (\<exists>x \<in> set P. \<not> own_policy p e x \<and> policy_selects t x pod \<and> policy_denies C t x nsl podl port proto)"

text \<open>An instance whose deny-all and egress policies are stored.\<close>

definition guarded :: "policyProvider \<Rightarrow> exam \<Rightarrow> store \<Rightarrow> string \<Rightarrow> bool" where
  "guarded p e \<sigma> s \<longleftrightarrow> \<sigma> (policy_kind p, exam_ns e, s @ ''-deny-all'') \<noteq> None \<and>
     \<sigma> (policy_kind p, exam_ns e, s @ ''-egress-allow'') \<noteq> None"

definition own_admits :: "datapath \<Rightarrow> policyProvider \<Rightarrow> exam \<Rightarrow> store \<Rightarrow> string \<Rightarrow> policyType \<Rightarrow> labels \<Rightarrow> labels \<Rightarrow> int32 \<Rightarrow> protocol \<Rightarrow> bool" where
  "own_admits C p e \<sigma> s t nsl podl port proto \<longleftrightarrow>
     (case t of
        PolicyIngress \<Rightarrow> \<sigma> (policy_kind p, exam_ns e, s @ ''-ingress-allow'') \<noteq> None \<and> controller_traffic e nsl podl port proto
      | PolicyEgress \<Rightarrow> dns_traffic C p nsl podl port)"

lemma own_admits_iff:
  assumes "own_names p e \<sigma>" "stored_policies \<sigma> (exam_ns e) P" "guarded p e \<sigma> s"
  shows "(\<exists>x \<in> set P. own_policy p e x \<and> policy_selects t x (Labels e sid s) \<and> policy_admits C t x nsl podl port proto) \<longleftrightarrow>
    own_admits C p e \<sigma> s t nsl podl port proto" (is "?L \<longleftrightarrow> ?R")
proof
  assume ?L
  then obtain x sid' s' where x: "x \<in> set P" "policy_selects t x (Labels e sid s)" "policy_admits C t x nsl podl port proto"
    and "x = DenyAll p (exam_ns e) (policyLabels e sid' s') \<or> x = EgressAllowlist p (exam_ns e) (policyLabels e sid' s') \<or>
      x = IngressAllow p (exam_ns e) (policyLabels e sid' s')"
    unfolding own_policy_def by blast
  then consider "x = EgressAllowlist p (exam_ns e) (policyLabels e sid' s')"
    | "x = IngressAllow p (exam_ns e) (policyLabels e sid' s')" by fastforce
  then show ?R
  proof cases
    case 1
    with x(2) have "t = PolicyEgress" by simp
    with x(3) 1 show ?thesis by (simp add: own_admits_def)
  next
    case 2
    with x(2) have t: "t = PolicyIngress" "s' = s" by simp_all
    with x(1) 2 assms(2) have "\<sigma> (policy_kind p, exam_ns e, s @ ''-ingress-allow'') \<noteq> None"
      by (auto simp: stored_policies_def)
    with x(3) 2 t show ?thesis by (simp add: own_admits_def)
  qed
next
  assume R: ?R
  show ?L
  proof (cases t)
    case PolicyIngress
    with R obtain x where x: "\<sigma> (policy_kind p, exam_ns e, s @ ''-ingress-allow'') = Some x" by (auto simp: own_admits_def)
    from own_namesD(4) [OF assms(1) this] obtain sid1 where "x = IngressAllow p (exam_ns e) (policyLabels e sid1 s)" ..
    moreover from this have "own_policy p e x" by (auto simp: own_policy_def)
    ultimately show ?thesis using PolicyIngress R stored_own [OF assms(1,2) x] by (auto simp: own_admits_def)
  next
    case PolicyEgress
    from assms(3) obtain x where x: "\<sigma> (policy_kind p, exam_ns e, s @ ''-egress-allow'') = Some x" by (auto simp: guarded_def)
    from own_namesD(3) [OF assms(1) this] obtain sid1 where "x = EgressAllowlist p (exam_ns e) (policyLabels e sid1 s)" ..
    moreover from this have "own_policy p e x" by (auto simp: own_policy_def)
    ultimately show ?thesis using PolicyEgress R stored_own [OF assms(1,2) x] by (auto simp: own_admits_def)
  qed
qed

text \<open>The traffic of a guarded instance, in either direction.\<close>

lemma guarded_traffic:
  assumes "own_names p e \<sigma>" "stored_policies \<sigma> (exam_ns e) P" "guarded p e \<sigma> s"
  shows "traffic_allowed C t P (Labels e sid s) nsl podl port proto \<longleftrightarrow>
    (own_admits C p e \<sigma> s t nsl podl port proto \<or> others_admit C p e t P (Labels e sid s) nsl podl port proto) \<and>
    \<not> denies_all C p \<and> \<not> others_deny C p e t P (Labels e sid s) nsl podl port proto"
proof -
  from assms(3) obtain x where x: "\<sigma> (policy_kind p, exam_ns e, s @ ''-deny-all'') = Some x" by (auto simp: guarded_def)
  from own_namesD(2) [OF assms(1) this] obtain sid1 where d: "x = DenyAll p (exam_ns e) (policyLabels e sid1 s)" ..
  then have own: "own_policy p e x" by (auto simp: own_policy_def)
  have deny: "x \<in> set P" "policy_selects t x (Labels e sid s)" "policy_denies C t x nsl podl port proto \<longleftrightarrow> denies_all C p"
    using stored_own [OF assms(1,2) x own] d by simp_all
  have "policy_denies C t y nsl podl port proto \<Longrightarrow> own_policy p e y \<Longrightarrow> denies_all C p" for y
    unfolding own_policy_def by (elim exE disjE) simp_all
  with deny own have "(\<exists>y \<in> set P. policy_selects t y (Labels e sid s) \<and> policy_denies C t y nsl podl port proto) \<longleftrightarrow>
      denies_all C p \<or> others_deny C p e t P (Labels e sid s) nsl podl port proto"
    unfolding others_deny_def by blast
  moreover have "(\<exists>y \<in> set P. policy_selects t y (Labels e sid s) \<and> policy_admits C t y nsl podl port proto) \<longleftrightarrow>
      own_admits C p e \<sigma> s t nsl podl port proto \<or> others_admit C p e t P (Labels e sid s) nsl podl port proto"
    using own_admits_iff [OF assms, of t sid C nsl podl port proto] unfolding others_admit_def by blast
  ultimately show ?thesis using deny(1,2) unfolding traffic_allowed_iff by blast
qed

section \<open>The passes keep the names\<close>

lemma created_own:
  assumes "exam_creates r e b x" "obj_kind x \<in> {NetworkPolicyKind, CiliumPolicyKind}"
  shows "own_policy (PolicyProvider r) e x"
  using assms unfolding exam_creates_def tls_copy_def instance_objects_def Deployment_def Service_def Ingress_def Let_def
    own_policy_def by auto

lemma created_policy:
  assumes "exam_creates r e b x" "obj_key x = (policy_kind (PolicyProvider r), exam_ns e, nm)"
  shows "nm = s @ ''-deny-all'' \<Longrightarrow> \<exists>sid. x = DenyAll (PolicyProvider r) (exam_ns e) (policyLabels e sid s)"
    and "nm = s @ ''-egress-allow'' \<Longrightarrow> \<exists>sid. x = EgressAllowlist (PolicyProvider r) (exam_ns e) (policyLabels e sid s)"
    and "nm = s @ ''-ingress-allow'' \<Longrightarrow> \<exists>sid. x = IngressAllow (PolicyProvider r) (exam_ns e) (policyLabels e sid s)"
proof -
  let ?p = "PolicyProvider r" and ?n = "exam_ns e"
  have "obj_kind x \<in> {NetworkPolicyKind, CiliumPolicyKind}"
    using assms(2) policy_kinds [of ?p] by (auto simp: obj_key_def)
  from created_own [OF assms(1) this] obtain sid s' where x: "x = DenyAll ?p ?n (policyLabels e sid s') \<or>
      x = EgressAllowlist ?p ?n (policyLabels e sid s') \<or> x = IngressAllow ?p ?n (policyLabels e sid s')"
    unfolding own_policy_def by blast
  note k = assms(2) policy_keys suffixes_apart policyLabels_slug
  show "nm = s @ ''-deny-all'' \<Longrightarrow> \<exists>sid. x = DenyAll ?p ?n (policyLabels e sid s)"
    using x by (intro exI [of _ sid], elim disjE) (use k in simp_all)
  show "nm = s @ ''-egress-allow'' \<Longrightarrow> \<exists>sid. x = EgressAllowlist ?p ?n (policyLabels e sid s)"
    using x by (intro exI [of _ sid], elim disjE) (use k in simp_all)
  show "nm = s @ ''-ingress-allow'' \<Longrightarrow> \<exists>sid. x = IngressAllow ?p ?n (policyLabels e sid s)"
    using x by (intro exI [of _ sid], elim disjE) (use k in simp_all)
qed

lemma own_names_events:
  assumes "own_names (PolicyProvider r) e \<sigma>" "\<And>ev x. ev \<in> set es \<Longrightarrow> created ev = Some x \<Longrightarrow> exam_creates r e b x"
  shows "own_names (PolicyProvider r) e (cluster \<sigma> es)"
proof -
  have origin: "\<sigma> k = Some x \<or> exam_creates r e b x \<and> obj_key x = k" if "cluster \<sigma> es k = Some x" for k x
    using cluster_origin [OF that] assms(2) by blast
  have "obj_key x = k" if "cluster \<sigma> es k = Some x" for k x
    using origin [OF that] own_namesD(1) [OF assms(1)] by blast
  moreover have "\<exists>sid. x = DenyAll (PolicyProvider r) (exam_ns e) (policyLabels e sid s)"
    if "cluster \<sigma> es (policy_kind (PolicyProvider r), exam_ns e, s @ ''-deny-all'') = Some x" for s x
    using origin [OF that] own_namesD(2) [OF assms(1)] created_policy(1) [OF _ _ refl] by blast
  moreover have "\<exists>sid. x = EgressAllowlist (PolicyProvider r) (exam_ns e) (policyLabels e sid s)"
    if "cluster \<sigma> es (policy_kind (PolicyProvider r), exam_ns e, s @ ''-egress-allow'') = Some x" for s x
    using origin [OF that] own_namesD(3) [OF assms(1)] created_policy(2) [OF _ _ refl] by blast
  moreover have "\<exists>sid. x = IngressAllow (PolicyProvider r) (exam_ns e) (policyLabels e sid s)"
    if "cluster \<sigma> es (policy_kind (PolicyProvider r), exam_ns e, s @ ''-ingress-allow'') = Some x" for s x
    using origin [OF that] own_namesD(4) [OF assms(1)] created_policy(3) [OF _ _ refl] by blast
  ultimately show ?thesis unfolding own_names_def by blast
qed

lemma handler_own_names:
  assumes "own_names (PolicyProvider r) e \<sigma>" "emits (footprint r e b M U) m Q" "run_state m h = (x, es @ h)"
  shows "own_names (PolicyProvider r) e (cluster \<sigma> es)"
  using own_names_events [OF assms(1)] emits_created [OF assms(2,3)] by blast

section \<open>The policies a pass leaves\<close>

lemma settled_guarded: "settled_instance r e u \<sigma> (sid, s) \<Longrightarrow> guarded (PolicyProvider r) e \<sigma> s"
  by (simp add: settled_instance_def guarded_def Let_def)











section \<open>Properties\<close>

text \<open>
  C1: after a Locked pass without errors, all of whose creations and deletions went through,
  the controller lets no traffic reach an instance of the exam, with either policy provider
  and whatever an empty deny rule of Cilium means: under the policies then stored in the exam's
  namespace a connection to the instance, from any peer to any port, can be allowed only by a
  policy that is not one of the exam's own, and no Ingress of the exam is stored there any more.
  What lay under the names of the exam's policies before the pass is assumed to be these policies,
  as the controller creates them; other objects and policies are arbitrary.
\<close>
theorem locked_pass_isolates:
  assumes "run_state (reconcileLocked r e now) h = (Returns (e', d, None), es @ h)"
    and "truthful \<sigma> es" "accepted es" "own_names (PolicyProvider r) e \<sigma>"
    and "stored_policies (cluster \<sigma> es) (exam_ns e) P"
  shows "(\<forall>(sid, s) \<in> set (collectSlugs e). \<forall>nsl podl port proto.
      traffic_allowed C PolicyIngress P (Labels e sid s) nsl podl port proto \<longrightarrow>
      others_admit C (PolicyProvider r) e PolicyIngress P (Labels e sid s) nsl podl port proto) \<and>
    (\<forall>k x. cluster \<sigma> es k = Some x \<longrightarrow> obj_kind x = IngressKind \<longrightarrow> ObjNamespace (obj_meta x) = exam_ns e \<longrightarrow>
      \<not> selected_by (OwnerLabels e) (obj_labels x))"
proof -
  have log: "locked_log r e es"
    using runs_reconcileLocked [of h r e now] assms(1) by (simp add: runs_def)
  note c = locked_cluster [OF log assms(2,3) own_namesD(1) [OF assms(4)]]
  have own: "own_names (PolicyProvider r) e (cluster \<sigma> es)"
    by (rule handler_own_names [OF assms(4) fp_reconcileLocked [where M = "\<lambda>_. True"] assms(1)]) simp
  have "others_admit C (PolicyProvider r) e PolicyIngress P (Labels e sid s) nsl podl port proto"
    if "(sid, s) \<in> set (collectSlugs e)" "traffic_allowed C PolicyIngress P (Labels e sid s) nsl podl port proto"
    for sid s nsl podl port proto
  proof -
    from c(1) that(1) have settled: "settled_instance r e False (cluster \<sigma> es) (sid, s)" by blast
    then have "\<not> own_admits C (PolicyProvider r) e (cluster \<sigma> es) s PolicyIngress nsl podl port proto"
      by (simp add: settled_instance_def own_admits_def Let_def)
    with guarded_traffic [OF own assms(5) settled_guarded [OF settled]] that(2) show ?thesis by blast
  qed
  with c(2) show ?thesis by blast
qed

text \<open>
  C4: after an Unlocked pass all of whose creations and deletions went through, every instance
  of the exam has its Ingress, and under the policies then stored in the namespace it is
  reached exactly by the ingress controller, over TCP on the port of the template, and by what
  policies other than the exam's own allow, unless such a policy denies it. With Cilium there is
  a proviso: the deny-all policy stays beside the ingress policy, so if a deny rule without any
  field matches all traffic, nothing reaches the instance. What lay under the names of the
  exam's policies before the pass is assumed to be these policies.
\<close>
theorem unlocked_pass_opens:
  assumes "run_state (reconcileUnlock r e now) h = (out, es @ h)"
    and "truthful \<sigma> es" "accepted es" "own_names (PolicyProvider r) e \<sigma>"
    and "(sid, s) \<in> set (collectSlugs e)" "stored_policies (cluster \<sigma> es) (exam_ns e) P"
  shows "cluster \<sigma> es (IngressKind, exam_ns e, s) \<noteq> None \<and>
    (traffic_allowed C PolicyIngress P (Labels e sid s) nsl podl port proto \<longleftrightarrow>
       (nsl ''kubernetes.io/metadata.name'' = Some ''ingress-nginx'' \<and>
        podl ''app.kubernetes.io/name'' = Some ''ingress-nginx'' \<and> port = Port (Template (Spec e)) \<and> proto = TCP \<or>
        others_admit C (PolicyProvider r) e PolicyIngress P (Labels e sid s) nsl podl port proto) \<and>
       \<not> (PolicyProvider r = CiliumPolicyProvider \<and> EmptyDenyMatches C) \<and>
       \<not> others_deny C (PolicyProvider r) e PolicyIngress P (Labels e sid s) nsl podl port proto)"
proof -
  have "unlocked_log r e es"
    using runs_reconcileUnlock [of h r e now] assms(1) by (simp add: runs_def)
  then obtain es1 es2 where es: "es = es2 @ es1" "enforced r e True (collectSlugs e) es1" "unwritten es2"
    unfolding unlocked_log_def by blast
  have "truthful \<sigma> es1" "accepted es1" "cluster \<sigma> es = cluster \<sigma> es1"
    using assms(2,3) cluster_unwritten [OF es(3)] by (auto simp: es truthful_append accepted_append cluster_append)
  then have s: "settled_instance r e True (cluster \<sigma> es) (sid, s)"
    using enforced_settled [OF es(2)] assms(5) by simp
  have own: "own_names (PolicyProvider r) e (cluster \<sigma> es)"
    by (rule handler_own_names [OF assms(4) fp_reconcileUnlock [where M = "\<lambda>_. True"] assms(1)]) simp
  have "own_admits C (PolicyProvider r) e (cluster \<sigma> es) s PolicyIngress nsl podl port proto \<longleftrightarrow>
      controller_traffic e nsl podl port proto"
    using s by (simp add: settled_instance_def own_admits_def Let_def)
  with s guarded_traffic [OF own assms(6) settled_guarded [OF s], of C PolicyIngress sid nsl podl port proto] show ?thesis
    by (auto simp: settled_instance_def controller_traffic_def denies_all_def Let_def)
qed







section \<open>Concrete passes\<close>

text \<open>The truthful server with either provider, and a datapath whose empty deny rule matches nothing.\<close>

definition sample_datapath :: datapath where
  "sample_datapath = \<lparr>EmptyDenyMatches = False, NameMatches = \<lambda>pat nsl podl. podl ''k8s-app'' = Some ''kube-dns''\<rparr>"

lemma own_names_empty: "own_names p e Map.empty"
  by (simp add: own_names_def)

definition policies_of :: "log \<Rightarrow> string \<Rightarrow> kobj list" where
  "policies_of h n = filter (\<lambda>x. obj_kind x \<in> {NetworkPolicyKind, CiliumPolicyKind} \<and> ObjNamespace (obj_meta x) = n)
     (kept_objects h)"

lemma stored_policies_of: "stored_policies (cluster Map.empty h) n (policies_of h n)"
  by (auto simp: stored_policies_def policies_of_def kept_objects_iff)

lemma no_others:
  assumes "emits (footprint r e b M U) m Q" "run_state m h = (x, es @ h)"
  shows "\<not> others_admit C (PolicyProvider r) e t (policies_of es n) pod nsl podl port proto"
    and "\<not> others_deny C (PolicyProvider r) e t (policies_of es n) pod nsl podl port proto"
proof -
  have "own_policy (PolicyProvider r) e y" if "y \<in> set (policies_of es n)" for y
  proof -
    from that have y: "cluster Map.empty es (obj_key y) = Some y" "obj_kind y \<in> {NetworkPolicyKind, CiliumPolicyKind}"
      by (simp_all add: policies_of_def kept_objects_iff)
    from cluster_origin [OF y(1)] obtain ev where "ev \<in> set es" "created ev = Some y" by auto
    from created_own [OF emits_created [OF assms this] y(2)] show ?thesis .
  qed
  then show "\<not> others_admit C (PolicyProvider r) e t (policies_of es n) pod nsl podl port proto"
    "\<not> others_deny C (PolicyProvider r) e t (policies_of es n) pod nsl podl port proto"
    by (auto simp: others_admit_def others_deny_def)
qed

theorem locked_pass_isolates_witness:
  "\<exists>es e' d. run_state (reconcileLocked (sample_server CiliumPolicyProvider (sample_with ready_status) 0) (sample_with ready_status) 0) [] =
     (Returns (e', d, None), es @ []) \<and>
     \<not> traffic_allowed sample_datapath PolicyIngress (policies_of es (exam_ns (sample_with ready_status)))
       (Labels (sample_with ready_status) ''100000001'' ''abcdefgh'')
       [''kubernetes.io/metadata.name'' \<mapsto> ''ingress-nginx''] [''app.kubernetes.io/name'' \<mapsto> ''ingress-nginx''] 8080 TCP"
proof -
  let ?e = "sample_with ready_status" and ?r = "sample_server CiliumPolicyProvider (sample_with ready_status) 0"
  let ?m = "reconcileLocked ?r ?e 0"
  obtain out es where 1: "run_state ?m [] = (out, es @ [])" "truthful Map.empty es" "accepted es"
    using good_run [OF keep_handlers(2)] by metis
  obtain e' d where "out = Returns (e', d, None)"
    using locked_returns [of ?e CiliumPolicyProvider ?e 0 0 "[]"] 1(1) by (auto simp: ready_status_def)
  with 1 have run: "run_state ?m [] = (Returns (e', d, None), es @ [])" by simp
  note others = no_others(1) [OF fp_reconcileLocked [where M = "\<lambda>_. True"] run, simplified]
  from locked_pass_isolates [OF run 1(2,3) own_names_empty stored_policies_of, THEN conjunct1, rule_format, OF sample_instance]
  show ?thesis using run others by fastforce
qed

theorem unlocked_pass_opens_witness:
  "\<exists>es out. run_state (reconcileUnlock (sample_server CiliumPolicyProvider (sample_with ready_status) 0) (sample_with ready_status) 0) [] =
     (out, es @ []) \<and>
     traffic_allowed sample_datapath PolicyIngress (policies_of es (exam_ns (sample_with ready_status)))
       (Labels (sample_with ready_status) ''100000001'' ''abcdefgh'')
       [''kubernetes.io/metadata.name'' \<mapsto> ''ingress-nginx''] [''app.kubernetes.io/name'' \<mapsto> ''ingress-nginx''] 8080 TCP"
proof -
  let ?e = "sample_with ready_status" and ?r = "sample_server CiliumPolicyProvider (sample_with ready_status) 0"
  let ?m = "reconcileUnlock ?r ?e 0"
  obtain out es where 1: "run_state ?m [] = (out, es @ [])" "truthful Map.empty es" "accepted es"
    using good_run [OF keep_handlers(1)] by metis
  note others = no_others(2) [OF fp_reconcileUnlock [where M = "\<lambda>_. True"] 1(1), simplified]
  have "Port (Template (Spec ?e)) = 8080" "\<not> EmptyDenyMatches sample_datapath"
    by (simp_all add: sample_spec_def sample_datapath_def)
  with unlocked_pass_opens [OF 1 own_names_empty sample_instance stored_policies_of, of sample_datapath] 1(1) others
  show ?thesis by (intro exI [of _ es] exI [of _ out]) (simp add: sample_spec_def)
qed



end
