(* ===== verification/MetricSeries.thy ===== *)
theory MetricSeries
  imports Deployed
begin

text \<open>
  The metric series of an exam through a whole pass: which series a pass touches, and what is
  left of them when the exam is gone.
\<close>

section \<open>Updates of one exam's series\<close>

fun own_op :: "string \<Rightarrow> string \<Rightarrow> metric_op \<Rightarrow> bool" where
  "own_op n ns (MSet v lv _) \<longleftrightarrow> series_of n ns (v, lv)"
| "own_op n ns (MInc v lv) \<longleftrightarrow> series_of n ns (v, lv)"
| "own_op n ns (MObserve v lv _) \<longleftrightarrow> series_of n ns (v, lv)"
| "own_op n ns (MDelete v lv) \<longleftrightarrow> series_of n ns (v, lv)"
| "own_op n ns (MDeletePartial v match) \<longleftrightarrow> match = [(''exam'', n), (''namespace'', ns)]"
| "own_op n ns (MReconcileDuration _) \<longleftrightarrow> True"
| "own_op n ns MReconcileErrors \<longleftrightarrow> True"

fun own_event :: "string \<Rightarrow> string \<Rightarrow> event \<Rightarrow> bool" where
  "own_event n ns (EvMetric op) \<longleftrightarrow> own_op n ns op"
| "own_event n ns _ \<longleftrightarrow> True"

lemma own_mail: "is_mail_event ev \<Longrightarrow> own_event n ns ev"
  by (cases ev) simp_all

lemma partial_series: "length lv = length (vec_labels v) \<Longrightarrow> partial_match v [(''exam'', n), (''namespace'', ns)] lv \<Longrightarrow> series_of n ns (v, lv)"
  by (cases v; cases lv; cases "tl lv") (auto simp: series_of_def partial_match_def examLabels_def dest!: set_zip_leftD)

text \<open>The series of other exams stay as they are, and every series keeps its arity.\<close>

lemma own_op_series:
  assumes "own_op n ns op" "\<forall>(v, lv) \<in> S. length lv = length (vec_labels v)"
  shows "\<not> series_of n ns s \<Longrightarrow> s \<in> apply_metric op S \<longleftrightarrow> s \<in> S"
    and "\<forall>(v, lv) \<in> apply_metric op S. length lv = length (vec_labels v)"
proof -
  show "\<not> series_of n ns s \<Longrightarrow> s \<in> apply_metric op S \<longleftrightarrow> s \<in> S"
    using assms by (cases s; cases op) (auto dest: partial_series)
  show "\<forall>(v, lv) \<in> apply_metric op S. length lv = length (vec_labels v)"
    using assms by (cases op) (auto simp: series_of_def)
qed

lemma live_event: "\<nexists>op. ev = EvMetric op \<Longrightarrow> live_series (ev # h) = live_series h"
  by (cases ev) simp_all

lemma own_events_series:
  assumes "list_all (own_event n ns) es" "arity_ok h"
  shows "arity_ok (es @ h)" "\<not> series_of n ns s \<Longrightarrow> s \<in> live_series (es @ h) \<longleftrightarrow> s \<in> live_series h"
proof -
  have "arity_ok (es @ h) \<and> (\<forall>s. \<not> series_of n ns s \<longrightarrow> s \<in> live_series (es @ h) \<longleftrightarrow> s \<in> live_series h)"
    using assms(1)
  proof (induction es)
    case Nil
    with assms(2) show ?case by simp
  next
    case (Cons ev es)
    then have ih: "arity_ok (es @ h)" "\<And>s. \<not> series_of n ns s \<Longrightarrow> s \<in> live_series (es @ h) \<longleftrightarrow> s \<in> live_series h"
      by (simp_all del: split_paired_All)
    show ?case
    proof (cases "\<exists>op. ev = EvMetric op")
      case True
      then obtain op where op: "ev = EvMetric op" by blast
      with Cons.prems ih own_op_series [of n ns op "live_series (es @ h)"] show ?thesis
        by (simp add: arity_ok_def)
    next
      case False
      with ih live_event [of ev "es @ h"] show ?thesis by (simp add: arity_ok_def)
    qed
  qed
  then show "arity_ok (es @ h)" "\<not> series_of n ns s \<Longrightarrow> s \<in> live_series (es @ h) \<longleftrightarrow> s \<in> live_series h"
    by blast+
qed

section \<open>Every operation updates the exam's own series\<close>

definition of_exam :: "string \<Rightarrow> string \<Rightarrow> exam \<Rightarrow> bool" where
  "of_exam n ns e \<longleftrightarrow> Name e = n \<and> Namespace e = ns"

lemma of_exam_upd [simp]: "of_exam n ns (upd_status f e) \<longleftrightarrow> of_exam n ns e"
  by (simp add: of_exam_def)

lemma of_exam_same: "same_exam e e' \<Longrightarrow> of_exam n ns e' \<longleftrightarrow> of_exam n ns e"
  by (auto simp: of_exam_def same_examD)

lemma exam_series:
  assumes "of_exam n ns e"
  shows "vec_labels v = examLabels \<Longrightarrow> series_of n ns (v, examMetricLabelValues e)"
    "series_of n ns (PhaseTransitions, phaseTransitionMetricLabelValues e p q)"
    "series_of n ns (ProvisionDuration, [Name e, Namespace e, x])"
    "series_of n ns (PhaseDuration, [Name e, Namespace e, x])"
  using assms by (auto simp: series_of_def of_exam_def examMetricLabelValues_def phaseTransitionMetricLabelValues_def
      LabelValues_def examLabels_def)

lemma own_create_each: "emits (own_event n ns) (create_each r xs) (\<lambda>_. True)"
  by (induction xs) (auto intro!: emit_rules emits_bind_True)

lemma own_tls: "emits (own_event n ns) (reconcilePlatformTLSSecret r e m) (\<lambda>_. True)"
  by (auto simp: reconcilePlatformTLSSecret_def Let_def intro!: emit_rules emits_bind_True)

lemma own_slugs:
  "emits (own_event n ns) (findOrGenerateSlug r e m sid) (\<lambda>_. True)"
  "emits (own_event n ns) (findOrGenerateSpareSlug r e m i) (\<lambda>_. True)"
  by (auto simp: findOrGenerateSlug_def findOrGenerateSpareSlug_def new_slug_def Let_def
      intro!: emit_rules emits_bind_True split: list.splits)

lemma own_cleanup: "emits (own_event n ns) (cleanupOrphanedResources r e m) (\<lambda>_. True)"
proof -
  have "emits (own_event n ns) (delete_orphans r f xs) (\<lambda>_. True)" for f xs
    by (induction xs) (auto simp: Let_def intro!: emit_rules emits_bind_True)
  then have "emits (own_event n ns) (cleanup_kinds r f m' sel ks) (\<lambda>_. True)" for f m' sel ks
    by (induction ks) (auto intro!: emit_rules emits_bind_True)
  then show ?thesis by (simp add: cleanupOrphanedResources_def)
qed

lemma own_enforcePolicies: "emits (own_event n ns) (enforcePolicies r e u) (\<lambda>_. True)"
proof -
  have "emits (own_event n ns) (enforce_entries r e u xs) (\<lambda>_. True)" for xs
    by (induction xs) (auto simp: enforce_entry_def Let_def intro!: emit_rules emits_bind_True)
  then show ?thesis by (auto simp: enforcePolicies_def intro!: emits_bind_True own_tls)
qed

lemma own_deleteIngresses: "emits (own_event n ns) (deleteIngresses r e m) (\<lambda>_. True)"
proof -
  have "emits (own_event n ns) (delete_each r xs) (\<lambda>_. True)" for xs
    by (induction xs) (auto intro!: emit_rules emits_bind_True)
  then show ?thesis by (auto simp: deleteIngresses_def intro!: emit_rules emits_bind_True)
qed

lemma own_sendEmail: "emits (own_event n ns) (sendEmail r e to msg) (\<lambda>_. True)"
  by (rule emits_sendEmail) (auto simp: own_mail)

lemmas own_rules = emit_rules emits_bind_True own_create_each own_tls own_slugs own_cleanup own_enforcePolicies
  own_deleteIngresses own_sendEmail

lemma own_observe: "of_exam n ns e \<Longrightarrow> emits (own_event n ns) (observe_provision r e w who) (\<lambda>_. True)"
  by (auto simp: observe_provision_def intro!: own_rules exam_series)

text \<open>Results that are still the same exam.\<close>

definition result_of :: "string \<Rightarrow> string \<Rightarrow> (exam \<times> 'a) go \<Rightarrow> bool" where
  "result_of n ns = go_post True (\<lambda>res. of_exam n ns (fst res))"

lemma result_of_simps [simp]: "result_of n ns Panics" "result_of n ns (Returns res) \<longleftrightarrow> of_exam n ns (fst res)"
  by (simp_all add: result_of_def)

lemma emits_result_bind:
  assumes "emits E m (result_of n ns)" "emits E (f Panics) Q"
    "\<And>x. of_exam n ns (fst x) \<Longrightarrow> emits E (f (Returns x)) Q"
  shows "emits E (m \<bind> f) Q"
  using assms unfolding result_of_def by (rule emits_go_bind) 

lemma own_provision_students:
  "of_exam n ns e \<Longrightarrow> emits (own_event n ns) (provision_students r m xs e ok) (result_of n ns)"
proof (induction xs arbitrary: e ok)
  case (Cons x xs)
  have "of_exam n ns e1" if "setStudentStatus r e i s p = Returns e1" for i s p e1
    using of_exam_same [OF setStudentStatus_records(1) [OF that]] Cons.prems by simp
  with Cons show ?case
    by (cases x) (auto simp: provisionInstance_def intro!: own_rules own_observe Cons.IH)
qed (auto intro: emit_rules)

lemma own_provision_spares:
  "of_exam n ns e \<Longrightarrow> emits (own_event n ns) (provision_spares r m is e ok) (\<lambda>res. of_exam n ns (fst res))"
proof (induction "is" arbitrary: e ok)
  case (Cons i "is")
  have "of_exam n ns (setSpareStatus r e i s p)" for s p
    using Cons.prems by (simp add: setSpareStatus_def)
  with Cons show ?case
    by (auto simp: provisionInstance_def Let_def intro!: own_rules own_observe Cons.IH)
qed (auto intro: emit_rules)


lemma own_enter_ready: "of_exam n ns e \<Longrightarrow> emits (own_event n ns) (enter_ready r e) (of_exam n ns)"
  unfolding enter_ready_def Let_def
  by (auto intro!: emits_bind_known own_rules simp: exam_series)

lemma own_finish_provisioning:
  "of_exam n ns e \<Longrightarrow> emits (own_event n ns) (finish_provisioning r e m ok) (\<lambda>res. of_exam n ns (fst res))"
  unfolding finish_provisioning_def allInstancesHealthy_def
  by (auto intro!: emits_bind_known own_rules emits_bind [OF own_enter_ready])

lemma own_provisioning:
  assumes "of_exam n ns e"
  shows "emits (own_event n ns) (reconcileProvisioning r e) (result_of n ns)"
proof -
  have "emits (own_event n ns) (provision_instances r e m) (result_of n ns)" for m
    unfolding provision_instances_def
    by (rule emits_result_bind [OF own_provision_students [OF assms]])
      (auto intro!: emit_rules emits_bind [OF own_provision_spares] emits_bind [OF own_finish_provisioning])
  with assms show ?thesis
    by (auto simp: reconcileProvisioning_def Let_def intro!: own_rules)
qed

lemma own_sendNextPendingEmail:
  "of_exam n ns e \<Longrightarrow> emits (own_event n ns) (sendNextPendingEmail r e) (result_of n ns)"
  by (auto simp: sendNextPendingEmail_def upd_student_def Let_def intro!: emits_bind_known own_rules exam_series)

lemma own_runDryRun: "of_exam n ns e \<Longrightarrow> emits (own_event n ns) (runDryRun r e) (of_exam n ns)"
  unfolding runDryRun_def Let_def
  by (auto intro!: emits_bind_True [OF emits_RunDryRun] emits_bind_known emit_rules exam_series)

lemma own_ready:
  assumes "of_exam n ns e"
  shows "emits (own_event n ns) (reconcileReady r e now) (result_of n ns)"
proof -
  have mail: "emits (own_event n ns) (ready_mail r e now) (result_of n ns)"
    unfolding ready_mail_def Let_def
    by (auto intro!: emit_rules emits_result_bind [OF own_sendNextPendingEmail] emits_bind_known assms)
  have dry: "of_exam n ns e1 \<Longrightarrow> emits (own_event n ns) (ready_dry_run r e1 now) (of_exam n ns)" for e1
    unfolding ready_dry_run_def Let_def
    by (auto intro!: emit_rules emits_bind [OF own_runDryRun])
  show ?thesis
    unfolding reconcileReady_def
    by (rule emits_result_bind [OF mail]) (auto intro!: own_rules emits_bind [OF dry])
qed

lemma own_notify: "of_exam n ns e \<Longrightarrow> emits (own_event n ns) (notify_instructor r e t msg) (of_exam n ns)"
  by (auto simp: notify_instructor_def intro!: own_rules)

lemma own_routes:
  assumes "of_exam n ns e"
  shows "emits (own_event n ns) (reconcileUnlock r e now) (result_of n ns)"
    "emits (own_event n ns) (reconcileLocked r e now) (result_of n ns)"
proof -
  have "of_exam n ns (set_phases p e)" for p using assms by (simp add: set_phases_def)
  note notify = emits_bind [OF own_notify [OF this]]
  show "emits (own_event n ns) (reconcileUnlock r e now) (result_of n ns)"
    unfolding reconcileUnlock_def Let_def
    by (auto intro!: emits_bind_True [OF own_enforcePolicies] notify emit_rules)
  show "emits (own_event n ns) (reconcileLocked r e now) (result_of n ns)"
    unfolding reconcileLocked_def Let_def
    by (auto intro!: emits_bind_True [OF own_enforcePolicies] emits_bind_True [OF own_deleteIngresses] notify emit_rules assms)
qed


section \<open>The end of an exam\<close>

definition no_series :: "string \<Rightarrow> string \<Rightarrow> log \<Rightarrow> bool" where
  "no_series n ns h \<longleftrightarrow> (\<forall>s \<in> live_series h. \<not> series_of n ns s)"

lemma own_cleanup_ops: "op \<in> set (cleanup_ops n ns) \<Longrightarrow> own_op n ns op"
  by (auto simp: cleanup_ops_def series_of_def examLabels_def Let_def)

lemma runs_CleanupExam:
  "runs h (CleanupExam r n ns) (\<lambda>es _. list_all (own_event n ns) es \<and> (Metrics r \<longrightarrow> arity_ok h \<longrightarrow> no_series n ns (es @ h)))"
proof -
  have "Metrics r \<Longrightarrow> arity_ok h \<Longrightarrow> no_series n ns (snd (run_state (CleanupExam r n ns) h))"
    using live_series_CleanupExam [of r h n ns] by (auto simp: no_series_def)
  then show ?thesis
    by (auto simp: runs_def CleanupExam_def run_do_metrics list_all_iff own_cleanup_ops)
qed

lemma runs_teardown_series:
  assumes "of_exam n ns e"
  shows "runs h (reconcileTeardown r e) (\<lambda>es res. list_all (own_event n ns) es \<and> of_exam n ns (fst res) \<and>
    (snd res = None \<longrightarrow> Metrics r \<longrightarrow> arity_ok h \<longrightarrow> no_series n ns (es @ h)))"
  unfolding reconcileTeardown_def Let_def
proof (rule runs_bind [OF runs_rDelete], goal_cases)
  case (1 es1 err)
  have names: "Name e = n" "Namespace e = ns" using assms by (simp_all add: of_exam_def)
  have keep: "live_series (es1 @ h) = live_series h" by (simp add: 1)
  show ?case
  proof (cases "ignore_missing err")
    case None
    have clean: "runs (es1 @ h) (if Metrics r then CleanupExam r n ns else ret ())
        (\<lambda>es _. list_all (own_event n ns) es \<and> (Metrics r \<longrightarrow> arity_ok (es1 @ h) \<longrightarrow> no_series n ns (es @ es1 @ h)))"
      using runs_CleanupExam [of "es1 @ h" r n ns] by (auto intro: runs_ret)
    have now: "runs h (rNow r) (\<lambda>es t. list_all (own_event n ns) es \<and> live_series (es @ h) = live_series h)" for h
      by (rule runs_conseq [OF runs_rNow]) (auto simp: live_event)
    have "runs (es1 @ h) ((if Metrics r then CleanupExam r n ns else ret ()) \<bind> (\<lambda>_. rNow r \<bind> (\<lambda>phaseNow.
          ret (upd_status (\<lambda>st. st\<lparr>ExPhase := PhaseTearingDown, PhaseEntryTime := Some phaseNow,
            ExMessage := ''Namespace deleted''\<rparr>) e, None))))
        (\<lambda>es res. list_all (own_event n ns) es \<and> of_exam n ns (fst res) \<and>
          (snd res = None \<longrightarrow> Metrics r \<longrightarrow> arity_ok h \<longrightarrow> no_series n ns (es @ es1 @ h)))"
      by (rule runs_bind [OF clean], rule runs_bind [OF now], rule runs_ret)
        (use keep assms in \<open>auto simp: no_series_def arity_ok_def\<close>)
    with None 1 names show ?thesis by (auto intro: runs_conseq)
  next
    case (Some a)
    with 1 assms show ?thesis by (auto intro!: runs_ret)
  qed
qed

text \<open>What holds of a pass so far: its updates are the exam's own, and what a teardown leaves.\<close>

definition series_pass :: "reconciler \<Rightarrow> string \<Rightarrow> string \<Rightarrow> bool \<Rightarrow> log \<Rightarrow> log \<Rightarrow> bool" where
  "series_pass r n ns torn h es \<longleftrightarrow> list_all (own_event n ns) es \<and>
     (torn \<longrightarrow> Metrics r \<longrightarrow> arity_ok h \<longrightarrow> no_series n ns (es @ h))"

fun torn_result :: "handled go \<Rightarrow> bool" where
  "torn_result (Returns (e, d, err)) \<longleftrightarrow> ExPhase (ExStatus e) = PhaseTearingDown \<and> err = None"
| "torn_result Panics \<longleftrightarrow> False"

lemma own_dispatch:
  assumes "of_exam n ns e" "ExPhase (ExStatus e) \<noteq> PhaseTearingDown"
  shows "emits (own_event n ns) (dispatch r e now) (\<lambda>res. result_of n ns res \<and> \<not> torn_result res)"
proof -
  have own: "emits (own_event n ns) (dispatch r e now) (result_of n ns)"
    using assms by (cases "ExPhase (ExStatus e)")
      (auto simp: dispatch_def intro!: emit_rules own_provisioning own_ready own_routes)
  have "emits (footprint r e True (\<lambda>_. True) (\<lambda>_. True)) (dispatch r e now) (go_post (may_panic e) (\<lambda>res. pass_to e (fst res)))"
    by (rule fp_dispatch) simp_all
  note fp = emitsD [OF this]
  have "\<not> torn_result res" if "run_state (dispatch r e now) h = (res, h')" for h res h'
    using fp [OF that] assms(2) by (cases res rule: torn_result.cases) (auto simp: pass_to_def split: if_splits)
  then show ?thesis by (intro emits_run [OF own]) blast
qed

definition unstored :: "log \<Rightarrow> bool" where
  "unstored es \<longleftrightarrow> (\<forall>x res. EvStatusUpdate x res \<notin> set es)"

lemma runs_dispatch_series:
  assumes "of_exam n ns e"
  shows "runs h (dispatch r e now) (\<lambda>es res. result_of n ns res \<and> series_pass r n ns (torn_result res) h es \<and> unstored es)"
proof -
  have "emits (footprint r e True (\<lambda>_. True) (\<lambda>_. False)) (dispatch r e now) (go_post (may_panic e) (\<lambda>res. pass_to e (fst res)))"
    by (rule fp_dispatch) simp_all
  from emits_runs' [OF this] have "runs h (dispatch r e now) (\<lambda>es res. unstored es)"
    by (rule runs_conseq) (auto simp: unstored_def list_all_iff)
  moreover have "runs h (dispatch r e now) (\<lambda>es res. result_of n ns res \<and> series_pass r n ns (torn_result res) h es)"
  proof (cases "ExPhase (ExStatus e) = PhaseTearingDown")
    case True
    then have d: "dispatch r e now = reconcileTeardown r e \<bind> (\<lambda>(e1, err). ret (Returns (e1, 0, err)))"
      by (simp add: dispatch_def)
    show ?thesis
      unfolding d by (rule runs_bind [OF runs_teardown_series [OF assms]])
        (auto simp: series_pass_def intro!: runs_ret)
  next
    case False
    from emits_runs' [OF own_dispatch [OF assms this]] show ?thesis
      by (rule runs_conseq) (auto simp: series_pass_def)
  qed
  ultimately show ?thesis using runs_conj by fastforce
qed

text \<open>Events that leave the series as they are.\<close>

definition still :: "event \<Rightarrow> bool" where
  "still ev \<longleftrightarrow> (\<forall>h. live_series (ev # h) = live_series h)"

lemma still_events [simp]:
  "still (EvNow t)" "still (EvStatusUpdate x res)" "still (EvMetric (MReconcileDuration d))" "still (EvMetric MReconcileErrors)"
  by (simp_all add: still_def)

lemma still_series: "list_all still es \<Longrightarrow> live_series (es @ h) = live_series h"
  by (induction es) (simp_all add: still_def)

lemma still_emits:
  "emits still (record_duration r start err) (\<lambda>_. True)"
  "emits (own_event n ns) (record_duration r start err) (\<lambda>_. True)"
  by (auto simp: record_duration_def intro!: emit_rules emits_bind_True)

lemma runs_finish_series:
  assumes "of_exam n ns e"
  shows "runs h (finish_pass r start now (e, d, err)) (\<lambda>es out. list_all (own_event n ns) es \<and>
    (ExPhase (ExStatus e) = PhaseTearingDown \<longrightarrow> live_series (es @ h) = live_series h) \<and>
    (snd out = None \<longrightarrow> err = None) \<and>
    (\<forall>x res. EvStatusUpdate x res \<in> set es \<longrightarrow> ExPhase (ExStatus x) = ExPhase (ExStatus e)))"
proof -
  have gauges: "emits (own_event n ns) (update_gauges r e now) (\<lambda>_. True)"
    using assms by (auto simp: update_gauges_def Let_def intro!: emits_bind_known emit_rules exam_series)
  have "emits (own_event n ns) (updateMetricsSummary r e) (\<lambda>_. True)"
    using assms by (auto simp: updateMetricsSummary_def Let_def intro!: emits_bind_known emit_rules exam_series)
  with gauges have "emits (own_event n ns) (report r e now) (\<lambda>_. True)"
    by (auto simp: report_def intro!: emit_rules emits_bind_True)
  then have own: "emits (own_event n ns) (finish_pass r start now (e, d, err)) (\<lambda>out. snd out = None \<longrightarrow> err = None)"
    unfolding finish_pass_def Let_def prod.case
    by (auto intro!: emits_bind_True [OF _] still_emits emit_rules simp: join_status_error_def split: option.splits)
  have "emits still (finish_pass r start now (e, d, err)) (\<lambda>_. True)" if "ExPhase (ExStatus e) = PhaseTearingDown"
    unfolding finish_pass_def Let_def prod.case
    using that by (auto simp: report_def intro!: emits_bind_True still_emits emit_rules)
  note idle = emits_runs' [OF this]
  have torn: "runs h (finish_pass r start now (e, d, err)) (\<lambda>es _. ExPhase (ExStatus e) = PhaseTearingDown \<longrightarrow> live_series (es @ h) = live_series h)"
    by (cases "ExPhase (ExStatus e) = PhaseTearingDown")
      (auto intro: runs_conseq [OF idle] runs_conseq [OF emits_runs' [OF own]] simp: still_series)
  have stored: "runs h (finish_pass r start now (e, d, err)) (\<lambda>es _. \<forall>x res. EvStatusUpdate x res \<in> set es \<longrightarrow>
      ExPhase (ExStatus x) = ExPhase (ExStatus e))"
    using emits_runs' [OF fp_finish_pass [where res = "(e, d, err)" and r = r and start = start and now = now and ?e0.0 = e
          and ?r0.0 = r and b = True and M = "\<lambda>_. True" and U = "\<lambda>x. ExPhase (ExStatus x) = ExPhase (ExStatus e)"]]
    by (rule runs_conseq) (auto simp: list_all_iff)
  show ?thesis
    by (rule runs_conseq [OF runs_conj [OF emits_runs' [OF own] runs_conj [OF torn stored]]]) auto
qed

section \<open>A whole pass\<close>

text \<open>A pass tore the exam down: without error, and the status it stored says so, or it was a deletion.\<close>

definition stored_torn :: "log \<Rightarrow> bool" where
  "stored_torn es \<longleftrightarrow> (\<exists>x res. EvStatusUpdate x res \<in> set es \<and> ExPhase (ExStatus x) = PhaseTearingDown)"

lemma stored_torn_append: "stored_torn (es2 @ es1) \<longleftrightarrow> stored_torn es2 \<or> stored_torn es1"
  by (auto simp: stored_torn_def)

definition clean_result :: "reconcile_result go \<Rightarrow> bool" where
  "clean_result out \<longleftrightarrow> (\<exists>d. out = Returns (d, None))"

lemma runs_transition_series:
  assumes "of_exam n ns e"
  shows "runs h (transition r e now) (\<lambda>es e2. of_exam n ns e2 \<and> list_all (own_event n ns) es \<and> unstored es)"
proof -
  have own: "emits (own_event n ns) (transition r e now) (of_exam n ns)"
    using assms unfolding transition_def Let_def
    by (auto intro!: emits_bind_known emit_rules exam_series)
  have "emits (\<lambda>ev. \<forall>x res. ev \<noteq> EvStatusUpdate x res) (transition r e now) (\<lambda>_. True)"
    unfolding transition_def Let_def
    by (auto intro!: emits_bind_known emit_rules)
  from runs_conj [OF emits_runs' [OF own] emits_runs' [OF this]] show ?thesis
    by (rule runs_conseq) (auto simp: unstored_def list_all_iff)
qed

lemma runs_deleted_unstored: "runs h (reconcile_deleted r e) (\<lambda>es _. unstored es)"
proof -
  have "emits (\<lambda>ev. \<forall>x res. ev \<noteq> EvStatusUpdate x res) (reconcile_deleted r e) (\<lambda>_. True)"
    by (auto simp: reconcile_deleted_def reconcileTeardown_def Let_def intro!: emits_bind_True emit_rules)
  from emits_runs' [OF this] show ?thesis by (rule runs_conseq) (auto simp: unstored_def list_all_iff)
qed

lemma runs_exam_series:
  assumes "of_exam n ns e"
  shows "runs h (reconcile_exam r start e) (\<lambda>es out. series_pass r n ns (clean_result out \<and> stored_torn es) h es)"
proof -
  have "of_exam n ns (set_times e)" using assms by (simp add: of_exam_def)
  note trans = runs_transition_series [OF this]
  show ?thesis
    unfolding reconcile_exam_def Let_def
  proof (rule runs_bind [OF runs_rNow], rule runs_bind [OF trans], goal_cases)
    case (1 es1 now es2 e2)
    then have e2: "of_exam n ns e2" and es: "list_all (own_event n ns) (es2 @ es1)" "unstored (es2 @ es1)"
      by (auto simp: unstored_def)
    show ?case
    proof (rule runs_bind [OF runs_dispatch_series [OF e2]], goal_cases)
      case (1 es3 handled)
      show ?case
      proof (cases handled)
        case Panics
        with 1 es show ?thesis by (auto simp: series_pass_def clean_result_def intro!: runs_ret)
      next
        case (Returns res)
        obtain e3 d err where res: "res = (e3, d, err)" by (cases res)
        have e3: "of_exam n ns e3" using 1 Returns res by simp
        have "series_pass r n ns (clean_result (Returns out) \<and> stored_torn (((es4 @ es3) @ es2) @ es1)) h (((es4 @ es3) @ es2) @ es1)"
          if "list_all (own_event n ns) es4" "ExPhase (ExStatus e3) = PhaseTearingDown \<longrightarrow>
            live_series (es4 @ es3 @ es2 @ es1 @ h) = live_series (es3 @ es2 @ es1 @ h)" "snd out = None \<longrightarrow> err = None"
            "\<forall>x res. EvStatusUpdate x res \<in> set es4 \<longrightarrow> ExPhase (ExStatus x) = ExPhase (ExStatus e3)" for es4 and out :: reconcile_result
          unfolding series_pass_def
        proof (intro conjI impI)
          show "list_all (own_event n ns) (((es4 @ es3) @ es2) @ es1)"
            using that(1) 1 es(1) by (simp add: series_pass_def)
          assume torn: "clean_result (Returns out) \<and> stored_torn (((es4 @ es3) @ es2) @ es1)" and m: "Metrics r" "arity_ok h"
          have "stored_torn es4"
            using torn 1 es(2) by (auto simp: stored_torn_def unstored_def)
          then have p: "ExPhase (ExStatus e3) = PhaseTearingDown" using that(4) by (auto simp: stored_torn_def)
          moreover have "err = None" using torn that(3) by (auto simp: clean_result_def)
          ultimately have "torn_result handled" by (simp add: Returns res)
          moreover have "arity_ok (es2 @ es1 @ h)" using own_events_series(1) [OF es(1) m(2)] by simp
          ultimately have "no_series n ns (es3 @ es2 @ es1 @ h)" using 1 m(1) by (simp add: series_pass_def)
          with that(2) p show "no_series n ns ((((es4 @ es3) @ es2) @ es1) @ h)" by (simp add: no_series_def)
        qed
        with Returns res show ?thesis
          by (auto intro!: runs_bind [OF runs_finish_series [OF e3]] runs_ret)
      qed
    qed
  qed
qed

lemma runs_deleted_series:
  assumes "of_exam n ns e"
  shows "runs h (reconcile_deleted r e) (\<lambda>es out. series_pass r n ns (snd out = None \<and> ctl_ContainsFinalizer r e finalizerName) h es)"
proof (cases "ctl_ContainsFinalizer r e finalizerName")
  case False
  then show ?thesis by (auto simp: reconcile_deleted_def series_pass_def intro!: runs_ret)
next
  case True
  have upd: "runs h (rUpdate r x) (\<lambda>es _. list_all (own_event n ns) es \<and> live_series (es @ h) = live_series h)" for h x
    by (auto simp: rUpdate_def intro!: runs_ask)
  have rest: "runs (es1 @ h) (rUpdate r x \<bind> (\<lambda>u. case u of Inl a \<Rightarrow> ret (0, Some (ApiErr a)) | Inr _ \<Rightarrow> ret (0, None)))
      (\<lambda>es (out :: reconcile_result). series_pass r n ns (snd out = None \<and> True) h (es @ es1))"
    if "list_all (own_event n ns) es1" "Metrics r \<longrightarrow> arity_ok h \<longrightarrow> no_series n ns (es1 @ h)" for es1 x
    by (rule runs_bind [OF upd]) (use that in \<open>auto simp: series_pass_def no_series_def intro!: runs_ret split: sum.splits\<close>)
  have "runs h (reconcileTeardown r e \<bind> (\<lambda>(e1, err). case err of Some x \<Rightarrow> ret (0, Some x)
      | None \<Rightarrow> rUpdate r (ctl_RemoveFinalizer r e1 finalizerName) \<bind>
          (\<lambda>u. case u of Inl a \<Rightarrow> ret (0, Some (ApiErr a)) | Inr _ \<Rightarrow> ret (0, None))))
    (\<lambda>es (out :: reconcile_result). series_pass r n ns (snd out = None \<and> True) h es)"
  proof (rule runs_bind [OF runs_teardown_series [OF assms]], goal_cases)
    case (1 es res)
    obtain e1 err where res: "res = (e1, err)" by (cases res)
    show ?case
    proof (cases err)
      case None
      with 1 res rest [of es] show ?thesis by simp
    next
      case (Some x)
      with 1 res show ?thesis by (auto simp: series_pass_def intro!: runs_ret)
    qed
  qed
  with True show ?thesis by (simp add: reconcile_deleted_def)
qed

definition torn_down :: "reconciler \<Rightarrow> exam \<Rightarrow> log \<Rightarrow> bool" where
  "torn_down r e es \<longleftrightarrow> stored_torn es \<or>
     (\<exists>k. EvGetExam k (Inr e) \<in> set es) \<and> deleting e \<and> ctl_ContainsFinalizer r e finalizerName"

lemma runs_update_series:
  "runs h (rUpdate r x) (\<lambda>es res. es = [EvUpdate x res])"
  by (auto simp: rUpdate_def intro!: runs_ask)

text \<open>The pass over the exam that was read.\<close>

lemma runs_read_series:
  assumes "of_exam n ns e"
  shows "runs h (if deleting e
       then reconcile_deleted r e \<bind> (\<lambda>out. ret (Returns out))
       else ensure_finalizer r e \<bind> (\<lambda>kept. case kept of Inl a \<Rightarrow> ret (Returns (0, Some (ApiErr a)))
         | Inr e1 \<Rightarrow> reconcile_exam r start e1))
    (\<lambda>es out. (\<forall>x y. EvUpdate x (Inr y) \<in> set es \<longrightarrow> of_exam n ns y) \<longrightarrow> series_pass r n ns
       (clean_result out \<and> (stored_torn es \<or> deleting e \<and> ctl_ContainsFinalizer r e finalizerName)) h es)"
proof (cases "deleting e")
  case True
  show ?thesis
    unfolding if_P [OF True]
    by (rule runs_bind [OF runs_conj [OF runs_deleted_series [OF assms] runs_deleted_unstored]], rule runs_ret)
      (use True in \<open>auto simp: series_pass_def clean_result_def stored_torn_def unstored_def\<close>)
next
  case deleting: False
  show ?thesis
  proof (cases "ctl_ContainsFinalizer r e finalizerName")
    case True
    then show ?thesis
      using runs_exam_series [OF assms, of h r start] deleting
      by (auto simp: ensure_finalizer_def elim: runs_conseq)
  next
    case False
    have "runs h (rUpdate r (ctl_AddFinalizer r e finalizerName) \<bind> (\<lambda>kept. case kept of Inl a \<Rightarrow> ret (Returns (0, Some (ApiErr a)))
         | Inr e1 \<Rightarrow> reconcile_exam r start e1))
      (\<lambda>es out. (\<forall>x y. EvUpdate x (Inr y) \<in> set es \<longrightarrow> of_exam n ns y) \<longrightarrow> series_pass r n ns (clean_result out \<and> stored_torn es) h es)"
    proof (rule runs_bind [OF runs_update_series], goal_cases)
      case (1 es1 kept)
      show ?case
      proof (cases kept)
        case (Inl a)
        with 1 show ?thesis by (auto simp: series_pass_def clean_result_def intro!: runs_ret)
      next
        case (Inr e1)
        have "of_exam (Name e1) (Namespace e1) e1" by (simp add: of_exam_def)
        note pass = runs_exam_series [OF this, of "es1 @ h" r start]
        have "arity_ok (es1 @ h) = arity_ok h" using 1 by (simp add: arity_ok_def)
        moreover have "stored_torn (es @ es1) = stored_torn es" for es using 1 by (auto simp: stored_torn_def)
        ultimately have step: "(\<forall>x y. EvUpdate x (Inr y) \<in> set (es @ es1) \<longrightarrow> of_exam n ns y) \<longrightarrow>
            series_pass r n ns (clean_result out \<and> stored_torn (es @ es1)) h (es @ es1)"
          if "series_pass r (Name e1) (Namespace e1) (clean_result out \<and> stored_torn es) (es1 @ h) es" for es out
          using that 1 Inr by (auto simp: series_pass_def of_exam_def)
        show ?thesis
          unfolding Inr sum.case by (rule runs_conseq [OF pass]) (rule step)
      qed
    qed
    with False deleting show ?thesis by (simp add: ensure_finalizer_def)
  qed
qed

lemma runs_Reconcile_series:
  assumes "of_exam n ns e"
  shows "runs h (Reconcile r req) (\<lambda>es out. serves e es \<longrightarrow> series_pass r n ns (clean_result out \<and> torn_down r e es) h es)"
  unfolding Reconcile_def
proof (rule runs_bind [OF runs_rNow], goal_cases)
  case (1 es1 start)
  note start = 1
  have get: "runs h (rGetExam r req) (\<lambda>es got. es = [EvGetExam req got])" for h
    by (auto simp: rGetExam_def intro!: runs_ask)
  show ?case
  proof (rule runs_bind [OF get], goal_cases)
    case (1 es2 got)
    have old: "list_all (own_event n ns) (es2 @ es1)" "live_series (es2 @ es1 @ h) = live_series h"
      "\<not> stored_torn (es2 @ es1)"
      using start 1 by (auto simp: stored_torn_def)
    show ?case
    proof (cases got)
      case (Inl a)
      have "\<not> torn_down r e (es2 @ es1)" using start 1 Inl by (auto simp: torn_down_def stored_torn_def)
      with Inl old(1) show ?thesis by (auto simp: series_pass_def intro!: runs_ret)
    next
      case (Inr e')
      have after: "series_pass r n ns (clean_result out \<and> torn_down r e ((es @ es2) @ es1)) h ((es @ es2) @ es1)"
        if "serves e ((es @ es2) @ es1)" and pass: "(\<forall>x y. EvUpdate x (Inr y) \<in> set es \<longrightarrow> of_exam (Name e') (Namespace e') y) \<longrightarrow>
          series_pass r (Name e') (Namespace e') (clean_result out \<and>
            (stored_torn es \<or> deleting e' \<and> ctl_ContainsFinalizer r e' finalizerName)) (es2 @ es1 @ h) es" for es out
      proof -
        have "EvGetExam req (Inr e') \<in> set ((es @ es2) @ es1)" using 1 Inr by simp
        with that(1) have e': "e' = e" unfolding serves_def by blast
        have names: "Name e = n" "Namespace e = ns" using assms by (simp_all add: of_exam_def)
        have "\<forall>x y. EvUpdate x (Inr y) \<in> set es \<longrightarrow> of_exam (Name e') (Namespace e') y"
          using that(1) e' by (auto simp: serves_def of_exam_def)
        with pass have "series_pass r n ns (clean_result out \<and>
            (stored_torn es \<or> deleting e \<and> ctl_ContainsFinalizer r e finalizerName)) (es2 @ es1 @ h) es"
          by (simp add: e' names)
        moreover have "torn_down r e ((es @ es2) @ es1) \<Longrightarrow> stored_torn es \<or> deleting e \<and> ctl_ContainsFinalizer r e finalizerName"
          using old(3) by (auto simp: torn_down_def stored_torn_append)
        ultimately show ?thesis using old(1,2) by (auto simp: series_pass_def arity_ok_def)
      qed
      have "of_exam (Name e') (Namespace e') e'" by (simp add: of_exam_def)
      note read = runs_read_series [OF this, of "es2 @ es1 @ h" r start]
      show ?thesis
        unfolding Inr sum.case by (rule runs_conseq [OF read]) (use after in blast)
    qed
  qed
qed

section \<open>Properties\<close>

text \<open>
  C23: metric series come and go with their exam. Whatever happens in a pass over an exam, the
  series of every other exam are afterwards what they were, and every series keeps one value
  per label; and after a pass without error that tore the exam down, by the clock or because it
  was deleted, none of its series is left in any vector, although the pass updates some of them
  before the cleanup and writes its status after it.
\<close>
theorem pass_metrics:
  assumes "run_state (Reconcile r (Namespace e, Name e)) h = (out, es @ h)" "serves e es" "arity_ok h"
  shows "{s \<in> live_series (es @ h). \<not> series_of (Name e) (Namespace e) s} =
      {s \<in> live_series h. \<not> series_of (Name e) (Namespace e) s} \<and> arity_ok (es @ h) \<and>
    (Metrics r \<and> (\<exists>d. out = Returns (d, None)) \<and> torn_down r e es \<longrightarrow>
      (\<forall>s \<in> live_series (es @ h). \<not> series_of (Name e) (Namespace e) s))"
proof -
  have "of_exam (Name e) (Namespace e) e" by (simp add: of_exam_def)
  from runs_Reconcile_series [OF this, of h r "(Namespace e, Name e)"] assms(1,2)
  have p: "series_pass r (Name e) (Namespace e) (clean_result out \<and> torn_down r e es) h es" by (simp add: runs_def)
  then have "list_all (own_event (Name e) (Namespace e)) es" by (simp add: series_pass_def)
  note own = own_events_series [OF this assms(3)]
  have "{s \<in> live_series (es @ h). \<not> series_of (Name e) (Namespace e) s} =
      {s \<in> live_series h. \<not> series_of (Name e) (Namespace e) s}"
    using own(2) by blast
  with own(1) p assms(3) show ?thesis
    by (simp add: series_pass_def clean_result_def no_series_def del: split_paired_All split_paired_Ex)
qed

text \<open>The deletion of an exam, with a series of it and one of another exam.\<close>

definition deleted_exam :: exam where
  "deleted_exam = (sample_with ready_status)\<lparr>DeletionTimestamp := Some 5\<rparr>"

definition sample_series :: log where
  "sample_series = [EvMetric (MInc EmailsSentVec [''midterm'', ''exam-system'']), EvMetric (MInc EmailsSentVec [''final'', ''exam-system''])]"

text \<open>An update of the exam leaves its status in the store alone, so the server answers with the stored one.\<close>

definition measured_server :: reconciler where
  "measured_server = (sample_reconciler deleted_exam 0)
     \<lparr>Metrics := True, cl_Update := \<lambda>h e. Inr (e\<lparr>ExStatus := ready_status\<rparr>)\<rparr>"

lemma deletion_pass:
  "\<exists>es. run_state (Reconcile measured_server (Namespace deleted_exam, Name deleted_exam)) h =
     (Returns (0, None), es @ h) \<and> serves deleted_exam es \<and> EvGetExam (Namespace deleted_exam, Name deleted_exam) (Inr deleted_exam) \<in> set es"
  by (auto simp: measured_server_def run_bind_lazy run_calls Reconcile_def deleting_def deleted_exam_def zero_time_def reconcile_deleted_def finalizerName_def
      reconcileTeardown_def ignore_missing_def CleanupExam_def run_do_metrics serves_def)

theorem pass_metrics_witness:
  "\<exists>es. run_state (Reconcile measured_server (Namespace deleted_exam, Name deleted_exam))
       sample_series = (Returns (0, None), es @ sample_series) \<and>
     live_series (es @ sample_series) = {(EmailsSentVec, [''final'', ''exam-system''])}"
proof -
  obtain es where es: "run_state (Reconcile measured_server (Namespace deleted_exam, Name deleted_exam)) sample_series = (Returns (0, None), es @ sample_series)"
    "serves deleted_exam es" "EvGetExam (Namespace deleted_exam, Name deleted_exam) (Inr deleted_exam) \<in> set es"
    using deletion_pass [of sample_series] by blast
  have "arity_ok sample_series" by (simp add: arity_ok_def sample_series_def examLabels_def)
  note p = pass_metrics [OF es(1,2) this]
  have "torn_down measured_server deleted_exam es"
    using es(3) by (auto simp: torn_down_def deleting_def measured_server_def deleted_exam_def zero_time_def finalizerName_def)
  moreover have "Metrics measured_server" by (simp add: measured_server_def)
  ultimately have "live_series (es @ sample_series) = {s \<in> live_series sample_series. \<not> series_of (Name deleted_exam) (Namespace deleted_exam) s}"
    using p by auto
  also have "\<dots> = {(EmailsSentVec, [''final'', ''exam-system''])}"
    by (auto simp: sample_series_def series_of_def deleted_exam_def examLabels_def)
  finally show ?thesis using es(1) by blast
qed

end
