(* ===== verification/GoHeap.thy ===== *)
theory GoHeap
  imports Prelude
begin

text \<open>
  Go's memory where the code depends on it: the generated deep copies. The memory is a list of
  cells, newest first; a pointer is the number of cells below the one it points to, so an
  allocation never moves a cell. Programs are in the same state monad as the controller, and
  the judgement \<open>runs\<close> gives the cells a program allocates.

  A structure in memory denotes a value of the model. \<open>readable\<close> says that the denotation
  depends on the cells only, \<open>copies\<close> that a program builds, from new cells alone, a structure
  of the same denotation.
\<close>

type_synonym 'c memory = "'c list"

fun fetch :: "'c memory \<Rightarrow> nat \<Rightarrow> 'c option" where
  "fetch [] a = None"
| "fetch (c # H) a = (if a = length H then Some c else fetch H a)"

text \<open>The block of cells \<open>es\<close> lies in the memory from address \<open>n\<close> on.\<close>

fun laid :: "'c memory \<Rightarrow> nat \<Rightarrow> 'c memory \<Rightarrow> bool" where
  "laid [] n H \<longleftrightarrow> True"
| "laid (c # es) n H \<longleftrightarrow> fetch H (n + length es) = Some c \<and> laid es n H"

lemma laid_append [simp]: "laid (es' @ es) n H \<longleftrightarrow> laid es' (n + length es) H \<and> laid es n H"
  by (induction es') (auto simp: ac_simps)

lemma fetch_bound: "fetch H a = Some c \<Longrightarrow> a < length H"
  by (induction H) (auto split: if_splits)

lemma fetch_append: "a < length H \<Longrightarrow> fetch (es @ H) a = fetch H a"
  by (induction es) auto

lemma laid_mono: "laid es n H \<Longrightarrow> n + length es \<le> length H \<Longrightarrow> laid es n (es' @ H)"
  by (induction es) (auto simp: fetch_append)

lemma laid_self [simp]: "laid H 0 H"
proof (induction H)
  case (Cons c H)
  then show ?case using laid_mono [OF Cons, of "[c]"] by simp
qed simp

lemma laid_grow [simp]: "laid H 0 (es @ H)"
  by (rule laid_mono) simp_all

lemma laid_block: "laid es (length H) (es @ H)"
proof (induction es)
  case (Cons c es)
  then show ?case using laid_mono [OF Cons, of "[c]"] by simp
qed simp

lemma laid_fetch: "laid H 0 H' \<Longrightarrow> fetch H a = Some c \<Longrightarrow> fetch H' a = Some c"
  by (induction H) (auto split: if_splits)

section \<open>Memory operations\<close>

type_synonym ('c, 'a) mem = "('c memory, 'a) state"

text \<open>A new cell: Go's \<^verbatim>\<open>new\<close> and \<^verbatim>\<open>make\<close>, together with the first write of the whole content.\<close>

definition alloc :: "'c \<Rightarrow> ('c, nat) mem" where
  "alloc c = State (\<lambda>H. (length H, c # H))"

text \<open>
  Reading through a pointer; \<open>proj\<close> gives the content of a cell of the pointer's type. Go has
  no pointers to cells of another type or outside the memory.
\<close>

definition deref :: "('c \<Rightarrow> 'p option) \<Rightarrow> nat \<Rightarrow> ('c, 'p) mem" where
  "deref proj a = State (\<lambda>H. (the (Option.bind (fetch H a) proj), H))"

lemma run_alloc [simp]: "run_state (alloc c) H = (length H, c # H)"
  by (simp add: alloc_def)

lemma run_deref [simp]: "run_state (deref proj a) H = (the (Option.bind (fetch H a) proj), H)"
  by (simp add: deref_def)

text \<open>A slice: an array in memory, the first index and the length. The nil slice is \<open>None\<close>.\<close>

record goSlice =
  SliceArray :: nat
  SliceOffset :: nat
  SliceLen :: nat

definition slice_part :: "goSlice \<Rightarrow> 'p list \<Rightarrow> 'p list" where
  "slice_part s xs = take (SliceLen s) (drop (SliceOffset s) xs)"

fun copy_each :: "('p \<Rightarrow> ('c, 'p) mem) \<Rightarrow> 'p list \<Rightarrow> ('c, 'p list) mem" where
  "copy_each into [] = ret []"
| "copy_each into (x # xs) = do {
     y \<leftarrow> into x;
     ys \<leftarrow> copy_each into xs;
     ret (y # ys)
   }"

text \<open>
  The blocks that the generator writes for a pointer and for a slice, with the copy of the
  content (or of each element) as an argument; for a plain assignment or \<^verbatim>\<open>copy\<close> it is \<open>ret\<close>.
\<close>

definition copy_ptr ::
    "('p \<Rightarrow> 'c) \<Rightarrow> ('c \<Rightarrow> 'p option) \<Rightarrow> ('p \<Rightarrow> ('c, 'p) mem) \<Rightarrow> nat option \<Rightarrow> ('c, nat option) mem" where
  "copy_ptr con proj into p =
     (case p of
        None \<Rightarrow> ret None
      | Some a \<Rightarrow> do {
          x \<leftarrow> deref proj a;
          y \<leftarrow> into x;
          b \<leftarrow> alloc (con y);
          ret (Some b)
        })"

definition copy_slice ::
    "('p list \<Rightarrow> 'c) \<Rightarrow> ('c \<Rightarrow> 'p list option) \<Rightarrow> ('p \<Rightarrow> ('c, 'p) mem) \<Rightarrow> goSlice option \<Rightarrow> ('c, goSlice option) mem" where
  "copy_slice con proj into p =
     (case p of
        None \<Rightarrow> ret None
      | Some s \<Rightarrow> do {
          xs \<leftarrow> deref proj (SliceArray s);
          ys \<leftarrow> copy_each into (slice_part s xs);
          b \<leftarrow> alloc (con ys);
          ret (Some \<lparr>SliceArray = b, SliceOffset = 0, SliceLen = SliceLen s\<rparr>)
        })"

section \<open>Denotations\<close>

text \<open>What a structure denotes: nothing (\<open>None\<close>) if a pointer or a slice in it is invalid.\<close>

type_synonym ('c, 'p, 'v) denotes = "'c memory \<Rightarrow> 'p \<Rightarrow> 'v option"

definition val_plain :: "('c, 'p, 'p) denotes" where
  "val_plain H x = Some x"

definition val_cell :: "('c \<Rightarrow> 'p option) \<Rightarrow> ('c, 'p, 'v) denotes \<Rightarrow> ('c, nat, 'v) denotes" where
  "val_cell proj val H a = do { c \<leftarrow> fetch H a; x \<leftarrow> proj c; val H x }"

definition val_ptr :: "('c \<Rightarrow> 'p option) \<Rightarrow> ('c, 'p, 'v) denotes \<Rightarrow> ('c, nat option, 'v option) denotes" where
  "val_ptr proj val H p = (case p of None \<Rightarrow> Some None | Some a \<Rightarrow> map_option Some (val_cell proj val H a))"

fun val_each :: "('c, 'p, 'v) denotes \<Rightarrow> ('c, 'p list, 'v list) denotes" where
  "val_each val H [] = Some []"
| "val_each val H (x # xs) = do { v \<leftarrow> val H x; vs \<leftarrow> val_each val H xs; Some (v # vs) }"

definition val_slice :: "('c \<Rightarrow> 'p list option) \<Rightarrow> ('c, 'p, 'v) denotes \<Rightarrow> ('c, goSlice option, 'v list) denotes" where
  "val_slice proj val H p =
     (case p of
        None \<Rightarrow> Some []
      | Some s \<Rightarrow> do {
          c \<leftarrow> fetch H (SliceArray s);
          xs \<leftarrow> proj c;
          if SliceOffset s + SliceLen s \<le> length xs then val_each val H (slice_part s xs) else None
        })"

definition readable :: "('c, 'p, 'v) denotes \<Rightarrow> bool" where
  "readable val \<longleftrightarrow> (\<forall>H p v H'. val H p = Some v \<longrightarrow> laid H 0 H' \<longrightarrow> val H' p = Some v)"

definition copies :: "('c, 'p, 'v) denotes \<Rightarrow> ('p \<Rightarrow> ('c, 'p) mem) \<Rightarrow> bool" where
  "copies val f \<longleftrightarrow> (\<forall>H p v. val H p = Some v \<longrightarrow>
     runs H (f p) (\<lambda>es q. \<forall>H'. laid es (length H) H' \<longrightarrow> val H' q = Some v))"

lemma readableI: "(\<And>H p v H'. val H p = Some v \<Longrightarrow> laid H 0 H' \<Longrightarrow> val H' p = Some v) \<Longrightarrow> readable val"
  unfolding readable_def by blast

lemma readableD: "readable val \<Longrightarrow> val H p = Some v \<Longrightarrow> laid H 0 H' \<Longrightarrow> val H' p = Some v"
  unfolding readable_def by blast

lemma copiesI:
  "(\<And>H p v. val H p = Some v \<Longrightarrow> runs H (f p) (\<lambda>es q. \<forall>H'. laid es (length H) H' \<longrightarrow> val H' q = Some v)) \<Longrightarrow>
    copies val f"
  unfolding copies_def by blast

lemma copiesD:
  "copies val f \<Longrightarrow> val H p = Some v \<Longrightarrow>
    runs H (f p) (\<lambda>es q. \<forall>H'. laid es (length H) H' \<longrightarrow> val H' q = Some v)"
  unfolding copies_def by blast

named_theorems readable_intros \<open>denotations that depend on the cells only\<close>
named_theorems copies_intros \<open>programs that copy\<close>

lemma readable_plain [readable_intros]: "readable val_plain"
  by (simp add: readable_def val_plain_def)

lemma readable_cell [readable_intros]:
  assumes "readable val"
  shows "readable (val_cell proj val)"
proof (rule readableI)
  fix H a v H'
  assume *: "val_cell proj val H a = Some v" "laid H 0 H'"
  then obtain c x where "fetch H a = Some c" "proj c = Some x" "val H x = Some v"
    by (auto simp: val_cell_def bind_eq_Some_conv)
  with laid_fetch [OF *(2)] readableD [OF assms _ *(2)] show "val_cell proj val H' a = Some v"
    by (simp add: val_cell_def)
qed

lemma readable_ptr [readable_intros]:
  assumes "readable val"
  shows "readable (val_ptr proj val)"
proof (rule readableI)
  fix H p v H'
  assume *: "val_ptr proj val H p = Some v" "laid H 0 H'"
  with readableD [OF readable_cell [OF assms] _ *(2)] show "val_ptr proj val H' p = Some v"
    by (cases p) (auto simp: val_ptr_def)
qed

lemma readable_each [readable_intros]:
  assumes "readable val"
  shows "readable (val_each val)"
proof (rule readableI)
  fix H p v H'
  show "val_each val H p = Some v \<Longrightarrow> laid H 0 H' \<Longrightarrow> val_each val H' p = Some v"
  proof (induction p arbitrary: v)
    case (Cons x xs)
    then obtain w ws where "val H x = Some w" "val_each val H xs = Some ws" "v = w # ws"
      by (auto simp: bind_eq_Some_conv)
    with Cons.IH [OF _ Cons.prems(2)] readableD [OF assms _ Cons.prems(2)] show ?case by simp
  qed simp
qed

lemma readable_slice [readable_intros]:
  assumes "readable val"
  shows "readable (val_slice proj val)"
proof (rule readableI)
  fix H p v H'
  assume *: "val_slice proj val H p = Some v" "laid H 0 H'"
  then show "val_slice proj val H' p = Some v"
    using laid_fetch [OF *(2)] readableD [OF readable_each [OF assms] _ *(2)]
    by (cases p) (auto simp: val_slice_def bind_eq_Some_conv split: if_splits)
qed

text \<open>A field of a struct is copied, then the rest.\<close>

lemma runs_field:
  assumes "copies val f" "readable val" "val H0 p = Some v" "laid H0 0 H"
    and "\<And>es q. (\<And>H'. laid es (length H) H' \<Longrightarrow> val H' q = Some v) \<Longrightarrow> laid H0 0 (es @ H) \<Longrightarrow>
      runs (es @ H) (k q) (\<lambda>es' y. Q (es' @ es) y)"
  shows "runs H (f p \<bind> k) Q"
proof (rule runs_bind [OF copiesD [OF assms(1)]])
  show val: "val H p = Some v" using readableD [OF assms(2,3,4)] .
  fix es q
  assume new: "\<forall>H'. laid es (length H) H' \<longrightarrow> val H' q = Some v"
  have "laid H0 0 (es @ H)"
  proof (rule laid_mono [OF assms(4)])
    show "0 + length H0 \<le> length H"
      using assms(4) by (cases H0) (auto dest!: fetch_bound)
  qed
  with new show "runs (es @ H) (k q) (\<lambda>es' y. Q (es' @ es) y)" by (intro assms(5)) auto
qed

lemma copies_plain [copies_intros]: "copies val_plain ret"
  by (rule copiesI) (auto simp: val_plain_def intro!: runs_ret)

lemma runs_deref_bind:
  "fetch H a = Some c \<Longrightarrow> proj c = Some x \<Longrightarrow> runs H (k x) Q \<Longrightarrow> runs H (deref proj a \<bind> k) Q"
  by (simp add: runs_def)

lemma runs_alloc_bind: "runs (c # H) (k (length H)) (\<lambda>es. Q (es @ [c])) \<Longrightarrow> runs H (alloc c \<bind> k) Q"
  by (auto simp: runs_def)

lemma copies_ptr [copies_intros]:
  assumes "copies val into" "\<And>y. proj (con y) = Some y"
  shows "copies (val_ptr proj val) (copy_ptr con proj into)"
proof (rule copiesI)
  fix H p v
  assume "val_ptr proj val H p = Some v"
  then show "runs H (copy_ptr con proj into p) (\<lambda>es q. \<forall>H'. laid es (length H) H' \<longrightarrow> val_ptr proj val H' q = Some v)"
  proof (cases p)
    case None
    with \<open>val_ptr proj val H p = Some v\<close> show ?thesis
      by (auto simp: copy_ptr_def val_ptr_def intro!: runs_ret)
  next
    case (Some a)
    with \<open>val_ptr proj val H p = Some v\<close> obtain c x w where
      c: "fetch H a = Some c" "proj c = Some x" "val H x = Some w" "v = Some w"
      by (auto simp: val_ptr_def val_cell_def bind_eq_Some_conv)
    show ?thesis
      unfolding Some copy_ptr_def option.case
      by (rule runs_deref_bind [of _ _ _ proj, OF c(1,2)], rule runs_bind [OF copiesD [OF assms(1) c(3)]])
        (auto intro!: runs_alloc_bind runs_ret simp: val_ptr_def val_cell_def assms(2) c(4) add.commute)
  qed
qed

lemma copies_each [copies_intros]:
  assumes "copies val into" "readable val"
  shows "copies (val_each val) (copy_each into)"
proof (rule copiesI)
  fix H p v
  show "val_each val H p = Some v \<Longrightarrow>
    runs H (copy_each into p) (\<lambda>es q. (\<forall>H'. laid es (length H) H' \<longrightarrow> val_each val H' q = Some v))"
  proof (induction p arbitrary: v H)
    case Nil
    then show ?case by (auto intro!: runs_ret)
  next
    case (Cons x xs)
    then obtain w ws where w: "val H x = Some w" "val_each val H xs = Some ws" "v = w # ws"
      by (auto simp: bind_eq_Some_conv)
    show ?case
      unfolding copy_each.simps
    proof (rule runs_field [OF assms w(1) laid_self])
      fix es y
      assume y: "\<And>H'. laid es (length H) H' \<Longrightarrow> val H' y = Some w"
      have "val_each val (es @ H) xs = Some ws"
        using readableD [OF readable_each [OF assms(2)] w(2)] by simp
      from Cons.IH [OF this] show "runs (es @ H) (copy_each into xs \<bind> (\<lambda>ys. ret (y # ys)))
          (\<lambda>es' q. \<forall>H'. laid (es' @ es) (length H) H' \<longrightarrow> val_each val H' q = Some v)"
        by (rule runs_bind) (auto intro!: runs_ret simp: y w(3) add.commute)
    qed
  qed
qed

lemma val_each_length: "val_each val H xs = Some vs \<Longrightarrow> length vs = length xs"
  by (induction xs arbitrary: vs) (auto simp: bind_eq_Some_conv)

lemma copies_slice [copies_intros]:
  assumes "copies val into" "readable val" "\<And>ys. proj (con ys) = Some ys"
  shows "copies (val_slice proj val) (copy_slice con proj into)"
proof (rule copiesI)
  fix H p v
  assume *: "val_slice proj val H p = Some v"
  show "runs H (copy_slice con proj into p) (\<lambda>es q. \<forall>H'. laid es (length H) H' \<longrightarrow> val_slice proj val H' q = Some v)"
  proof (cases p)
    case None
    with * show ?thesis by (auto simp: copy_slice_def val_slice_def intro!: runs_ret)
  next
    case (Some s)
    with * obtain c xs where c: "fetch H (SliceArray s) = Some c" "proj c = Some xs"
      "SliceOffset s + SliceLen s \<le> length xs" "val_each val H (slice_part s xs) = Some v"
      by (auto simp: val_slice_def bind_eq_Some_conv split: if_splits)
    have len: "length v = SliceLen s"
      using val_each_length [OF c(4)] c(3) by (simp add: slice_part_def)
    let ?k = "\<lambda>ys. alloc (con ys) \<bind> (\<lambda>b. ret (Some \<lparr>SliceArray = b, SliceOffset = 0, SliceLen = SliceLen s\<rparr>))"
    have "runs H (copy_each into (slice_part s xs) \<bind> ?k)
        (\<lambda>es q. \<forall>H'. laid es (length H) H' \<longrightarrow> val_slice proj val H' q = Some v)"
    proof (rule runs_bind [OF copiesD [OF copies_each [OF assms(1,2)] c(4)]])
      fix es ys
      assume ys: "\<forall>H'. laid es (length H) H' \<longrightarrow> val_each val H' ys = Some v"
      have "val_slice proj val H' (Some \<lparr>SliceArray = length es + length H, SliceOffset = 0, SliceLen = SliceLen s\<rparr>) = Some v"
        if "fetch H' (length es + length H) = Some (con ys)" "laid es (length H) H'" for H'
      proof -
        have "val_each val H' ys = Some v" using ys that(2) by blast
        moreover from this have "length ys = SliceLen s" using val_each_length len by metis
        ultimately show ?thesis using that(1) by (simp add: val_slice_def slice_part_def assms(3))
      qed
      then show "runs (es @ H) (?k ys) (\<lambda>es' q. \<forall>H'. laid (es' @ es) (length H) H' \<longrightarrow> val_slice proj val H' q = Some v)"
        by (auto intro!: runs_alloc_bind runs_ret simp: add.commute)
    qed
    then show ?thesis
      unfolding Some copy_slice_def option.case by (intro runs_deref_bind [of _ _ _ proj, OF c(1,2)])
  qed
qed

section \<open>Writes\<close>

fun write_cell :: "nat \<times> 'c \<Rightarrow> 'c memory \<Rightarrow> 'c memory" where
  "write_cell w [] = []"
| "write_cell w (d # H) = (if fst w = length H then snd w # H else d # write_cell w H)"

lemma length_write_cell [simp]: "length (write_cell w H) = length H"
  by (induction H) simp_all

lemma fetch_write_cell: "a \<noteq> fst w \<Longrightarrow> fetch (write_cell w H) a = fetch H a"
  by (induction H) auto

lemma laid_writes:
  assumes "\<And>w. w \<in> set ws \<Longrightarrow> fst w < n \<or> n + length es \<le> fst w" "laid es n H"
  shows "laid es n (fold write_cell ws H)"
proof -
  have one: "laid es n (write_cell w H)" if "laid es n H" "fst w < n \<or> n + length es \<le> fst w" for w H
    using that by (induction es) (auto simp: fetch_write_cell)
  show ?thesis
    using assms by (induction ws arbitrary: H) (simp_all add: one)
qed

text \<open>
  The structure at \<open>b\<close> in the memory \<open>H'\<close> is an independent copy of the one at \<open>a\<close> in \<open>H\<close>, of
  denotation \<open>v\<close>: \<open>H'\<close> has new cells only, the copy keeps its denotation whatever is written
  to the old cells, and the original keeps it whatever is written to the new ones.
\<close>

definition independent_copy :: "('c, nat, 'v) denotes \<Rightarrow> nat \<Rightarrow> 'c memory \<Rightarrow> 'v \<Rightarrow> nat \<Rightarrow> 'c memory \<Rightarrow> bool" where
  "independent_copy val a H v b H' \<longleftrightarrow> length H \<le> b \<and> (\<exists>es. H' = es @ H) \<and>
     (\<forall>ws. (\<forall>w \<in> set ws. fst w < length H) \<longrightarrow> val (fold write_cell ws H') b = Some v) \<and>
     (\<forall>ws. (\<forall>w \<in> set ws. length H \<le> fst w) \<longrightarrow> val (fold write_cell ws H') a = Some v)"

lemma copy_ptr_Some:
  assumes "val_ptr proj val H p = Some v" "run_state (copy_ptr con proj into p) H = (q, H')"
  shows "p = None \<longleftrightarrow> q = None"
  using assms by (auto simp: copy_ptr_def split: option.splits prod.splits)

lemma independent_copyI:
  assumes "copies val into" "readable val" "\<And>y. proj (con y) = Some y" "val_cell proj val H a = Some v"
  shows "\<exists>b H'. run_state (copy_ptr con proj into (Some a)) H = (Some b, H') \<and>
    independent_copy (val_cell proj val) a H v b H'"
proof -
  have val: "val_ptr proj val H (Some a) = Some (Some v)" using assms(4) by (simp add: val_ptr_def)
  obtain q H' where run: "run_state (copy_ptr con proj into (Some a)) H = (q, H')" by fastforce
  obtain es where es: "H' = es @ H" "\<And>H''. laid es (length H) H'' \<Longrightarrow> val_ptr proj val H'' q = Some (Some v)"
    using copiesD [OF copies_ptr [of val into proj con, OF assms(1,3)] val] by (auto simp: runs_def run)
  obtain b where b: "q = Some b" using copy_ptr_Some [OF val run] by auto
  have cell: "val_cell proj val H'' b = Some v" if "laid es (length H) H''" for H''
    using es(2) [OF that] by (simp add: b val_ptr_def)
  have keep: "laid es (length H) (fold write_cell ws H')" if "\<forall>w \<in> set ws. fst w < length H" for ws
    using that by (intro laid_writes) (auto simp: es(1) laid_block)
  have old: "laid H 0 (fold write_cell ws H')" if "\<forall>w \<in> set ws. length H \<le> fst w" for ws
    using that by (intro laid_writes) (auto simp: es(1))
  have "length H \<le> b"
  proof -
    obtain c x where c: "fetch H a = Some c" "proj c = Some x" "val H x = Some v"
      using assms(4) by (auto simp: val_cell_def bind_eq_Some_conv)
    from copiesD [OF assms(1) c(3)] obtain es1 where "snd (run_state (into x) H) = es1 @ H"
      by (auto simp: runs_def)
    with run c(1,2) show ?thesis by (auto simp: copy_ptr_def b split: prod.splits)
  qed
  moreover have "val_cell proj val (fold write_cell ws H') a = Some v" if "\<forall>w \<in> set ws. length H \<le> fst w" for ws
    using readableD [OF readable_cell [OF assms(2)] assms(4) old [OF that]] .
  ultimately show ?thesis
    using run cell keep by (auto simp: b es(1) independent_copy_def)
qed

end
