(* ===== verification/DeepCopy.thy ===== *)
theory DeepCopy
  imports GoHeap ExamTypes
begin

text \<open>
  The generated deep copies of \<^verbatim>\<open>api/v1alpha1/zz_generated.deepcopy.go\<close>, over a memory with
  pointers and slices. Everywhere else an exam is a value; the copies are what lets the code
  treat it as one: the cache hands out copies, and the controller writes into its own.

  A struct with pointers has a record of its own here, as it lies in memory, and a denotation
  in the record of ExamTypes. The method \<^verbatim>\<open>in.DeepCopyInto(out)\<close> becomes a function from the
  content of \<^verbatim>\<open>*in\<close> to the content it leaves in \<^verbatim>\<open>*out\<close>: it begins with \<^verbatim>\<open>*out = *in\<close>, so the old
  content of \<^verbatim>\<open>*out\<close> does not matter. The cell of a copied pointer or slice is allocated when its
  content is complete; where it lies in memory cannot be observed in Go.
\<close>

section \<open>Structs in memory\<close>

record memResources =
  r_Limits :: "nat option"
  r_Requests :: "nat option"
  r_Claims :: "goSlice option"

record memTemplate =
  t_Image :: string
  t_Resources :: memResources
  t_Port :: int32

record memSchedule =
  c_Unlock :: time
  c_Duration :: duration
  c_TimeMultiplier :: f64
  c_ProvisionBefore :: duration
  c_Retention :: duration
  c_DryRun :: "nat option"

record memSpec =
  p_Template :: memTemplate
  p_Schedule :: memSchedule
  p_Students :: "goSlice option"
  p_Email :: examEmail
  p_Spares :: int64

record memDryRunStatus =
  d_CompletedAt :: "nat option"
  d_Passed :: int
  d_Failed :: int
  d_Failures :: "goSlice option"

record memStudentStatus =
  u_ID :: string
  u_Slug :: string
  u_URL :: string
  u_Phase :: studentPhase
  u_EmailStatus :: emailStatus
  u_EmailSentAt :: "nat option"

record memStatus =
  s_Phase :: examPhase
  s_PhaseEntryTime :: "nat option"
  s_Message :: string
  s_Conditions :: "goSlice option"
  s_ComputedLockTime :: "nat option"
  s_ProvisionTime :: "nat option"
  s_EmailTime :: "nat option"
  s_RetentionDeadline :: "nat option"
  s_DryRun :: "nat option"
  s_Students :: "goSlice option"
  s_Spares :: "goSlice option"
  s_Metrics :: "nat option"

text \<open>Of the metadata the fields that the record \<open>exam\<close> holds; the metadata of a list.\<close>

record memObjectMeta =
  m_Name :: string
  m_Namespace :: string
  m_Generation :: int64
  m_DeletionTimestamp :: "nat option"
  m_Finalizers :: "goSlice option"

record memListMeta =
  l_ResourceVersion :: string
  l_RemainingItemCount :: "nat option"

record typeMeta =
  TypeKind :: string
  APIVersion :: string

record memExam =
  e_TypeMeta :: typeMeta
  e_ObjectMeta :: memObjectMeta
  e_Spec :: memSpec
  e_Status :: memStatus

record memExamList =
  x_TypeMeta :: typeMeta
  x_ListMeta :: memListMeta
  x_Items :: "goSlice option"

text \<open>What a cell may hold: a struct, an array behind a slice, a map.\<close>

datatype cell =
    CTime time
  | CInt64 int64
  | CStrings "string list"
  | CStringMap "(string \<times> string) list"
  | CClaims "(string \<times> string) list"
  | CConditions "condition list"
  | CExamStudents "examStudent list"
  | CFailures "dryRunFailure list"
  | CStudentStatuses "memStudentStatus list"
  | CSpareStatuses "spareStatus list"
  | CExams "memExam list"
  | CDryRunFailure dryRunFailure
  | CDryRunStatus memDryRunStatus
  | CExam memExam
  | CExamDryRunSpec examDryRunSpec
  | CExamEmail examEmail
  | CExamList memExamList
  | CExamSchedule memSchedule
  | CExamSpec memSpec
  | CExamStatus memStatus
  | CExamStudent examStudent
  | CExamTemplate memTemplate
  | CMetricsSummary metricsSummary
  | CSpareStatus spareStatus
  | CStudentStatus memStudentStatus

type_synonym 'a go_mem = "(cell, 'a) mem"

text \<open>The content of a cell of a given type.\<close>

definition un_CTime :: "cell \<Rightarrow> (time) option" where
  "un_CTime c = (case c of CTime x \<Rightarrow> Some x | _ \<Rightarrow> None)"

definition un_CInt64 :: "cell \<Rightarrow> (int64) option" where
  "un_CInt64 c = (case c of CInt64 x \<Rightarrow> Some x | _ \<Rightarrow> None)"

definition un_CStrings :: "cell \<Rightarrow> (string list) option" where
  "un_CStrings c = (case c of CStrings x \<Rightarrow> Some x | _ \<Rightarrow> None)"

definition un_CStringMap :: "cell \<Rightarrow> ((string \<times> string) list) option" where
  "un_CStringMap c = (case c of CStringMap x \<Rightarrow> Some x | _ \<Rightarrow> None)"

definition un_CClaims :: "cell \<Rightarrow> ((string \<times> string) list) option" where
  "un_CClaims c = (case c of CClaims x \<Rightarrow> Some x | _ \<Rightarrow> None)"

definition un_CConditions :: "cell \<Rightarrow> (condition list) option" where
  "un_CConditions c = (case c of CConditions x \<Rightarrow> Some x | _ \<Rightarrow> None)"

definition un_CExamStudents :: "cell \<Rightarrow> (examStudent list) option" where
  "un_CExamStudents c = (case c of CExamStudents x \<Rightarrow> Some x | _ \<Rightarrow> None)"

definition un_CFailures :: "cell \<Rightarrow> (dryRunFailure list) option" where
  "un_CFailures c = (case c of CFailures x \<Rightarrow> Some x | _ \<Rightarrow> None)"

definition un_CStudentStatuses :: "cell \<Rightarrow> (memStudentStatus list) option" where
  "un_CStudentStatuses c = (case c of CStudentStatuses x \<Rightarrow> Some x | _ \<Rightarrow> None)"

definition un_CSpareStatuses :: "cell \<Rightarrow> (spareStatus list) option" where
  "un_CSpareStatuses c = (case c of CSpareStatuses x \<Rightarrow> Some x | _ \<Rightarrow> None)"

definition un_CExams :: "cell \<Rightarrow> (memExam list) option" where
  "un_CExams c = (case c of CExams x \<Rightarrow> Some x | _ \<Rightarrow> None)"

definition un_CDryRunFailure :: "cell \<Rightarrow> (dryRunFailure) option" where
  "un_CDryRunFailure c = (case c of CDryRunFailure x \<Rightarrow> Some x | _ \<Rightarrow> None)"

definition un_CDryRunStatus :: "cell \<Rightarrow> (memDryRunStatus) option" where
  "un_CDryRunStatus c = (case c of CDryRunStatus x \<Rightarrow> Some x | _ \<Rightarrow> None)"

definition un_CExam :: "cell \<Rightarrow> (memExam) option" where
  "un_CExam c = (case c of CExam x \<Rightarrow> Some x | _ \<Rightarrow> None)"

definition un_CExamDryRunSpec :: "cell \<Rightarrow> (examDryRunSpec) option" where
  "un_CExamDryRunSpec c = (case c of CExamDryRunSpec x \<Rightarrow> Some x | _ \<Rightarrow> None)"

definition un_CExamEmail :: "cell \<Rightarrow> (examEmail) option" where
  "un_CExamEmail c = (case c of CExamEmail x \<Rightarrow> Some x | _ \<Rightarrow> None)"

definition un_CExamList :: "cell \<Rightarrow> (memExamList) option" where
  "un_CExamList c = (case c of CExamList x \<Rightarrow> Some x | _ \<Rightarrow> None)"

definition un_CExamSchedule :: "cell \<Rightarrow> (memSchedule) option" where
  "un_CExamSchedule c = (case c of CExamSchedule x \<Rightarrow> Some x | _ \<Rightarrow> None)"

definition un_CExamSpec :: "cell \<Rightarrow> (memSpec) option" where
  "un_CExamSpec c = (case c of CExamSpec x \<Rightarrow> Some x | _ \<Rightarrow> None)"

definition un_CExamStatus :: "cell \<Rightarrow> (memStatus) option" where
  "un_CExamStatus c = (case c of CExamStatus x \<Rightarrow> Some x | _ \<Rightarrow> None)"

definition un_CExamStudent :: "cell \<Rightarrow> (examStudent) option" where
  "un_CExamStudent c = (case c of CExamStudent x \<Rightarrow> Some x | _ \<Rightarrow> None)"

definition un_CExamTemplate :: "cell \<Rightarrow> (memTemplate) option" where
  "un_CExamTemplate c = (case c of CExamTemplate x \<Rightarrow> Some x | _ \<Rightarrow> None)"

definition un_CMetricsSummary :: "cell \<Rightarrow> (metricsSummary) option" where
  "un_CMetricsSummary c = (case c of CMetricsSummary x \<Rightarrow> Some x | _ \<Rightarrow> None)"

definition un_CSpareStatus :: "cell \<Rightarrow> (spareStatus) option" where
  "un_CSpareStatus c = (case c of CSpareStatus x \<Rightarrow> Some x | _ \<Rightarrow> None)"

definition un_CStudentStatus :: "cell \<Rightarrow> (memStudentStatus) option" where
  "un_CStudentStatus c = (case c of CStudentStatus x \<Rightarrow> Some x | _ \<Rightarrow> None)"

lemmas un_defs = un_CTime_def un_CInt64_def un_CStrings_def un_CStringMap_def un_CClaims_def
  un_CConditions_def un_CExamStudents_def un_CFailures_def un_CStudentStatuses_def un_CSpareStatuses_def
  un_CExams_def un_CDryRunFailure_def un_CDryRunStatus_def un_CExam_def un_CExamDryRunSpec_def
  un_CExamEmail_def un_CExamList_def un_CExamSchedule_def un_CExamSpec_def un_CExamStatus_def
  un_CExamStudent_def un_CExamTemplate_def un_CMetricsSummary_def un_CSpareStatus_def un_CStudentStatus_def

lemma un_cell [simp]:
  "un_CTime (CTime x0) = Some x0"
  "un_CInt64 (CInt64 x1) = Some x1"
  "un_CStrings (CStrings x2) = Some x2"
  "un_CStringMap (CStringMap x3) = Some x3"
  "un_CClaims (CClaims x4) = Some x4"
  "un_CConditions (CConditions x5) = Some x5"
  "un_CExamStudents (CExamStudents x6) = Some x6"
  "un_CFailures (CFailures x7) = Some x7"
  "un_CStudentStatuses (CStudentStatuses x8) = Some x8"
  "un_CSpareStatuses (CSpareStatuses x9) = Some x9"
  "un_CExams (CExams x10) = Some x10"
  "un_CDryRunFailure (CDryRunFailure x11) = Some x11"
  "un_CDryRunStatus (CDryRunStatus x12) = Some x12"
  "un_CExam (CExam x13) = Some x13"
  "un_CExamDryRunSpec (CExamDryRunSpec x14) = Some x14"
  "un_CExamEmail (CExamEmail x15) = Some x15"
  "un_CExamList (CExamList x16) = Some x16"
  "un_CExamSchedule (CExamSchedule x17) = Some x17"
  "un_CExamSpec (CExamSpec x18) = Some x18"
  "un_CExamStatus (CExamStatus x19) = Some x19"
  "un_CExamStudent (CExamStudent x20) = Some x20"
  "un_CExamTemplate (CExamTemplate x21) = Some x21"
  "un_CMetricsSummary (CMetricsSummary x22) = Some x22"
  "un_CSpareStatus (CSpareStatus x23) = Some x23"
  "un_CStudentStatus (CStudentStatus x24) = Some x24"
  by (simp_all add: un_defs)

section \<open>Copies of other packages\<close>

text \<open>
  The deep copies of \<^verbatim>\<open>metav1\<close> and \<^verbatim>\<open>corev1\<close> that the generated code calls are a parameter.
  What is documented of them is that they are deep copies themselves: \<open>deep_copies\<close> below.
\<close>

record deepcopy_lib =
  Time_DeepCopy :: "nat option \<Rightarrow> nat option go_mem"
  Time_DeepCopyInto :: "time \<Rightarrow> time go_mem"
  Condition_DeepCopyInto :: "condition \<Rightarrow> condition go_mem"
  ResourceRequirements_DeepCopyInto :: "memResources \<Rightarrow> memResources go_mem"
  ObjectMeta_DeepCopyInto :: "memObjectMeta \<Rightarrow> memObjectMeta go_mem"
  ListMeta_DeepCopyInto :: "memListMeta \<Rightarrow> memListMeta go_mem"

section \<open>The generated copies\<close>

definition DryRunFailure_DeepCopyInto :: "dryRunFailure \<Rightarrow> dryRunFailure go_mem" where
  "DryRunFailure_DeepCopyInto x = ret x"

text \<open>
  \<^verbatim>\<open>DeepCopy\<close> of every type: nil stays nil, otherwise \<^verbatim>\<open>new\<close> and \<^verbatim>\<open>DeepCopyInto\<close>.
\<close>

definition DryRunFailure_DeepCopy :: "nat option \<Rightarrow> nat option go_mem" where
  "DryRunFailure_DeepCopy p = copy_ptr CDryRunFailure un_CDryRunFailure DryRunFailure_DeepCopyInto p"

text \<open>The repeated \<^verbatim>\<open>if in.X != nil { *out = (*in).DeepCopy() }\<close> on a time.\<close>

definition copy_time :: "deepcopy_lib \<Rightarrow> nat option \<Rightarrow> nat option go_mem" where
  "copy_time lib p = (case p of None \<Rightarrow> ret None | Some a \<Rightarrow> Time_DeepCopy lib (Some a))"

definition DryRunStatus_DeepCopyInto :: "deepcopy_lib \<Rightarrow> memDryRunStatus \<Rightarrow> memDryRunStatus go_mem" where
  "DryRunStatus_DeepCopyInto lib x = do {
     t \<leftarrow> copy_time lib (d_CompletedAt x);
     fs \<leftarrow> copy_slice CFailures un_CFailures ret (d_Failures x);
     ret (x\<lparr>d_CompletedAt := t, d_Failures := fs\<rparr>)
   }"

definition DryRunStatus_DeepCopy :: "deepcopy_lib \<Rightarrow> nat option \<Rightarrow> nat option go_mem" where
  "DryRunStatus_DeepCopy lib p = copy_ptr CDryRunStatus un_CDryRunStatus (DryRunStatus_DeepCopyInto lib) p"

definition ExamDryRunSpec_DeepCopyInto :: "examDryRunSpec \<Rightarrow> examDryRunSpec go_mem" where
  "ExamDryRunSpec_DeepCopyInto x = ret (x\<lparr>DryRunBefore := DryRunBefore x\<rparr>)"

definition ExamDryRunSpec_DeepCopy :: "nat option \<Rightarrow> nat option go_mem" where
  "ExamDryRunSpec_DeepCopy p = copy_ptr CExamDryRunSpec un_CExamDryRunSpec ExamDryRunSpec_DeepCopyInto p"

definition ExamEmail_DeepCopyInto :: "examEmail \<Rightarrow> examEmail go_mem" where
  "ExamEmail_DeepCopyInto x = ret (x\<lparr>Before := Before x, SendInterval := SendInterval x\<rparr>)"

definition ExamEmail_DeepCopy :: "nat option \<Rightarrow> nat option go_mem" where
  "ExamEmail_DeepCopy p = copy_ptr CExamEmail un_CExamEmail ExamEmail_DeepCopyInto p"

definition ExamSchedule_DeepCopyInto :: "deepcopy_lib \<Rightarrow> memSchedule \<Rightarrow> memSchedule go_mem" where
  "ExamSchedule_DeepCopyInto lib x = do {
     t \<leftarrow> Time_DeepCopyInto lib (c_Unlock x);
     d \<leftarrow> copy_ptr CExamDryRunSpec un_CExamDryRunSpec ret (c_DryRun x);
     ret (x\<lparr>c_Unlock := t, c_Duration := c_Duration x, c_ProvisionBefore := c_ProvisionBefore x,
            c_Retention := c_Retention x, c_DryRun := d\<rparr>)
   }"

definition ExamSchedule_DeepCopy :: "deepcopy_lib \<Rightarrow> nat option \<Rightarrow> nat option go_mem" where
  "ExamSchedule_DeepCopy lib p = copy_ptr CExamSchedule un_CExamSchedule (ExamSchedule_DeepCopyInto lib) p"

definition ExamTemplate_DeepCopyInto :: "deepcopy_lib \<Rightarrow> memTemplate \<Rightarrow> memTemplate go_mem" where
  "ExamTemplate_DeepCopyInto lib x = do {
     r \<leftarrow> ResourceRequirements_DeepCopyInto lib (t_Resources x);
     ret (x\<lparr>t_Resources := r\<rparr>)
   }"

definition ExamTemplate_DeepCopy :: "deepcopy_lib \<Rightarrow> nat option \<Rightarrow> nat option go_mem" where
  "ExamTemplate_DeepCopy lib p = copy_ptr CExamTemplate un_CExamTemplate (ExamTemplate_DeepCopyInto lib) p"

definition ExamStudent_DeepCopyInto :: "examStudent \<Rightarrow> examStudent go_mem" where
  "ExamStudent_DeepCopyInto x = ret x"

definition ExamStudent_DeepCopy :: "nat option \<Rightarrow> nat option go_mem" where
  "ExamStudent_DeepCopy p = copy_ptr CExamStudent un_CExamStudent ExamStudent_DeepCopyInto p"

definition ExamSpec_DeepCopyInto :: "deepcopy_lib \<Rightarrow> memSpec \<Rightarrow> memSpec go_mem" where
  "ExamSpec_DeepCopyInto lib x = do {
     t \<leftarrow> ExamTemplate_DeepCopyInto lib (p_Template x);
     c \<leftarrow> ExamSchedule_DeepCopyInto lib (p_Schedule x);
     ss \<leftarrow> copy_slice CExamStudents un_CExamStudents ret (p_Students x);
     ret (x\<lparr>p_Template := t, p_Schedule := c, p_Students := ss, p_Email := p_Email x\<rparr>)
   }"

definition ExamSpec_DeepCopy :: "deepcopy_lib \<Rightarrow> nat option \<Rightarrow> nat option go_mem" where
  "ExamSpec_DeepCopy lib p = copy_ptr CExamSpec un_CExamSpec (ExamSpec_DeepCopyInto lib) p"

definition MetricsSummary_DeepCopyInto :: "metricsSummary \<Rightarrow> metricsSummary go_mem" where
  "MetricsSummary_DeepCopyInto x = ret x"

definition MetricsSummary_DeepCopy :: "nat option \<Rightarrow> nat option go_mem" where
  "MetricsSummary_DeepCopy p = copy_ptr CMetricsSummary un_CMetricsSummary MetricsSummary_DeepCopyInto p"

definition SpareStatus_DeepCopyInto :: "spareStatus \<Rightarrow> spareStatus go_mem" where
  "SpareStatus_DeepCopyInto x = ret x"

definition SpareStatus_DeepCopy :: "nat option \<Rightarrow> nat option go_mem" where
  "SpareStatus_DeepCopy p = copy_ptr CSpareStatus un_CSpareStatus SpareStatus_DeepCopyInto p"

definition StudentStatus_DeepCopyInto :: "deepcopy_lib \<Rightarrow> memStudentStatus \<Rightarrow> memStudentStatus go_mem" where
  "StudentStatus_DeepCopyInto lib x = do {
     t \<leftarrow> copy_time lib (u_EmailSentAt x);
     ret (x\<lparr>u_EmailSentAt := t\<rparr>)
   }"

definition StudentStatus_DeepCopy :: "deepcopy_lib \<Rightarrow> nat option \<Rightarrow> nat option go_mem" where
  "StudentStatus_DeepCopy lib p = copy_ptr CStudentStatus un_CStudentStatus (StudentStatus_DeepCopyInto lib) p"

definition ExamStatus_DeepCopyInto :: "deepcopy_lib \<Rightarrow> memStatus \<Rightarrow> memStatus go_mem" where
  "ExamStatus_DeepCopyInto lib x = do {
     entry \<leftarrow> copy_time lib (s_PhaseEntryTime x);
     cs \<leftarrow> copy_slice CConditions un_CConditions (Condition_DeepCopyInto lib) (s_Conditions x);
     lock \<leftarrow> copy_time lib (s_ComputedLockTime x);
     prov \<leftarrow> copy_time lib (s_ProvisionTime x);
     email \<leftarrow> copy_time lib (s_EmailTime x);
     ret_d \<leftarrow> copy_time lib (s_RetentionDeadline x);
     dry \<leftarrow> copy_ptr CDryRunStatus un_CDryRunStatus (DryRunStatus_DeepCopyInto lib) (s_DryRun x);
     students \<leftarrow> copy_slice CStudentStatuses un_CStudentStatuses (StudentStatus_DeepCopyInto lib) (s_Students x);
     spares \<leftarrow> copy_slice CSpareStatuses un_CSpareStatuses ret (s_Spares x);
     metrics \<leftarrow> copy_ptr CMetricsSummary un_CMetricsSummary ret (s_Metrics x);
     ret (x\<lparr>s_PhaseEntryTime := entry, s_Conditions := cs, s_ComputedLockTime := lock, s_ProvisionTime := prov,
            s_EmailTime := email, s_RetentionDeadline := ret_d, s_DryRun := dry, s_Students := students,
            s_Spares := spares, s_Metrics := metrics\<rparr>)
   }"

definition ExamStatus_DeepCopy :: "deepcopy_lib \<Rightarrow> nat option \<Rightarrow> nat option go_mem" where
  "ExamStatus_DeepCopy lib p = copy_ptr CExamStatus un_CExamStatus (ExamStatus_DeepCopyInto lib) p"

definition Exam_DeepCopyInto :: "deepcopy_lib \<Rightarrow> memExam \<Rightarrow> memExam go_mem" where
  "Exam_DeepCopyInto lib x = do {
     m \<leftarrow> ObjectMeta_DeepCopyInto lib (e_ObjectMeta x);
     s \<leftarrow> ExamSpec_DeepCopyInto lib (e_Spec x);
     st \<leftarrow> ExamStatus_DeepCopyInto lib (e_Status x);
     ret (x\<lparr>e_TypeMeta := e_TypeMeta x, e_ObjectMeta := m, e_Spec := s, e_Status := st\<rparr>)
   }"

definition Exam_DeepCopy :: "deepcopy_lib \<Rightarrow> nat option \<Rightarrow> nat option go_mem" where
  "Exam_DeepCopy lib p = copy_ptr CExam un_CExam (Exam_DeepCopyInto lib) p"

definition ExamList_DeepCopyInto :: "deepcopy_lib \<Rightarrow> memExamList \<Rightarrow> memExamList go_mem" where
  "ExamList_DeepCopyInto lib x = do {
     m \<leftarrow> ListMeta_DeepCopyInto lib (x_ListMeta x);
     es \<leftarrow> copy_slice CExams un_CExams (Exam_DeepCopyInto lib) (x_Items x);
     ret (x\<lparr>x_TypeMeta := x_TypeMeta x, x_ListMeta := m, x_Items := es\<rparr>)
   }"

definition ExamList_DeepCopy :: "deepcopy_lib \<Rightarrow> nat option \<Rightarrow> nat option go_mem" where
  "ExamList_DeepCopy lib p = copy_ptr CExamList un_CExamList (ExamList_DeepCopyInto lib) p"

text \<open>
  A value of the interface \<^verbatim>\<open>runtime.Object\<close> is nil, or a type with a pointer, which may itself
  be nil: then the interface is not.
\<close>

datatype runtime_object = ObjExam "nat option" | ObjExamList "nat option"

definition Exam_DeepCopyObject :: "deepcopy_lib \<Rightarrow> nat option \<Rightarrow> runtime_object option go_mem" where
  "Exam_DeepCopyObject lib p = do {
     c \<leftarrow> Exam_DeepCopy lib p;
     if c \<noteq> None then ret (Some (ObjExam c)) else ret None
   }"

definition ExamList_DeepCopyObject :: "deepcopy_lib \<Rightarrow> nat option \<Rightarrow> runtime_object option go_mem" where
  "ExamList_DeepCopyObject lib p = do {
     c \<leftarrow> ExamList_DeepCopy lib p;
     if c \<noteq> None then ret (Some (ObjExamList c)) else ret None
   }"

section \<open>What the structs denote\<close>

definition val_claims :: "(cell, goSlice option, (string \<times> string) list option) denotes" where
  "val_claims H p = (if p = None then Some None else map_option Some (val_slice un_CClaims val_plain H p))"

definition val_resources :: "(cell, memResources, resourceRequirements) denotes" where
  "val_resources H x = do {
     l \<leftarrow> val_ptr un_CStringMap val_plain H (r_Limits x);
     q \<leftarrow> val_ptr un_CStringMap val_plain H (r_Requests x);
     c \<leftarrow> val_claims H (r_Claims x);
     Some \<lparr>Limits = l, Requests = q, Claims = c\<rparr>
   }"

definition val_template :: "(cell, memTemplate, examTemplate) denotes" where
  "val_template H x = do {
     r \<leftarrow> val_resources H (t_Resources x);
     Some \<lparr>Image = t_Image x, Resources = r, Port = t_Port x\<rparr>
   }"

definition val_schedule :: "(cell, memSchedule, examSchedule) denotes" where
  "val_schedule H x = do {
     t \<leftarrow> val_plain H (c_Unlock x);
     d \<leftarrow> val_ptr un_CExamDryRunSpec val_plain H (c_DryRun x);
     Some \<lparr>Unlock = t, Duration = c_Duration x, TimeMultiplier = c_TimeMultiplier x,
       ProvisionBefore = c_ProvisionBefore x, Retention = c_Retention x, DryRun = d\<rparr>
   }"

definition val_spec :: "(cell, memSpec, examSpec) denotes" where
  "val_spec H x = do {
     t \<leftarrow> val_template H (p_Template x);
     c \<leftarrow> val_schedule H (p_Schedule x);
     ss \<leftarrow> val_slice un_CExamStudents val_plain H (p_Students x);
     Some \<lparr>Template = t, Schedule = c, Students = ss, SpecEmail = p_Email x, Spares = p_Spares x\<rparr>
   }"

abbreviation val_time :: "(cell, nat option, time option) denotes" where
  "val_time \<equiv> val_ptr un_CTime val_plain"

definition val_dry_run_status :: "(cell, memDryRunStatus, dryRunStatus) denotes" where
  "val_dry_run_status H x = do {
     t \<leftarrow> val_time H (d_CompletedAt x);
     fs \<leftarrow> val_slice un_CFailures val_plain H (d_Failures x);
     Some \<lparr>CompletedAt = t, Passed = d_Passed x, Failed = d_Failed x, Failures = fs\<rparr>
   }"

definition val_student_status :: "(cell, memStudentStatus, studentStatus) denotes" where
  "val_student_status H x = do {
     t \<leftarrow> val_time H (u_EmailSentAt x);
     Some \<lparr>ID = u_ID x, Slug = u_Slug x, URL = u_URL x, Phase = u_Phase x,
       EmailStatus = u_EmailStatus x, EmailSentAt = t\<rparr>
   }"

definition val_status :: "(cell, memStatus, examStatus) denotes" where
  "val_status H x = do {
     entry \<leftarrow> val_time H (s_PhaseEntryTime x);
     cs \<leftarrow> val_slice un_CConditions val_plain H (s_Conditions x);
     lock \<leftarrow> val_time H (s_ComputedLockTime x);
     prov \<leftarrow> val_time H (s_ProvisionTime x);
     email \<leftarrow> val_time H (s_EmailTime x);
     ret_d \<leftarrow> val_time H (s_RetentionDeadline x);
     dry \<leftarrow> val_ptr un_CDryRunStatus val_dry_run_status H (s_DryRun x);
     students \<leftarrow> val_slice un_CStudentStatuses val_student_status H (s_Students x);
     spares \<leftarrow> val_slice un_CSpareStatuses val_plain H (s_Spares x);
     metrics \<leftarrow> val_ptr un_CMetricsSummary val_plain H (s_Metrics x);
     Some \<lparr>ExPhase = s_Phase x, PhaseEntryTime = entry, ExMessage = s_Message x, Conditions = cs,
       ComputedLockTime = lock, ProvisionTime = prov, EmailTime = email, RetentionDeadline = ret_d,
       ExDryRun = dry, StatusStudents = students, StatusSpares = spares, ExMetrics = metrics\<rparr>
   }"

record objectMeta =
  MetaName :: string
  MetaNamespace :: string
  MetaGeneration :: int64
  MetaDeletion :: "time option"
  MetaFinalizers :: "string list"

definition val_object_meta :: "(cell, memObjectMeta, objectMeta) denotes" where
  "val_object_meta H x = do {
     d \<leftarrow> val_time H (m_DeletionTimestamp x);
     fs \<leftarrow> val_slice un_CStrings val_plain H (m_Finalizers x);
     Some \<lparr>MetaName = m_Name x, MetaNamespace = m_Namespace x, MetaGeneration = m_Generation x,
       MetaDeletion = d, MetaFinalizers = fs\<rparr>
   }"

definition val_list_meta :: "(cell, memListMeta, string \<times> int64 option) denotes" where
  "val_list_meta H x = do {
     n \<leftarrow> val_ptr un_CInt64 val_plain H (l_RemainingItemCount x);
     Some (l_ResourceVersion x, n)
   }"

definition val_exam :: "(cell, memExam, typeMeta \<times> exam) denotes" where
  "val_exam H x = do {
     m \<leftarrow> val_object_meta H (e_ObjectMeta x);
     s \<leftarrow> val_spec H (e_Spec x);
     st \<leftarrow> val_status H (e_Status x);
     Some (e_TypeMeta x, \<lparr>Name = MetaName m, Namespace = MetaNamespace m, Generation = MetaGeneration m,
       DeletionTimestamp = MetaDeletion m, Finalizers = MetaFinalizers m, Spec = s, ExStatus = st\<rparr>)
   }"

definition val_exam_list ::
    "(cell, memExamList, typeMeta \<times> (string \<times> int64 option) \<times> (typeMeta \<times> exam) list) denotes" where
  "val_exam_list H x = do {
     m \<leftarrow> val_list_meta H (x_ListMeta x);
     es \<leftarrow> val_slice un_CExams val_exam H (x_Items x);
     Some (x_TypeMeta x, m, es)
   }"

text \<open>The contract of the other packages' copies.\<close>

definition deep_copies :: "deepcopy_lib \<Rightarrow> bool" where
  "deep_copies lib \<longleftrightarrow>
     copies val_time (Time_DeepCopy lib) \<and> copies val_plain (Time_DeepCopyInto lib) \<and>
     copies val_plain (Condition_DeepCopyInto lib) \<and> copies val_resources (ResourceRequirements_DeepCopyInto lib) \<and>
     copies val_object_meta (ObjectMeta_DeepCopyInto lib) \<and> copies val_list_meta (ListMeta_DeepCopyInto lib)"

section \<open>Every generated copy copies\<close>


lemma readable_bind:
  assumes "readable val" "\<And>v. readable (\<lambda>H x. k v H x)"
  shows "readable (\<lambda>H x. val H (f x) \<bind> (\<lambda>v. k v H x))"
proof (rule readableI)
  fix H x v H'
  assume *: "val H (f x) \<bind> (\<lambda>v. k v H x) = Some v" "laid H 0 H'"
  then obtain w where w: "val H (f x) = Some w" "k w H x = Some v" by (auto simp: bind_eq_Some_conv)
  have "val H' (f x) = Some w" "k w H' x = Some v"
    by (rule readableD [OF assms(1) w(1) *(2)], rule readableD [OF assms(2) w(2) *(2)])
  then show "val H' (f x) \<bind> (\<lambda>v. k v H' x) = Some v" by simp
qed

lemma readable_const: "readable (\<lambda>H x. Some (g x))"
  by (simp add: readable_def)

lemma readable_claims [readable_intros]: "readable val_claims"
proof (rule readableI)
  fix H p v H'
  assume *: "val_claims H p = Some v" "laid H 0 H'"
  with readableD [OF readable_slice [OF readable_plain] _ *(2)] show "val_claims H' p = Some v"
    by (auto simp: val_claims_def split: if_splits)
qed

lemmas readable_fields = readable_const readable_plain readable_ptr readable_slice
  readable_bind [OF readable_plain] readable_bind [OF readable_ptr] readable_bind [OF readable_slice]
  readable_bind [OF readable_claims]

lemma readable_structs [readable_intros]:
  "readable val_resources" "readable val_schedule" "readable val_dry_run_status" "readable val_student_status"
  "readable val_object_meta" "readable val_list_meta"
  unfolding val_resources_def val_schedule_def val_dry_run_status_def val_student_status_def
    val_object_meta_def val_list_meta_def
  by (intro readable_fields)+

lemma readable_template [readable_intros]: "readable val_template"
  unfolding val_template_def by (intro readable_fields readable_bind [OF readable_structs(1)])

lemma readable_spec [readable_intros]: "readable val_spec"
  unfolding val_spec_def
  by (intro readable_fields readable_bind [OF readable_template] readable_bind [OF readable_structs(2)])

lemma readable_status [readable_intros]: "readable val_status"
  unfolding val_status_def by (intro readable_fields readable_structs)

lemma readable_exam [readable_intros]: "readable val_exam"
  unfolding val_exam_def
  by (intro readable_fields readable_bind [OF readable_spec] readable_bind [OF readable_status]
      readable_bind [OF readable_structs(5)])

lemma readable_exam_list [readable_intros]: "readable val_exam_list"
  unfolding val_exam_list_def by (intro readable_fields readable_exam readable_bind [OF readable_structs(6)])

lemma deep_copiesD:
  assumes "deep_copies lib"
  shows "copies val_time (Time_DeepCopy lib)" "copies val_plain (Time_DeepCopyInto lib)"
    "copies val_plain (Condition_DeepCopyInto lib)" "copies val_resources (ResourceRequirements_DeepCopyInto lib)"
    "copies val_object_meta (ObjectMeta_DeepCopyInto lib)" "copies val_list_meta (ListMeta_DeepCopyInto lib)"
  using assms by (simp_all add: deep_copies_def)

lemma copies_time [copies_intros]: "deep_copies lib \<Longrightarrow> copies val_time (copy_time lib)"
proof (rule copiesI)
  fix H p v
  assume "deep_copies lib" "val_time H p = Some v"
  with copiesD [OF deep_copiesD(1)] show
    "runs H (copy_time lib p) (\<lambda>es q. \<forall>H'. laid es (length H) H' \<longrightarrow> val_time H' q = Some v)"
    by (cases p) (auto simp: copy_time_def val_ptr_def intro!: runs_ret)
qed

text \<open>Elements are copied as values, so an array of plain structs is copied by \<open>ret\<close> or by their own copies.\<close>

lemma val_each_plain [simp]: "val_each val_plain H xs = Some xs"
  by (induction xs) (simp_all add: val_plain_def)

lemma copies_plain_fields [copies_intros]:
  "copies (val_slice un_CFailures val_plain) (copy_slice CFailures un_CFailures ret)"
  "copies (val_slice un_CExamStudents val_plain) (copy_slice CExamStudents un_CExamStudents ret)"
  "copies (val_slice un_CSpareStatuses val_plain) (copy_slice CSpareStatuses un_CSpareStatuses ret)"
  "copies (val_ptr un_CExamDryRunSpec val_plain) (copy_ptr CExamDryRunSpec un_CExamDryRunSpec ret)"
  "copies (val_ptr un_CMetricsSummary val_plain) (copy_ptr CMetricsSummary un_CMetricsSummary ret)"
  by (intro copies_ptr copies_slice copies_plain readable_plain un_cell)+

lemma copies_dry_run_status [copies_intros]:
  assumes "deep_copies lib"
  shows "copies val_dry_run_status (DryRunStatus_DeepCopyInto lib)"
proof (rule copiesI)
  fix H x v
  assume "val_dry_run_status H x = Some v"
  then obtain t fs where f:
      "val_time H (d_CompletedAt x) = Some t"
      "val_slice un_CFailures val_plain H (d_Failures x) = Some fs"
    and v: "v = \<lparr>CompletedAt = t, Passed = d_Passed x, Failed = d_Failed x, Failures = fs\<rparr>"
    by (auto simp: val_dry_run_status_def bind_eq_Some_conv)
  note steps = runs_field [OF copies_time [OF assms] readable_ptr [OF readable_plain] f(1)]
    runs_field [OF copies_plain_fields(1) readable_slice [OF readable_plain] f(2)]
  show "runs H (DryRunStatus_DeepCopyInto lib x) (\<lambda>es q. \<forall>H'. laid es (length H) H' \<longrightarrow> val_dry_run_status H' q = Some v)"
    unfolding DryRunStatus_DeepCopyInto_def
    by (intro steps runs_ret) (simp_all add: val_dry_run_status_def v add.commute add.left_commute)
qed

lemma copies_student_status [copies_intros]:
  assumes "deep_copies lib"
  shows "copies val_student_status (StudentStatus_DeepCopyInto lib)"
proof (rule copiesI)
  fix H x v
  assume "val_student_status H x = Some v"
  then obtain t where f:
      "val_time H (u_EmailSentAt x) = Some t"
    and v: "v = \<lparr>ID = u_ID x, Slug = u_Slug x, URL = u_URL x, Phase = u_Phase x,
       EmailStatus = u_EmailStatus x, EmailSentAt = t\<rparr>"
    by (auto simp: val_student_status_def bind_eq_Some_conv)
  note steps = runs_field [OF copies_time [OF assms] readable_ptr [OF readable_plain] f(1)]
  show "runs H (StudentStatus_DeepCopyInto lib x) (\<lambda>es q. \<forall>H'. laid es (length H) H' \<longrightarrow> val_student_status H' q = Some v)"
    unfolding StudentStatus_DeepCopyInto_def
    by (intro steps runs_ret) (simp_all add: val_student_status_def v add.commute add.left_commute)
qed

lemma copies_template [copies_intros]:
  assumes "deep_copies lib"
  shows "copies val_template (ExamTemplate_DeepCopyInto lib)"
proof (rule copiesI)
  fix H x v
  assume "val_template H x = Some v"
  then obtain q where f:
      "val_resources H (t_Resources x) = Some q"
    and v: "v = \<lparr>Image = t_Image x, Resources = q, Port = t_Port x\<rparr>"
    by (auto simp: val_template_def bind_eq_Some_conv)
  note steps = runs_field [OF deep_copiesD(4) [OF assms] readable_structs(1) f(1)]
  show "runs H (ExamTemplate_DeepCopyInto lib x) (\<lambda>es q. \<forall>H'. laid es (length H) H' \<longrightarrow> val_template H' q = Some v)"
    unfolding ExamTemplate_DeepCopyInto_def
    by (intro steps runs_ret) (simp_all add: val_template_def v add.commute add.left_commute)
qed

lemma copies_schedule [copies_intros]:
  assumes "deep_copies lib"
  shows "copies val_schedule (ExamSchedule_DeepCopyInto lib)"
proof (rule copiesI)
  fix H x v
  assume "val_schedule H x = Some v"
  then obtain t d where f:
      "val_plain H (c_Unlock x) = Some t"
      "val_ptr un_CExamDryRunSpec val_plain H (c_DryRun x) = Some d"
    and v: "v = \<lparr>Unlock = t, Duration = c_Duration x, TimeMultiplier = c_TimeMultiplier x,
       ProvisionBefore = c_ProvisionBefore x, Retention = c_Retention x, DryRun = d\<rparr>"
    by (auto simp: val_schedule_def bind_eq_Some_conv)
  note steps = runs_field [OF deep_copiesD(2) [OF assms] readable_plain f(1)]
    runs_field [OF copies_plain_fields(4) readable_ptr [OF readable_plain] f(2)]
  show "runs H (ExamSchedule_DeepCopyInto lib x) (\<lambda>es q. \<forall>H'. laid es (length H) H' \<longrightarrow> val_schedule H' q = Some v)"
    unfolding ExamSchedule_DeepCopyInto_def
    by (intro steps runs_ret) (simp_all add: val_schedule_def v add.commute add.left_commute)
qed

lemma copies_spec [copies_intros]:
  assumes "deep_copies lib"
  shows "copies val_spec (ExamSpec_DeepCopyInto lib)"
proof (rule copiesI)
  fix H x v
  assume "val_spec H x = Some v"
  then obtain t c ss where f:
      "val_template H (p_Template x) = Some t"
      "val_schedule H (p_Schedule x) = Some c"
      "val_slice un_CExamStudents val_plain H (p_Students x) = Some ss"
    and v: "v = \<lparr>Template = t, Schedule = c, Students = ss, SpecEmail = p_Email x, Spares = p_Spares x\<rparr>"
    by (auto simp: val_spec_def bind_eq_Some_conv)
  note steps = runs_field [OF copies_template [OF assms] readable_template f(1)]
    runs_field [OF copies_schedule [OF assms] readable_structs(2) f(2)]
    runs_field [OF copies_plain_fields(2) readable_slice [OF readable_plain] f(3)]
  show "runs H (ExamSpec_DeepCopyInto lib x) (\<lambda>es q. \<forall>H'. laid es (length H) H' \<longrightarrow> val_spec H' q = Some v)"
    unfolding ExamSpec_DeepCopyInto_def
    by (intro steps runs_ret) (simp_all add: val_spec_def v add.commute add.left_commute)
qed

lemma copies_lib_fields [copies_intros]:
  assumes "deep_copies lib"
  shows "copies (val_slice un_CConditions val_plain) (copy_slice CConditions un_CConditions (Condition_DeepCopyInto lib))"
    "copies (val_ptr un_CDryRunStatus val_dry_run_status) (copy_ptr CDryRunStatus un_CDryRunStatus (DryRunStatus_DeepCopyInto lib))"
    "copies (val_slice un_CStudentStatuses val_student_status)
       (copy_slice CStudentStatuses un_CStudentStatuses (StudentStatus_DeepCopyInto lib))"
  by (intro copies_ptr copies_slice copies_dry_run_status copies_student_status assms deep_copiesD(3) readable_plain
      readable_structs un_cell)+

lemma copies_status [copies_intros]:
  assumes "deep_copies lib"
  shows "copies val_status (ExamStatus_DeepCopyInto lib)"
proof (rule copiesI)
  fix H x v
  assume "val_status H x = Some v"
  then obtain t1 cs t2 t3 t4 t5 dr ss sp ms where f:
      "val_time H (s_PhaseEntryTime x) = Some t1"
      "val_slice un_CConditions val_plain H (s_Conditions x) = Some cs"
      "val_time H (s_ComputedLockTime x) = Some t2"
      "val_time H (s_ProvisionTime x) = Some t3"
      "val_time H (s_EmailTime x) = Some t4"
      "val_time H (s_RetentionDeadline x) = Some t5"
      "val_ptr un_CDryRunStatus val_dry_run_status H (s_DryRun x) = Some dr"
      "val_slice un_CStudentStatuses val_student_status H (s_Students x) = Some ss"
      "val_slice un_CSpareStatuses val_plain H (s_Spares x) = Some sp"
      "val_ptr un_CMetricsSummary val_plain H (s_Metrics x) = Some ms"
    and v: "v = \<lparr>ExPhase = s_Phase x, PhaseEntryTime = t1, ExMessage = s_Message x, Conditions = cs,
       ComputedLockTime = t2, ProvisionTime = t3, EmailTime = t4, RetentionDeadline = t5,
       ExDryRun = dr, StatusStudents = ss, StatusSpares = sp, ExMetrics = ms\<rparr>"
    by (auto simp: val_status_def bind_eq_Some_conv)
  note steps = runs_field [OF copies_time [OF assms] readable_ptr [OF readable_plain] f(1)]
    runs_field [OF copies_lib_fields(1) [OF assms] readable_slice [OF readable_plain] f(2)]
    runs_field [OF copies_time [OF assms] readable_ptr [OF readable_plain] f(3)]
    runs_field [OF copies_time [OF assms] readable_ptr [OF readable_plain] f(4)]
    runs_field [OF copies_time [OF assms] readable_ptr [OF readable_plain] f(5)]
    runs_field [OF copies_time [OF assms] readable_ptr [OF readable_plain] f(6)]
    runs_field [OF copies_lib_fields(2) [OF assms] readable_ptr [OF readable_structs(3)] f(7)]
    runs_field [OF copies_lib_fields(3) [OF assms] readable_slice [OF readable_structs(4)] f(8)]
    runs_field [OF copies_plain_fields(3) readable_slice [OF readable_plain] f(9)]
    runs_field [OF copies_plain_fields(5) readable_ptr [OF readable_plain] f(10)]
  show "runs H (ExamStatus_DeepCopyInto lib x) (\<lambda>es q. \<forall>H'. laid es (length H) H' \<longrightarrow> val_status H' q = Some v)"
    unfolding ExamStatus_DeepCopyInto_def
    by (intro steps runs_ret) (simp_all add: val_status_def v add.commute add.left_commute)
qed

lemma copies_exam [copies_intros]:
  assumes "deep_copies lib"
  shows "copies val_exam (Exam_DeepCopyInto lib)"
proof (rule copiesI)
  fix H x v
  assume "val_exam H x = Some v"
  then obtain m s st where f:
      "val_object_meta H (e_ObjectMeta x) = Some m"
      "val_spec H (e_Spec x) = Some s"
      "val_status H (e_Status x) = Some st"
    and v: "v = (e_TypeMeta x, \<lparr>Name = MetaName m, Namespace = MetaNamespace m, Generation = MetaGeneration m,
       DeletionTimestamp = MetaDeletion m, Finalizers = MetaFinalizers m, Spec = s, ExStatus = st\<rparr>)"
    by (auto simp: val_exam_def bind_eq_Some_conv)
  note steps = runs_field [OF deep_copiesD(5) [OF assms] readable_structs(5) f(1)]
    runs_field [OF copies_spec [OF assms] readable_spec f(2)]
    runs_field [OF copies_status [OF assms] readable_status f(3)]
  show "runs H (Exam_DeepCopyInto lib x) (\<lambda>es q. \<forall>H'. laid es (length H) H' \<longrightarrow> val_exam H' q = Some v)"
    unfolding Exam_DeepCopyInto_def
    by (intro steps runs_ret) (simp_all add: val_exam_def v add.commute add.left_commute)
qed

lemma copies_exams [copies_intros]:
  "deep_copies lib \<Longrightarrow> copies (val_slice un_CExams val_exam) (copy_slice CExams un_CExams (Exam_DeepCopyInto lib))"
  by (intro copies_slice copies_exam readable_exam un_cell)

lemma copies_exam_list [copies_intros]:
  assumes "deep_copies lib"
  shows "copies val_exam_list (ExamList_DeepCopyInto lib)"
proof (rule copiesI)
  fix H x v
  assume "val_exam_list H x = Some v"
  then obtain m xs where f:
      "val_list_meta H (x_ListMeta x) = Some m"
      "val_slice un_CExams val_exam H (x_Items x) = Some xs"
    and v: "v = (x_TypeMeta x, m, xs)"
    by (auto simp: val_exam_list_def bind_eq_Some_conv)
  note steps = runs_field [OF deep_copiesD(6) [OF assms] readable_structs(6) f(1)]
    runs_field [OF copies_exams [OF assms] readable_slice [OF readable_exam] f(2)]
  show "runs H (ExamList_DeepCopyInto lib x) (\<lambda>es q. \<forall>H'. laid es (length H) H' \<longrightarrow> val_exam_list H' q = Some v)"
    unfolding ExamList_DeepCopyInto_def
    by (intro steps runs_ret) (simp_all add: val_exam_list_def v add.commute add.left_commute)
qed

section \<open>Independence\<close>

text \<open>
  C31: a deep copy of an exam, or of a list of exams, is a copy: it denotes the same value as the
  original and shares nothing with it that could be written. Whatever is written afterwards to
  the memory the copy allocated, the original keeps its value, and whatever is written to all
  other memory, the copy keeps it. A nil pointer gives a nil object, not an object that holds
  a nil pointer.
\<close>
theorem deep_copy_independent:
  assumes "deep_copies lib" "val_cell un_CExam val_exam H a = Some e"
    "val_cell un_CExamList val_exam_list H a' = Some l"
  shows "(\<exists>b H'. run_state (Exam_DeepCopyObject lib (Some a)) H = (Some (ObjExam (Some b)), H') \<and>
      independent_copy (val_cell un_CExam val_exam) a H e b H') \<and>
    (\<exists>b H'. run_state (ExamList_DeepCopyObject lib (Some a')) H = (Some (ObjExamList (Some b)), H') \<and>
      independent_copy (val_cell un_CExamList val_exam_list) a' H l b H') \<and>
    run_state (Exam_DeepCopyObject lib None) H = (None, H) \<and>
    run_state (ExamList_DeepCopyObject lib None) H = (None, H)"
proof -
  have "\<exists>b H'. run_state (Exam_DeepCopy lib (Some a)) H = (Some b, H') \<and>
      independent_copy (val_cell un_CExam val_exam) a H e b H'"
    unfolding Exam_DeepCopy_def
    by (rule independent_copyI [OF copies_exam [OF assms(1)] readable_exam _ assms(2)]) simp
  moreover have "\<exists>b H'. run_state (ExamList_DeepCopy lib (Some a')) H = (Some b, H') \<and>
      independent_copy (val_cell un_CExamList val_exam_list) a' H l b H'"
    unfolding ExamList_DeepCopy_def
    by (rule independent_copyI [OF copies_exam_list [OF assms(1)] readable_exam_list _ assms(3)]) simp
  moreover have "run_state (Exam_DeepCopyObject lib None) H = (None, H)"
    "run_state (ExamList_DeepCopyObject lib None) H = (None, H)"
    by (simp_all add: Exam_DeepCopyObject_def Exam_DeepCopy_def ExamList_DeepCopyObject_def ExamList_DeepCopy_def
        copy_ptr_def)
  ultimately show ?thesis
    by (auto simp: Exam_DeepCopyObject_def ExamList_DeepCopyObject_def)
qed

text \<open>A concrete instance of the other packages' copies, and a memory with an exam in it.\<close>

definition sample_lib :: deepcopy_lib where
  "sample_lib =
     \<lparr>Time_DeepCopy = copy_ptr CTime un_CTime ret, Time_DeepCopyInto = ret, Condition_DeepCopyInto = ret,
      ResourceRequirements_DeepCopyInto = (\<lambda>x. do {
        l \<leftarrow> copy_ptr CStringMap un_CStringMap ret (r_Limits x);
        q \<leftarrow> copy_ptr CStringMap un_CStringMap ret (r_Requests x);
        c \<leftarrow> copy_slice CClaims un_CClaims ret (r_Claims x);
        ret \<lparr>r_Limits = l, r_Requests = q, r_Claims = c\<rparr>
      }),
      ObjectMeta_DeepCopyInto = (\<lambda>x. do {
        d \<leftarrow> copy_ptr CTime un_CTime ret (m_DeletionTimestamp x);
        fs \<leftarrow> copy_slice CStrings un_CStrings ret (m_Finalizers x);
        ret (x\<lparr>m_DeletionTimestamp := d, m_Finalizers := fs\<rparr>)
      }),
      ListMeta_DeepCopyInto = (\<lambda>x. do {
        n \<leftarrow> copy_ptr CInt64 un_CInt64 ret (l_RemainingItemCount x);
        ret (x\<lparr>l_RemainingItemCount := n\<rparr>)
      })\<rparr>"

lemma copies_sample_fields:
  "copies val_time (copy_ptr CTime un_CTime ret)"
  "copies (val_ptr un_CInt64 val_plain) (copy_ptr CInt64 un_CInt64 ret)"
  "copies (val_ptr un_CStringMap val_plain) (copy_ptr CStringMap un_CStringMap ret)"
  "copies (val_slice un_CStrings val_plain) (copy_slice CStrings un_CStrings ret)"
  "copies (val_slice un_CClaims val_plain) (copy_slice CClaims un_CClaims ret)"
  by (intro copies_ptr copies_slice copies_plain readable_plain un_cell)+

lemma copies_claims: "copies val_claims (copy_slice CClaims un_CClaims ret)"
proof (rule copiesI)
  fix H p v
  assume v: "val_claims H p = Some v"
  show "runs H (copy_slice CClaims un_CClaims ret p) (\<lambda>es q. \<forall>H'. laid es (length H) H' \<longrightarrow> val_claims H' q = Some v)"
  proof (cases p)
    case None
    with v show ?thesis by (auto simp: copy_slice_def val_claims_def intro!: runs_ret)
  next
    case (Some s)
    with v obtain w where w: "val_slice un_CClaims val_plain H p = Some w" "v = Some w"
      by (auto simp: val_claims_def)
    have "fst (run_state (copy_slice CClaims un_CClaims ret p) H) \<noteq> None"
      by (simp add: Some copy_slice_def split: prod.splits)
    with copiesD [OF copies_sample_fields(5) w(1)] w(2) show ?thesis
      by (auto simp: runs_def val_claims_def)
  qed
qed

lemma copies_sample_resources: "copies val_resources (ResourceRequirements_DeepCopyInto sample_lib)"
proof (rule copiesI)
  fix H x v
  assume "val_resources H x = Some v"
  then obtain l q c where f: "val_ptr un_CStringMap val_plain H (r_Limits x) = Some l"
      "val_ptr un_CStringMap val_plain H (r_Requests x) = Some q" "val_claims H (r_Claims x) = Some c"
    and v: "v = \<lparr>Limits = l, Requests = q, Claims = c\<rparr>"
    by (auto simp: val_resources_def bind_eq_Some_conv)
  note steps = runs_field [OF copies_sample_fields(3) readable_ptr [OF readable_plain] f(1)]
    runs_field [OF copies_sample_fields(3) readable_ptr [OF readable_plain] f(2)]
    runs_field [OF copies_claims readable_claims f(3)]
  show "runs H (ResourceRequirements_DeepCopyInto sample_lib x)
      (\<lambda>es q. \<forall>H'. laid es (length H) H' \<longrightarrow> val_resources H' q = Some v)"
    unfolding sample_lib_def deepcopy_lib.select_convs
    by (intro steps runs_ret) (simp_all add: val_resources_def v add.commute add.left_commute)
qed

lemma copies_sample_object_meta: "copies val_object_meta (ObjectMeta_DeepCopyInto sample_lib)"
proof (rule copiesI)
  fix H x v
  assume "val_object_meta H x = Some v"
  then obtain d fs where f: "val_time H (m_DeletionTimestamp x) = Some d"
      "val_slice un_CStrings val_plain H (m_Finalizers x) = Some fs"
    and v: "v = \<lparr>MetaName = m_Name x, MetaNamespace = m_Namespace x, MetaGeneration = m_Generation x,
      MetaDeletion = d, MetaFinalizers = fs\<rparr>"
    by (auto simp: val_object_meta_def bind_eq_Some_conv)
  note steps = runs_field [OF copies_sample_fields(1) readable_ptr [OF readable_plain] f(1)]
    runs_field [OF copies_sample_fields(4) readable_slice [OF readable_plain] f(2)]
  show "runs H (ObjectMeta_DeepCopyInto sample_lib x)
      (\<lambda>es q. \<forall>H'. laid es (length H) H' \<longrightarrow> val_object_meta H' q = Some v)"
    unfolding sample_lib_def deepcopy_lib.select_convs
    by (intro steps runs_ret) (simp_all add: val_object_meta_def v add.commute)
qed

lemma copies_sample_list_meta: "copies val_list_meta (ListMeta_DeepCopyInto sample_lib)"
proof (rule copiesI)
  fix H x v
  assume "val_list_meta H x = Some v"
  then obtain n where f: "val_ptr un_CInt64 val_plain H (l_RemainingItemCount x) = Some n"
    and v: "v = (l_ResourceVersion x, n)"
    by (auto simp: val_list_meta_def bind_eq_Some_conv)
  note steps = runs_field [OF copies_sample_fields(2) readable_ptr [OF readable_plain] f]
  show "runs H (ListMeta_DeepCopyInto sample_lib x)
      (\<lambda>es q. \<forall>H'. laid es (length H) H' \<longrightarrow> val_list_meta H' q = Some v)"
    unfolding sample_lib_def deepcopy_lib.select_convs
    by (intro steps runs_ret) (simp_all add: val_list_meta_def v)
qed

lemma deep_copies_sample: "deep_copies sample_lib"
proof -
  have "copies val_time (Time_DeepCopy sample_lib)" "copies val_plain (Time_DeepCopyInto sample_lib)"
    "copies val_plain (Condition_DeepCopyInto sample_lib)"
    by (simp_all add: sample_lib_def copies_sample_fields(1) copies_plain)
  then show ?thesis
    using copies_sample_resources copies_sample_object_meta copies_sample_list_meta by (simp add: deep_copies_def)
qed

definition sample_mem_exam :: memExam where
  "sample_mem_exam =
     \<lparr>e_TypeMeta = \<lparr>TypeKind = ''Exam'', APIVersion = ''exam.otu.ca/v1alpha1''\<rparr>,
      e_ObjectMeta = \<lparr>m_Name = ''midterm'', m_Namespace = ''exam-system'', m_Generation = 1,
        m_DeletionTimestamp = None, m_Finalizers = None\<rparr>,
      e_Spec = \<lparr>p_Template = \<lparr>t_Image = ''img'', t_Resources = \<lparr>r_Limits = None, r_Requests = None, r_Claims = None\<rparr>, t_Port = 80\<rparr>,
        p_Schedule = \<lparr>c_Unlock = 0, c_Duration = Hour, c_TimeMultiplier = Fin 1, c_ProvisionBefore = 0,
          c_Retention = 0, c_DryRun = None\<rparr>,
        p_Students = None,
        p_Email = \<lparr>Before = 0, SendInterval = 0, InstructorEmail = ''i@otu.ca'', From = ''f@otu.ca'', Subject = ''s''\<rparr>,
        p_Spares = 0\<rparr>,
      e_Status = \<lparr>s_Phase = PhaseReady, s_PhaseEntryTime = None, s_Message = ''m'', s_Conditions = None,
        s_ComputedLockTime = None, s_ProvisionTime = None, s_EmailTime = None, s_RetentionDeadline = None, s_DryRun = None,
        s_Students = Some \<lparr>SliceArray = 1, SliceOffset = 0, SliceLen = 1\<rparr>, s_Spares = None, s_Metrics = None\<rparr>\<rparr>"

definition sample_memory :: "cell memory" where
  "sample_memory =
     [CExamList \<lparr>x_TypeMeta = \<lparr>TypeKind = ''ExamList'', APIVersion = ''exam.otu.ca/v1alpha1''\<rparr>,
        x_ListMeta = \<lparr>l_ResourceVersion = ''7'', l_RemainingItemCount = None\<rparr>,
        x_Items = Some \<lparr>SliceArray = 3, SliceOffset = 0, SliceLen = 1\<rparr>\<rparr>,
      CExams [sample_mem_exam], CExam sample_mem_exam,
      CStudentStatuses [\<lparr>u_ID = ''a'', u_Slug = ''aaaaaaaa'', u_URL = ''u'', u_Phase = StudentProvisioned,
        u_EmailStatus = EmailSent, u_EmailSentAt = Some 0\<rparr>],
      CTime 5]"

lemmas eval_memory = sample_memory_def sample_mem_exam_def val_cell_def val_exam_list_def val_exam_def val_status_def
  val_spec_def val_schedule_def val_template_def val_resources_def val_claims_def val_object_meta_def val_list_meta_def
  val_student_status_def val_ptr_def val_slice_def val_plain_def slice_part_def

theorem deep_copy_independent_witness:
  "\<exists>e b H'. run_state (Exam_DeepCopyObject sample_lib (Some 2)) sample_memory = (Some (ObjExam (Some b)), H') \<and>
     independent_copy (val_cell un_CExam val_exam) 2 sample_memory e b H' \<and>
     map EmailSentAt (StatusStudents (ExStatus (snd e))) = [Some 5]"
proof -
  obtain e where e: "val_cell un_CExam val_exam sample_memory 2 = Some e"
    "map EmailSentAt (StatusStudents (ExStatus (snd e))) = [Some 5]"
    by (simp add: eval_memory)
  obtain l where l: "val_cell un_CExamList val_exam_list sample_memory 4 = Some l"
    by (simp add: eval_memory)
  from deep_copy_independent [OF deep_copies_sample e(1) l] obtain b H' where
    "run_state (Exam_DeepCopyObject sample_lib (Some 2)) sample_memory = (Some (ObjExam (Some b)), H')"
    "independent_copy (val_cell un_CExam val_exam) 2 sample_memory e b H'" by blast
  with e(2) show ?thesis by (intro exI conjI)
qed

end
