(* ===== verification/Flags.thy ===== *)
theory Flags
  imports Prelude
begin

text \<open>
  The command line of \<^verbatim>\<open>cmd/main.go\<close>: the flags it declares and Go's package \<^verbatim>\<open>flag\<close>, which
  parses them, and the arguments that the Helm chart of the repository passes. Flags that
  imported packages declare on the same set (\<^verbatim>\<open>kubeconfig\<close> and the logger's) are a parameter.
\<close>

section \<open>The declared flags\<close>

record flags =
  MetricsAddr :: string
  ProbeAddr :: string
  EnableLeaderElection :: bool
  EnableWebhooks :: bool
  SecureMetrics :: bool
  WebhookCertPath :: string
  WebhookCertName :: string
  WebhookCertKey :: string
  MetricsCertPath :: string
  MetricsCertName :: string
  MetricsCertKey :: string
  BaseDomainFlag :: string
  IngressTLSSecretFlag :: string
  SMTPSecretFlag :: string
  PlatformSecretNamespace :: string
  EnableHTTP2 :: bool

definition default_flags :: flags where
  "default_flags =
     \<lparr>MetricsAddr = ''0'', ProbeAddr = '':8081'', EnableLeaderElection = False, EnableWebhooks = False,
      SecureMetrics = True, WebhookCertPath = '''', WebhookCertName = ''tls.crt'', WebhookCertKey = ''tls.key'',
      MetricsCertPath = '''', MetricsCertName = ''tls.crt'', MetricsCertKey = ''tls.key'',
      BaseDomainFlag = ''science.ontariotechu.ca'', IngressTLSSecretFlag = '''',
      SMTPSecretFlag = ''exam-smtp-credentials'', PlatformSecretNamespace = '''', EnableHTTP2 = False\<rparr>"

text \<open>A flag with its variable; of a library's flag only whether it is boolean and what it accepts.\<close>

datatype flag_var =
    StringVar "string \<Rightarrow> flags \<Rightarrow> flags"
  | BoolVar "bool \<Rightarrow> flags \<Rightarrow> flags"
  | LibVar bool "string \<Rightarrow> bool"

definition main_flags :: "(string \<times> flag_var) list" where
  "main_flags =
     [(''metrics-bind-address'', StringVar (\<lambda>v f. f\<lparr>MetricsAddr := v\<rparr>)),
      (''health-probe-bind-address'', StringVar (\<lambda>v f. f\<lparr>ProbeAddr := v\<rparr>)),
      (''leader-elect'', BoolVar (\<lambda>b f. f\<lparr>EnableLeaderElection := b\<rparr>)),
      (''enable-webhooks'', BoolVar (\<lambda>b f. f\<lparr>EnableWebhooks := b\<rparr>)),
      (''metrics-secure'', BoolVar (\<lambda>b f. f\<lparr>SecureMetrics := b\<rparr>)),
      (''webhook-cert-path'', StringVar (\<lambda>v f. f\<lparr>WebhookCertPath := v\<rparr>)),
      (''webhook-cert-name'', StringVar (\<lambda>v f. f\<lparr>WebhookCertName := v\<rparr>)),
      (''webhook-cert-key'', StringVar (\<lambda>v f. f\<lparr>WebhookCertKey := v\<rparr>)),
      (''metrics-cert-path'', StringVar (\<lambda>v f. f\<lparr>MetricsCertPath := v\<rparr>)),
      (''metrics-cert-name'', StringVar (\<lambda>v f. f\<lparr>MetricsCertName := v\<rparr>)),
      (''metrics-cert-key'', StringVar (\<lambda>v f. f\<lparr>MetricsCertKey := v\<rparr>)),
      (''base-domain'', StringVar (\<lambda>v f. f\<lparr>BaseDomainFlag := v\<rparr>)),
      (''ingress-tls-secret-name'', StringVar (\<lambda>v f. f\<lparr>IngressTLSSecretFlag := v\<rparr>)),
      (''smtp-secret-name'', StringVar (\<lambda>v f. f\<lparr>SMTPSecretFlag := v\<rparr>)),
      (''platform-secret-namespace'', StringVar (\<lambda>v f. f\<lparr>PlatformSecretNamespace := v\<rparr>)),
      (''enable-http2'', BoolVar (\<lambda>b f. f\<lparr>EnableHTTP2 := b\<rparr>))]"

type_synonym lib_flags = "string \<Rightarrow> flag_var option"

definition lookup_flag :: "lib_flags \<Rightarrow> string \<Rightarrow> flag_var option" where
  "lookup_flag lib name = (case map_of main_flags name of Some v \<Rightarrow> Some v | None \<Rightarrow> lib name)"

section \<open>The package flag\<close>

definition ParseBool :: "string \<Rightarrow> bool option" where
  "ParseBool s =
     (if s \<in> {''1'', ''t'', ''T'', ''true'', ''TRUE'', ''True''} then Some True
      else if s \<in> {''0'', ''f'', ''F'', ''false'', ''FALSE'', ''False''} then Some False
      else None)"

fun is_bool_flag :: "flag_var \<Rightarrow> bool" where
  "is_bool_flag (StringVar g) = False"
| "is_bool_flag (BoolVar g) = True"
| "is_bool_flag (LibVar b ok) = b"

fun set_var :: "flag_var \<Rightarrow> string \<Rightarrow> flags \<Rightarrow> flags option" where
  "set_var (StringVar g) v f = Some (g v f)"
| "set_var (BoolVar g) v f = map_option (\<lambda>b. g b f) (ParseBool v)"
| "set_var (LibVar b ok) v f = (if ok v then Some f else None)"

text \<open>One argument: where the flags end, a syntax error, or a name with perhaps a value after \<open>=\<close>.\<close>

datatype flag_arg = NotFlag | Terminator | BadFlag | FlagArg string "string option"

definition split_name :: "string \<Rightarrow> string \<times> string option" where
  "split_name name =
     (case dropWhile (\<lambda>c. c \<noteq> CHR ''='') name of
        [] \<Rightarrow> (name, None)
      | _ # v \<Rightarrow> (takeWhile (\<lambda>c. c \<noteq> CHR ''='') name, Some v))"

definition read_arg :: "string \<Rightarrow> flag_arg" where
  "read_arg s =
     (case s of
        c # d # cs \<Rightarrow>
          if c \<noteq> CHR ''-'' then NotFlag
          else if d = CHR ''-'' \<and> cs = [] then Terminator
          else (let name = (if d = CHR ''-'' then cs else d # cs) in
            if name = [] \<or> hd name \<in> {CHR ''-'', CHR ''=''} then BadFlag
            else case split_name name of (n, v) \<Rightarrow> FlagArg n v)
      | _ \<Rightarrow> NotFlag)"

datatype flag_error =
    BadSyntax string
  | NotDefined string
  | NeedsArgument string
  | InvalidValue string string
  | ErrHelp

text \<open>A boolean flag never takes the next argument as its value, every other flag does.\<close>

fun Parse :: "lib_flags \<Rightarrow> string list \<Rightarrow> flags \<Rightarrow> flag_error + flags \<times> string list" where
  "Parse lib [] f = Inr (f, [])"
| "Parse lib (s # args) f =
     (case read_arg s of
        NotFlag \<Rightarrow> Inr (f, s # args)
      | Terminator \<Rightarrow> Inr (f, args)
      | BadFlag \<Rightarrow> Inl (BadSyntax s)
      | FlagArg name value \<Rightarrow>
          (case lookup_flag lib name of
             None \<Rightarrow> Inl (if name \<in> {''help'', ''h''} then ErrHelp else NotDefined name)
           | Some var \<Rightarrow>
               if is_bool_flag var
               then (let v = (case value of None \<Rightarrow> ''true'' | Some v \<Rightarrow> v) in
                 case set_var var v f of None \<Rightarrow> Inl (InvalidValue name v) | Some f1 \<Rightarrow> Parse lib args f1)
               else case value of
                 Some v \<Rightarrow> (case set_var var v f of None \<Rightarrow> Inl (InvalidValue name v) | Some f1 \<Rightarrow> Parse lib args f1)
               | None \<Rightarrow>
                   (case args of
                      [] \<Rightarrow> Inl (NeedsArgument name)
                    | v # rest \<Rightarrow>
                        (case set_var var v f of None \<Rightarrow> Inl (InvalidValue name v) | Some f1 \<Rightarrow> Parse lib rest f1))))"

text \<open>What \<^verbatim>\<open>flag.Parse\<close> does on an error of the command line's set: the exit status of the process.\<close>

definition parse_exit :: "flag_error \<Rightarrow> nat" where
  "parse_exit err = (if err = ErrHelp then 0 else 2)"

section \<open>The arguments of the Helm chart\<close>

text \<open>
  \<^verbatim>\<open>charts/exam-controller/templates/deployment.yaml\<close>, from the values to the argument list, for
  values that YAML reads as plain scalars.
\<close>

record chart_values =
  LeaderElectionEnabled :: bool
  HealthProbePort :: nat
  ChartBaseDomain :: string
  ChartTLSSecret :: string
  ChartSMTPSecret :: string
  ChartSecretNamespace :: string
  MetricsEnabled :: bool
  MetricsPort :: nat
  MetricsSecure :: bool
  WebhookEnabled :: bool
  WebhookCertDir :: string
  ChartCertName :: string
  ChartKeyName :: string

text \<open>The values the chart comes with, \<^verbatim>\<open>values.yaml\<close>.\<close>

definition chart_defaults :: chart_values where
  "chart_defaults =
     \<lparr>LeaderElectionEnabled = True, HealthProbePort = 8081, ChartBaseDomain = ''science.ontariotechu.ca'',
      ChartTLSSecret = '''', ChartSMTPSecret = ''exam-smtp-credentials'', ChartSecretNamespace = '''',
      MetricsEnabled = True, MetricsPort = 8443, MetricsSecure = True, WebhookEnabled = False,
      WebhookCertDir = '''', ChartCertName = ''tls.crt'', ChartKeyName = ''tls.key''\<rparr>"

definition chart_args :: "chart_values \<Rightarrow> string list" where
  "chart_args v =
     (if LeaderElectionEnabled v then [''--leader-elect''] else []) @
     [''--health-probe-bind-address=:'' @ dec_nat (HealthProbePort v), ''--base-domain='' @ ChartBaseDomain v] @
     (if ChartTLSSecret v \<noteq> '''' then [''--ingress-tls-secret-name='' @ ChartTLSSecret v] else []) @
     [''--smtp-secret-name='' @ ChartSMTPSecret v] @
     (if ChartSecretNamespace v \<noteq> '''' then [''--platform-secret-namespace='' @ ChartSecretNamespace v] else []) @
     (if MetricsEnabled v
      then [''--metrics-bind-address=:'' @ dec_nat (MetricsPort v),
            ''--metrics-secure='' @ (if MetricsSecure v then ''true'' else ''false'')]
      else []) @
     (if WebhookEnabled v
      then [''--enable-webhooks''] @
        (if WebhookCertDir v \<noteq> '''' then [''--webhook-cert-path='' @ WebhookCertDir v] else []) @
        [''--webhook-cert-name='' @ ChartCertName v, ''--webhook-key-name='' @ ChartKeyName v]
      else [])"

section \<open>Parsing a printed flag\<close>

lemma split_name_printed:
  assumes "CHR ''='' \<notin> set n"
  shows "split_name (n @ CHR ''='' # v) = (n, Some v)" "split_name n = (n, None)"
proof -
  have n: "c \<noteq> CHR ''=''" if "c \<in> set n" for c using assms that by blast
  have end_of: "dropWhile (\<lambda>c. c \<noteq> CHR ''='') n = []" using n by (simp add: dropWhile_eq_Nil_conv)
  show "split_name n = (n, None)" unfolding split_name_def end_of by simp
  show "split_name (n @ CHR ''='' # v) = (n, Some v)"
    using n by (simp add: split_name_def dropWhile_append2 takeWhile_append2)
qed

lemma read_flag:
  assumes "CHR ''='' \<notin> set n" "n \<noteq> []" "hd n \<noteq> CHR ''-''"
  shows "read_arg (''--'' @ n @ CHR ''='' # v) = FlagArg n (Some v)" "read_arg (''--'' @ n) = FlagArg n None"
proof -
  have "hd n \<noteq> CHR ''=''" using assms(1,2) by (cases n) auto
  with assms show "read_arg (''--'' @ n @ CHR ''='' # v) = FlagArg n (Some v)" "read_arg (''--'' @ n) = FlagArg n None"
    by (simp_all add: read_arg_def split_name_printed Let_def)
qed

definition printed :: "string \<Rightarrow> string \<Rightarrow> string" where
  "printed n v = ''--'' @ n @ CHR ''='' # v"

lemma Parse_printed:
  assumes "CHR ''='' \<notin> set n" "n \<noteq> []" "hd n \<noteq> CHR ''-''" "lookup_flag lib n = Some var" "set_var var v f = Some f1"
  shows "Parse lib (printed n v # args) f = Parse lib args f1"
  using read_flag(1) [OF assms(1-3), of v] assms(4,5) by (simp add: printed_def)

definition flag_bool :: "bool \<Rightarrow> string" where
  "flag_bool b = (if b then ''true'' else ''false'')"

lemma ParseBool_flag_bool [simp]: "ParseBool (flag_bool b) = Some b"
  by (simp add: flag_bool_def ParseBool_def)

definition print_flags :: "flags \<Rightarrow> string list" where
  "print_flags f =
     [printed ''metrics-bind-address'' (MetricsAddr f),
      printed ''health-probe-bind-address'' (ProbeAddr f),
      printed ''leader-elect'' (flag_bool (EnableLeaderElection f)),
      printed ''enable-webhooks'' (flag_bool (EnableWebhooks f)),
      printed ''metrics-secure'' (flag_bool (SecureMetrics f)),
      printed ''webhook-cert-path'' (WebhookCertPath f),
      printed ''webhook-cert-name'' (WebhookCertName f),
      printed ''webhook-cert-key'' (WebhookCertKey f),
      printed ''metrics-cert-path'' (MetricsCertPath f),
      printed ''metrics-cert-name'' (MetricsCertName f),
      printed ''metrics-cert-key'' (MetricsCertKey f),
      printed ''base-domain'' (BaseDomainFlag f),
      printed ''ingress-tls-secret-name'' (IngressTLSSecretFlag f),
      printed ''smtp-secret-name'' (SMTPSecretFlag f),
      printed ''platform-secret-namespace'' (PlatformSecretNamespace f),
      printed ''enable-http2'' (flag_bool (EnableHTTP2 f))]"

text \<open>
  C35: every configuration can be given on the command line: the flags printed as
  \<^verbatim>\<open>--name=value\<close> are read back whatever the values are, blanks, dashes and equality signs
  included, and override whatever was set before.
\<close>
theorem flags_roundtrip: "Parse lib (print_flags f) g = Inr (f, [])"
  unfolding print_flags_def
  by (simp add: Parse_printed lookup_flag_def main_flags_def del: Parse.simps(2))


section \<open>Parsing the chart's arguments\<close>

text \<open>The flags that client-go and the logger declare, as documented.\<close>

definition library_flags :: "lib_flags \<Rightarrow> bool" where
  "library_flags lib \<longleftrightarrow> (\<forall>n. lib n \<noteq> None \<longrightarrow> n = ''kubeconfig'' \<or> take 4 n = ''zap-'')"

definition bare :: "string \<Rightarrow> string" where
  "bare n = ''--'' @ n"

lemma Parse_bare:
  assumes "CHR ''='' \<notin> set n" "n \<noteq> []" "hd n \<noteq> CHR ''-''" "lookup_flag lib n = Some (BoolVar g)"
  shows "Parse lib (bare n # args) f = Parse lib args (g True f)"
  using read_flag(2) [OF assms(1-3)] assms(4) by (simp add: ParseBool_def bare_def)

lemma Parse_undefined:
  assumes "CHR ''='' \<notin> set n" "n \<noteq> []" "hd n \<noteq> CHR ''-''" "lookup_flag lib n = None" "n \<notin> {''help'', ''h''}"
  shows "Parse lib (printed n v # args) f = Inl (NotDefined n)"
  using read_flag(1) [OF assms(1-3), of v] assms(4,5) by (simp add: printed_def)

lemma chart_args_printed:
  "chart_args v =
     (if LeaderElectionEnabled v then [bare ''leader-elect''] else []) @
     [printed ''health-probe-bind-address'' ('':'' @ dec_nat (HealthProbePort v)), printed ''base-domain'' (ChartBaseDomain v)] @
     (if ChartTLSSecret v \<noteq> '''' then [printed ''ingress-tls-secret-name'' (ChartTLSSecret v)] else []) @
     [printed ''smtp-secret-name'' (ChartSMTPSecret v)] @
     (if ChartSecretNamespace v \<noteq> '''' then [printed ''platform-secret-namespace'' (ChartSecretNamespace v)] else []) @
     (if MetricsEnabled v
      then [printed ''metrics-bind-address'' ('':'' @ dec_nat (MetricsPort v)), printed ''metrics-secure'' (flag_bool (MetricsSecure v))]
      else []) @
     (if WebhookEnabled v
      then [bare ''enable-webhooks''] @
        (if WebhookCertDir v \<noteq> '''' then [printed ''webhook-cert-path'' (WebhookCertDir v)] else []) @
        [printed ''webhook-cert-name'' (ChartCertName v), printed ''webhook-key-name'' (ChartKeyName v)]
      else [])"
  by (simp add: chart_args_def printed_def bare_def flag_bool_def)

definition chart_flags :: "chart_values \<Rightarrow> flags" where
  "chart_flags v = default_flags
     \<lparr>EnableLeaderElection := LeaderElectionEnabled v, ProbeAddr := '':'' @ dec_nat (HealthProbePort v),
      BaseDomainFlag := ChartBaseDomain v, IngressTLSSecretFlag := ChartTLSSecret v,
      SMTPSecretFlag := ChartSMTPSecret v, PlatformSecretNamespace := ChartSecretNamespace v,
      MetricsAddr := (if MetricsEnabled v then '':'' @ dec_nat (MetricsPort v) else ''0''),
      SecureMetrics := (MetricsEnabled v \<longrightarrow> MetricsSecure v)\<rparr>"

lemma lookup_key_name: "library_flags lib \<Longrightarrow> lookup_flag lib ''webhook-key-name'' = None"
  by (rule ccontr) (auto simp: lookup_flag_def main_flags_def library_flags_def)

lemma Parse_when:
  assumes "b \<Longrightarrow> Parse lib (xs @ args) f = Parse lib args f1"
  shows "Parse lib ((if b then xs else []) @ args) f = Parse lib args (if b then f1 else f)"
  using assms by simp

lemma Parse_when_printed:
  assumes "CHR ''='' \<notin> set n" "n \<noteq> []" "hd n \<noteq> CHR ''-''" "lookup_flag lib n = Some (StringVar g)"
  shows "Parse lib ((if b then [printed n v] else []) @ args) f = Parse lib args (if b then g v f else f)"
  by (rule Parse_when) (simp add: Parse_printed [OF assms] del: Parse.simps(2))

lemma Parse_when_bare:
  assumes "CHR ''='' \<notin> set n" "n \<noteq> []" "hd n \<noteq> CHR ''-''" "lookup_flag lib n = Some (BoolVar g)"
  shows "Parse lib ((if b then [bare n] else []) @ args) f = Parse lib args (if b then g True f else f)"
  by (rule Parse_when) (simp add: Parse_bare [OF assms] del: Parse.simps(2))

lemma Parse_when_bool:
  assumes "CHR ''='' \<notin> set n" "n \<noteq> []" "hd n \<noteq> CHR ''-''" "lookup_flag lib n = Some (BoolVar g)"
  shows "Parse lib ((if b then [printed n (flag_bool c)] else []) @ args) f = Parse lib args (if b then g c f else f)"
  by (rule Parse_when) (simp add: Parse_printed [OF assms] del: Parse.simps(2))

lemmas parse_rules = Parse_when_printed Parse_when_bool Parse_when_bare Parse_printed Parse_bare Parse_undefined


lemma Parse_chart:
  assumes "library_flags lib"
  shows "Parse lib (chart_args v) default_flags =
    (if WebhookEnabled v then Inl (NotDefined ''webhook-key-name'') else Inr (chart_flags v, []))"
proof -
  have metrics: "(if b then [x, y] else []) @ zs = (if b then [x] else []) @ (if b then [y] else []) @ zs"
    for b and x y :: string and zs by simp
  show ?thesis
  proof (cases "WebhookEnabled v")
    case True
    then show ?thesis
      unfolding chart_args_printed metrics using lookup_key_name [OF assms]
      by (simp add: parse_rules lookup_flag_def main_flags_def del: Parse.simps(2) split del: if_split)
  next
    case False
    have last: "Parse lib (if b then [printed ''metrics-secure'' (flag_bool c)] else []) f =
        Inr (if b then f\<lparr>SecureMetrics := c\<rparr> else f, [])" for b c f
      by (simp add: Parse_printed lookup_flag_def main_flags_def del: Parse.simps(2))
    from False show ?thesis
      unfolding chart_args_printed metrics
      by (simp add: parse_rules last lookup_flag_def main_flags_def del: Parse.simps(2) split del: if_split)
        (simp add: chart_flags_def default_flags_def)
  qed
qed

end
