(* ===== verification/Setup.thy ===== *)
theory Setup
  imports Lifecycle Flags
begin

text \<open>
  The start of the process: \<^verbatim>\<open>cmd/main.go\<close> and \<^verbatim>\<open>SetupWithManager\<close>. The flags are parsed
  by theory Flags; logging is left out, and the libraries behind the calls (manager,
  discovery client, registration with controller-runtime) are parameters that answer from the
  log of the calls so far. What reaches these calls is the model: the options of the manager,
  the reconciler that is registered, the watched kinds.
\<close>

section \<open>Options\<close>

record tlsConfig =
  NextProtos :: "string list"

definition disableHTTP2 :: "tlsConfig \<Rightarrow> tlsConfig" where
  "disableHTTP2 c = c\<lparr>NextProtos := [''http/1.1'']\<rparr>"

definition tlsOpts :: "flags \<Rightarrow> (tlsConfig \<Rightarrow> tlsConfig) list" where
  "tlsOpts f = (if \<not> EnableHTTP2 f then [disableHTTP2] else [])"

record serverCert =
  CertDir :: string
  CertName :: string
  KeyName :: string

definition no_cert :: serverCert where
  "no_cert = \<lparr>CertDir = '''', CertName = '''', KeyName = ''''\<rparr>"

record webhookOptions =
  WebhookTLS :: "(tlsConfig \<Rightarrow> tlsConfig) list"
  WebhookCert :: serverCert

record metricsOptions =
  BindAddress :: string
  SecureServing :: bool
  MetricsTLS :: "(tlsConfig \<Rightarrow> tlsConfig) list"
  AuthFilter :: bool
  MetricsCert :: serverCert

record managerOptions =
  MetricsServer :: metricsOptions
  HealthProbeBindAddress :: string
  LeaderElection :: bool
  LeaderElectionID :: string
  WebhookServer :: "webhookOptions option"

definition secret_namespace :: "(string \<Rightarrow> string) \<Rightarrow> flags \<Rightarrow> string" where
  "secret_namespace getenv f =
     (if PlatformSecretNamespace f = ''''
      then (let ns = getenv ''POD_NAMESPACE'' in if ns = '''' then ''exam-system'' else ns)
      else PlatformSecretNamespace f)"

definition webhook_server :: "flags \<Rightarrow> webhookOptions option" where
  "webhook_server f =
     (if EnableWebhooks f
      then Some \<lparr>WebhookTLS = tlsOpts f,
        WebhookCert = (if length (WebhookCertPath f) > 0
          then \<lparr>CertDir = WebhookCertPath f, CertName = WebhookCertName f, KeyName = WebhookCertKey f\<rparr> else no_cert)\<rparr>
      else None)"

definition metrics_server :: "flags \<Rightarrow> metricsOptions" where
  "metrics_server f =
     \<lparr>BindAddress = MetricsAddr f, SecureServing = SecureMetrics f, MetricsTLS = tlsOpts f,
      AuthFilter = SecureMetrics f,
      MetricsCert = (if length (MetricsCertPath f) > 0
        then \<lparr>CertDir = MetricsCertPath f, CertName = MetricsCertName f, KeyName = MetricsCertKey f\<rparr> else no_cert)\<rparr>"

definition manager_options :: "flags \<Rightarrow> managerOptions" where
  "manager_options f =
     \<lparr>MetricsServer = metrics_server f, HealthProbeBindAddress = ProbeAddr f,
      LeaderElection = EnableLeaderElection f, LeaderElectionID = ''70624ff0.otu.ca'',
      WebhookServer = webhook_server f\<rparr>"

section \<open>The calls of the start\<close>

datatype setup_event =
    SetupManager managerOptions bool
  | SetupDiscovery bool
  | SetupController reconciler "kind list" bool
  | SetupWebhook bool
  | SetupCheck string bool
  | SetupStart bool

text \<open>
  The environment of the process. An error flag is True for an error. The discovery client of
  a failed creation is a nil pointer behind a non-nil interface: what a call on it does (an
  answer or a panic) is a parameter, like the answers of a live client. \<open>env_client\<close> is a
  reconciler with the client of the manager and the process environment; \<^verbatim>\<open>main\<close> sets the rest.
\<close>

type_synonym discovery_call = "string \<Rightarrow> (bool \<times> string list option) go"

record setup_env =
  env_Getenv :: "string \<Rightarrow> string"
  env_NewManager :: "managerOptions \<Rightarrow> bool"
  env_NewDiscovery :: bool
  env_live_discovery :: discovery
  env_nil_discovery :: discovery_call
  env_Complete :: "reconciler \<Rightarrow> kind list \<Rightarrow> bool"
  env_WebhookComplete :: bool
  env_AddCheck :: "string \<Rightarrow> bool"
  env_Start :: bool
  env_client :: reconciler

type_synonym 'a startup = "(setup_event list, 'a) state"

datatype main_end = Exit nat | Crash | Return

definition watched_kinds :: "policyProvider \<Rightarrow> kind list" where
  "watched_kinds p =
     [DeploymentKind, ServiceKind, IngressKind, NetworkPolicyKind] @
     (if p = CiliumPolicyProvider then [CiliumPolicyKind] else [])"

text \<open>The error of \<^verbatim>\<open>SetupWithManager\<close>: of its check, or of the builder.\<close>

definition SetupWithManager :: "setup_env \<Rightarrow> reconciler \<Rightarrow> bool startup" where
  "SetupWithManager v r =
     (case validatePlatformConfig r of
        Some _ \<Rightarrow> ret True
      | None \<Rightarrow>
          (let ks = watched_kinds (PolicyProvider r)
           in ask (\<lambda>h. env_Complete v r ks) (SetupController r ks)))"

definition SetupExamWebhookWithManager :: "setup_env \<Rightarrow> bool startup" where
  "SetupExamWebhookWithManager v = ask (\<lambda>h. env_WebhookComplete v) SetupWebhook"

text \<open>\<^verbatim>\<open>disc == nil\<close> is false for a nil pointer of the client's type, so the call is made.\<close>

definition choose_provider :: "setup_env \<Rightarrow> bool \<Rightarrow> policyProvider go" where
  "choose_provider v failed =
     (if \<not> failed then Returns (SelectPolicyProvider (Some (env_live_discovery v)))
      else case env_nil_discovery v ''cilium.io/v2'' of
             Panics \<Rightarrow> Panics
           | Returns answer \<Rightarrow> Returns (SelectPolicyProvider (Some (\<lambda>_. answer))))"

definition main_reconciler :: "setup_env \<Rightarrow> flags \<Rightarrow> policyProvider \<Rightarrow> reconciler" where
  "main_reconciler v f p = (env_client v)
     \<lparr>Platform := \<lparr>BaseDomain = BaseDomainFlag f, IngressTLSSecretName = IngressTLSSecretFlag f,
        SMTPSecretName = SMTPSecretFlag f, SecretNamespace = secret_namespace (env_Getenv v) f\<rparr>,
      PolicyProvider := p, Sender := NoSender, Now := None, Metrics := True, Checker := NoChecker\<rparr>"

text \<open>The repeated \<^verbatim>\<open>if err := ...; err != nil { os.Exit(1) }\<close>.\<close>

definition or_exit :: "bool startup \<Rightarrow> main_end startup \<Rightarrow> main_end startup" where
  "or_exit m k = do { err \<leftarrow> m; if err then ret (Exit 1) else k }"

definition main_serve :: "setup_env \<Rightarrow> main_end startup" where
  "main_serve v =
     or_exit (ask (\<lambda>h. env_AddCheck v ''healthz'') (SetupCheck ''healthz''))
       (or_exit (ask (\<lambda>h. env_AddCheck v ''readyz'') (SetupCheck ''readyz''))
         (or_exit (ask (\<lambda>h. env_Start v) SetupStart) (ret Return)))"

definition main_run :: "setup_env \<Rightarrow> flags \<Rightarrow> main_end startup" where
  "main_run v f =
     or_exit (ask (\<lambda>h. env_NewManager v (manager_options f)) (SetupManager (manager_options f)))
       (do {
          failed \<leftarrow> ask (\<lambda>h. env_NewDiscovery v) SetupDiscovery;
          case choose_provider v failed of
            Panics \<Rightarrow> ret Crash
          | Returns p \<Rightarrow>
              or_exit (SetupWithManager v (main_reconciler v f p))
                (if EnableWebhooks f then or_exit (SetupExamWebhookWithManager v) (main_serve v) else main_serve v)
        })"

definition main :: "setup_env \<Rightarrow> lib_flags \<Rightarrow> string list \<Rightarrow> main_end startup" where
  "main v lib args =
     (case Parse lib args default_flags of
        Inl err \<Rightarrow> ret (Exit (parse_exit err))
      | Inr (f, _) \<Rightarrow> main_run v f)"

section \<open>Properties\<close>

text \<open>
  C32: every object the controller creates for an instance, its routes included, is of a kind
  that is watched, and the watch leads back to this exam and no other: deleting or changing
  one of them brings the exam into the queue again.
\<close>
theorem instance_objects_watched:
  assumes "x \<in> set (instance_objects (PolicyProvider r) e ns sid s) \<or> x = Ingress e ns sid s bd tls \<or>
      x = IngressAllow (PolicyProvider r) ns (policyLabels e sid s)"
    and "Name e \<noteq> ''''" "Namespace e \<noteq> ''''"
  shows "obj_kind x \<in> set (watched_kinds (PolicyProvider r)) \<and> requestsForOwnedObject x = [(Namespace e, Name e)]"
proof -
  have policy: "obj_kind x \<in> set (watched_kinds p)"
    if "x \<in> {DenyAll p n l, EgressAllowlist p n l, IngressAllow p n l}" for p n l
  proof -
    have "obj_kind x = policy_kind p"
      using that provider.deny_key [of p n l] provider.egress_key [of p n l] provider.ingress_key [of p n l]
      by (auto simp: obj_key_def)
    then show ?thesis by (cases p) (simp_all add: watched_kinds_def)
  qed
  have "obj_kind x \<in> set (watched_kinds (PolicyProvider r))"
    using assms(1) policy [of "PolicyProvider r" ns "policyLabels e sid s"]
    by (auto simp: instance_objects_def watched_kinds_def)
  moreover have "obj_labels x LabelExam = Some (Name e) \<and> obj_labels x LabelExamNamespace = Some (Namespace e)"
    using assms(1) by (auto simp: instance_objects_def provider.policy_labels policyLabels_def)
  ultimately show ?thesis
    using assms(2,3) by (simp add: requestsForOwnedObject_def map_get_def Let_def)
qed

theorem instance_objects_watched_witness:
  "obj_kind (Ingress (sample_exam PhaseReady) ''ns'' ''a'' ''aaaaaaaa'' ''d'' '''') \<in>
     set (watched_kinds (PolicyProvider (sample_reconciler (sample_exam PhaseReady) 0)))"
  using instance_objects_watched [of "Ingress (sample_exam PhaseReady) ''ns'' ''a'' ''aaaaaaaa'' ''d'' ''''"
      "sample_reconciler (sample_exam PhaseReady) 0" "sample_exam PhaseReady" "''ns''" "''a''" "''aaaaaaaa''" "''d''" "''''"]
  by (simp add: sample_exam_def)

text \<open>
  C33: a process that starts its manager has registered exactly one reconciler, with a base
  domain and with a namespace for the platform's secrets that does not depend on the exam;
  the webhook is registered exactly if it is enabled, a failed registration prevents the start,
  the metrics endpoint checks its callers exactly if it is secure, and unless HTTP/2 is asked
  for, the TLS options of both servers leave HTTP/1.1 as the only protocol.
\<close>
theorem started_manager_configured:
  assumes "run_state (main_run v f) [] = (out, es)" "SetupStart failed \<in> set es"
  shows "\<exists>r. {r'. \<exists>ks err. SetupController r' ks err \<in> set es} = {r} \<and>
      SetupController r (watched_kinds (PolicyProvider r)) False \<in> set es \<and> BaseDomain (Platform r) \<noteq> '''' \<and>
      (\<forall>e. platformSecretNamespace r e = secret_namespace (env_Getenv v) f) \<and>
      (SetupWebhook False \<in> set es \<longleftrightarrow> EnableWebhooks f) \<and> SetupWebhook True \<notin> set es \<and>
      (\<exists>opts. SetupManager opts False \<in> set es \<and> (WebhookServer opts \<noteq> None \<longleftrightarrow> EnableWebhooks f) \<and>
         AuthFilter (MetricsServer opts) = SecureMetrics f \<and>
         (\<not> EnableHTTP2 f \<longrightarrow> (\<forall>c. NextProtos (fold id (MetricsTLS (MetricsServer opts)) c) = [''http/1.1''] \<and>
            (\<forall>w. WebhookServer opts = Some w \<longrightarrow> NextProtos (fold id (WebhookTLS w) c) = [''http/1.1'']))))"
proof -
  have ns: "secret_namespace (env_Getenv v) f \<noteq> ''''"
    by (simp add: secret_namespace_def Let_def)
  obtain p where p: "choose_provider v (env_NewDiscovery v) = Returns p"
    using assms by (cases "choose_provider v (env_NewDiscovery v)")
      (auto simp: main_run_def or_exit_def split: if_splits)
  let ?r = "main_reconciler v f p"
  have valid: "BaseDomain (Platform ?r) \<noteq> ''''"
    using assms p
    by (auto simp: main_run_def or_exit_def SetupWithManager_def validatePlatformConfig_def split: if_splits)
  have secret: "\<forall>e. platformSecretNamespace ?r e = secret_namespace (env_Getenv v) f"
    using ns by (simp add: platformSecretNamespace_def main_reconciler_def)
  have opts: "(WebhookServer (manager_options f) \<noteq> None \<longleftrightarrow> EnableWebhooks f) \<and>
      AuthFilter (MetricsServer (manager_options f)) = SecureMetrics f \<and>
      (\<not> EnableHTTP2 f \<longrightarrow> (\<forall>c. NextProtos (fold id (MetricsTLS (MetricsServer (manager_options f))) c) = [''http/1.1''] \<and>
        (\<forall>w. WebhookServer (manager_options f) = Some w \<longrightarrow> NextProtos (fold id (WebhookTLS w) c) = [''http/1.1''])))"
    by (auto simp: manager_options_def webhook_server_def metrics_server_def tlsOpts_def disableHTTP2_def)
  have events: "{r'. \<exists>ks err. SetupController r' ks err \<in> set es} = {?r}"
    "SetupController ?r (watched_kinds (PolicyProvider ?r)) False \<in> set es"
    "SetupWebhook False \<in> set es \<longleftrightarrow> EnableWebhooks f" "SetupWebhook True \<notin> set es"
    "SetupManager (manager_options f) False \<in> set es"
    using assms p valid
    by (auto simp: main_run_def or_exit_def main_serve_def SetupWithManager_def SetupExamWebhookWithManager_def
        validatePlatformConfig_def Let_def split: if_splits)
  show ?thesis
    by (intro exI [of _ ?r] conjI exI [of _ "manager_options f"]) (use events valid secret opts in blast)+
qed


theorem started_manager_configured_witness:
  "\<exists>v es r. run_state (main_run v default_flags) [] = (Return, es) \<and> SetupStart False \<in> set es \<and>
     SetupController r (watched_kinds (PolicyProvider r)) False \<in> set es \<and> BaseDomain (Platform r) \<noteq> ''''"
proof -
  let ?v = "\<lparr>env_Getenv = \<lambda>_. '''', env_NewManager = \<lambda>_. False, env_NewDiscovery = False,
      env_live_discovery = \<lambda>_. (True, None), env_nil_discovery = \<lambda>_. Panics, env_Complete = \<lambda>_ _. False,
      env_WebhookComplete = False, env_AddCheck = \<lambda>_. False, env_Start = False,
      env_client = sample_reconciler (sample_exam PhaseReady) 0\<rparr>"
  obtain es where run: "run_state (main_run ?v default_flags) [] = (Return, es)" "SetupStart False \<in> set es"
    by (simp add: main_run_def or_exit_def main_serve_def SetupWithManager_def validatePlatformConfig_def
        main_reconciler_def choose_provider_def default_flags_def Let_def)
  from started_manager_configured [OF run] obtain r where
    "SetupController r (watched_kinds (PolicyProvider r)) False \<in> set es" "BaseDomain (Platform r) \<noteq> ''''"
    by blast
  with run show ?thesis by blast
qed


text \<open>
  C34: the Helm chart of the repository starts the controller with the configuration of its
  values, but with the webhook enabled it passes the flag \<^verbatim>\<open>--webhook-key-name\<close>, which the program
  does not declare: the process then exits with status 2 before any other step, whatever the
  environment.
\<close>
theorem chart_with_webhook_exits:
  assumes "library_flags lib"
  shows "run_state (main v lib (chart_args c)) es =
    (if WebhookEnabled c then (Exit 2, es) else run_state (main_run v (chart_flags c)) es)"
  by (simp add: main_def Parse_chart [OF assms] parse_exit_def)

theorem chart_with_webhook_exits_witness:
  "\<forall>v. run_state (main v [''kubeconfig'' \<mapsto> LibVar False (\<lambda>_. True)] (chart_args (chart_defaults\<lparr>WebhookEnabled := True\<rparr>))) [] = (Exit 2, [])"
proof -
  have "library_flags [''kubeconfig'' \<mapsto> LibVar False (\<lambda>_. True)]" by (simp add: library_flags_def)
  from chart_with_webhook_exits [OF this, of _ "chart_defaults\<lparr>WebhookEnabled := True\<rparr>"] show ?thesis by simp
qed

end
