(* ===== verification/Scheme.thy ===== *)
theory Scheme
  imports Setup
begin

text \<open>
  What runs before \<^verbatim>\<open>main\<close>: the package variables of \<^verbatim>\<open>api/v1alpha1/groupversion_info.go\<close>, the
  \<^verbatim>\<open>init\<close> functions of \<^verbatim>\<open>exam_types.go\<close> and of \<^verbatim>\<open>cmd/main.go\<close>, in Go's order of package
  initialisation, and the whole process. The builder and the scheme of controller-runtime are
  parameters.
\<close>

section \<open>Package initialisation\<close>

record groupVersion =
  Group :: string
  Version :: string

definition SchemeGroupVersion :: groupVersion where
  "SchemeGroupVersion = \<lparr>Group = ''exam.otu.ca'', Version = ''v1alpha1''\<rparr>"

definition GroupVersion :: groupVersion where
  "GroupVersion = SchemeGroupVersion"

text \<open>The libraries: a builder collects Go types for a group and version. True is an error.\<close>

record ('b, 's) scheme_lib =
  lib_Builder :: "groupVersion \<Rightarrow> 'b"
  lib_Register :: "'b \<Rightarrow> string list \<Rightarrow> 'b"
  lib_AddToScheme :: "'b \<Rightarrow> 's \<Rightarrow> bool \<times> 's"
  lib_NewScheme :: 's
  clientgo_AddToScheme :: "'s \<Rightarrow> bool \<times> 's"

text \<open>
  The variable \<^verbatim>\<open>SchemeBuilder\<close> is a pointer, so the method value \<^verbatim>\<open>AddToScheme\<close>, although
  taken before any \<^verbatim>\<open>init\<close> runs, reads the builder when it is called.
\<close>

record ('b, 's) package_vars =
  SchemeBuilder :: 'b
  AddToScheme :: "'b \<Rightarrow> 's \<Rightarrow> bool \<times> 's"

definition v1alpha1_vars :: "('b, 's) scheme_lib \<Rightarrow> ('b, 's) package_vars" where
  "v1alpha1_vars L = \<lparr>SchemeBuilder = lib_Builder L SchemeGroupVersion, AddToScheme = lib_AddToScheme L\<rparr>"

definition v1alpha1_init :: "('b, 's) scheme_lib \<Rightarrow> ('b, 's) package_vars \<Rightarrow> ('b, 's) package_vars" where
  "v1alpha1_init L p = p\<lparr>SchemeBuilder := lib_Register L (SchemeBuilder p) [''Exam'', ''ExamList'']\<rparr>"

definition Must :: "bool \<times> 's \<Rightarrow> 's go" where
  "Must res = (case res of (err, s) \<Rightarrow> if err then Panics else Returns s)"

definition main_init :: "('b, 's) scheme_lib \<Rightarrow> ('b, 's) package_vars \<Rightarrow> 's go" where
  "main_init L p =
     (case Must (clientgo_AddToScheme L (lib_NewScheme L)) of
        Panics \<Rightarrow> Panics
      | Returns s \<Rightarrow> Must (AddToScheme p (SchemeBuilder p) s))"

definition program_init :: "('b, 's) scheme_lib \<Rightarrow> 's go" where
  "program_init L = main_init L (v1alpha1_init L (v1alpha1_vars L))"

section \<open>The process\<close>

definition process :: "('b, 's) scheme_lib \<Rightarrow> setup_env \<Rightarrow> lib_flags \<Rightarrow> string list \<Rightarrow> main_end startup" where
  "process L v lib args =
     (case program_init L of Panics \<Rightarrow> ret Crash | Returns _ \<Rightarrow> main v lib args)"

section \<open>The scheme of a running process\<close>

text \<open>
  What is documented: \<^verbatim>\<open>Register\<close> adds types to a builder, \<^verbatim>\<open>AddToScheme\<close> makes a scheme
  recognise the types of the builder under its group and version and forgets none; the
  function of client-go does so for the kinds of Kubernetes.
\<close>

definition scheme_docs :: "('b, 's) scheme_lib \<Rightarrow> ('b \<Rightarrow> (groupVersion \<times> string) set) \<Rightarrow> ('b \<Rightarrow> groupVersion) \<Rightarrow>
    ('s \<Rightarrow> (groupVersion \<times> string) set) \<Rightarrow> (groupVersion \<times> string) set \<Rightarrow> bool" where
  "scheme_docs L types gv known core \<longleftrightarrow>
     (\<forall>g. gv (lib_Builder L g) = g) \<and>
     (\<forall>b xs. gv (lib_Register L b xs) = gv b \<and> types (lib_Register L b xs) = types b \<union> Pair (gv b) ` set xs) \<and>
     (\<forall>b s s'. lib_AddToScheme L b s = (False, s') \<longrightarrow> known s \<union> types b \<subseteq> known s') \<and>
     (\<forall>s s'. clientgo_AddToScheme L s = (False, s') \<longrightarrow> known s \<union> core \<subseteq> known s')"

lemma program_init_knows:
  assumes "scheme_docs L types gv known core" "program_init L = Returns s"
  shows "core \<union> {(GroupVersion, ''Exam''), (GroupVersion, ''ExamList'')} \<subseteq> known s"
proof -
  let ?b = "lib_Register L (lib_Builder L SchemeGroupVersion) [''Exam'', ''ExamList'']"
  obtain s1 where s1: "clientgo_AddToScheme L (lib_NewScheme L) = (False, s1)" "lib_AddToScheme L ?b s1 = (False, s)"
    using assms(2)
    by (auto simp: program_init_def main_init_def v1alpha1_init_def v1alpha1_vars_def Must_def split: prod.splits if_splits go.splits)
  have "{(GroupVersion, ''Exam''), (GroupVersion, ''ExamList'')} \<subseteq> types ?b"
    using assms(1) by (auto simp: scheme_docs_def GroupVersion_def)
  with assms(1) s1 show ?thesis unfolding scheme_docs_def by blast
qed

text \<open>
  A process that starts its manager has passed the initialisation and the command line, and its
  scheme recognises the kinds of Kubernetes and, in group \<^verbatim>\<open>exam.otu.ca/v1alpha1\<close>, the exam and
  its list; the rest of its run is that of \<open>main_run\<close> on the flags it read.
\<close>
theorem started_process:
  assumes "scheme_docs L types gv known core" "run_state (process L v lib args) [] = (out, es)" "SetupStart failed \<in> set es"
  shows "\<exists>s f rest. program_init L = Returns s \<and>
    core \<union> {(GroupVersion, ''Exam''), (GroupVersion, ''ExamList'')} \<subseteq> known s \<and>
    Parse lib args default_flags = Inr (f, rest) \<and> run_state (main_run v f) [] = (out, es)"
proof (cases "program_init L")
  case Panics
  with assms(2,3) show ?thesis by (simp add: process_def)
next
  case (Returns s)
  with program_init_knows [OF assms(1)] assms(2,3) show ?thesis
    by (auto simp: process_def main_def split: sum.splits prod.splits)
qed

end
