(* ===== verification/Spec2Isabelle.thy ===== *)
theory Spec2Isabelle
  imports Prelude GoTime GoCrypto ExamTypes Slug Namespace Notifier Resources NetworkPolicy Schedule
    Environment Metrics Smoketest Mailer Instances Operations Phases Controller Webhook Footprint
    Lifecycle Scenario Guarantees Records Outcomes Cluster Rounds Readiness Mailing Deployed Traffic MetricSeries GoHeap
    DeepCopy Flags Setup Scheme
begin

text \<open>
  A verification development of the exam controller, a Kubernetes operator in Go. The
  controller watches Exam resources and takes each through Pending, Provisioning, Ready,
  Unlocked, Locked and TearingDown by the clock: it creates one isolated instance per student
  and spare, mails the URLs, runs a dry run, opens the routes at the unlock time, closes them
  at the lock time, and deletes everything after the retention time. A validating webhook
  guards the specification.

  \<^bold>\<open>Programs and theories.\<close>
  \<^item> Prelude: decimal printing and the program logic. Effectful code is a state monad over a
    log of events; the judgement \<open>runs\<close> says what a program appends to the log and returns,
    \<open>emits\<close> is its everyday instance with one rule per construct (collection \<open>emit_rules\<close>).
  \<^item> GoTime, GoCrypto: what the code uses of Go's standard library: times in nanoseconds,
    64-bit durations with wrap-around, saturating subtraction, IEEE doubles as rationals with
    rounding and the special values, \<^verbatim>\<open>strconv.Atoi\<close>; SHA-256, hexadecimal, \<^verbatim>\<open>rand.Int\<close>.
  \<^item> ExamTypes: \<^verbatim>\<open>api/v1alpha1/exam_types.go\<close>, struct by struct. GoHeap: Go's memory with pointers
    and slices; DeepCopy: \<^verbatim>\<open>zz_generated.deepcopy.go\<close> over it. The structs as they lie in memory
    denote the records of ExamTypes.
  \<^item> Webhook: \<^verbatim>\<open>exam_webhook.go\<close>: \<open>validateFields\<close>, \<open>ValidateCreate\<close>, \<open>ValidateUpdate\<close>.
  \<^item> Slug, Notifier, Resources, NetworkPolicy, Metrics, Smoketest: the packages \<^verbatim>\<open>slug\<close>,
    \<^verbatim>\<open>notifier\<close>, \<^verbatim>\<open>provisioner\<close>, \<^verbatim>\<open>network\<close> with \<^verbatim>\<open>provider\<close>, \<^verbatim>\<open>metrics\<close> and \<^verbatim>\<open>smoketest\<close>
    under \<^verbatim>\<open>internal\<close>. The interfaces \<^verbatim>\<open>Sender\<close>, \<^verbatim>\<open>PolicyProvider\<close> and \<^verbatim>\<open>HealthChecker\<close> are
    locales, interpreted on every implementation the code has.
  \<^item> Environment: the record \<open>reconciler\<close> is the struct \<^verbatim>\<open>ExamReconciler\<close> with its client, and
    with the clock, the random source, SMTP and HTTP of the process. Each of these is a function
    that answers a call from the log so far, so it may be any server with any failures.
  \<^item> Schedule, Namespace, Mailer, Instances, Operations, Phases, Controller:
    \<^verbatim>\<open>internal/controller/exam_controller.go\<close> from its pure helpers to \<open>Reconcile\<close>. A handler
    returns the exam it leaves, the delay of the next pass and its error; \<open>Panics\<close> is a nil
    dereference or an index out of range. Long functions are split at their comments.
  \<^item> Flags, Setup: \<^verbatim>\<open>cmd/main.go\<close> from the command line to its exits, and \<^verbatim>\<open>SetupWithManager\<close>.
    Flags holds the declared flags, Go's package \<^verbatim>\<open>flag\<close> that parses them, and the arguments of
    the Helm chart's \<^verbatim>\<open>deployment.yaml\<close>. Scheme: \<^verbatim>\<open>groupversion_info.go\<close> and the \<^verbatim>\<open>init\<close> functions
    that run before \<^verbatim>\<open>main\<close>.
  \<^item> Footprint, Lifecycle: what each operation may write (\<open>footprint\<close>), the shapes of a pass
    (\<open>pass_shape\<close>), and the step relation \<open>lifecycle\<close> of one stored exam: passes in any
    environment that serves the stored exam, updates the webhook accepts, deletion. \<open>reachable\<close>
    are the states from creation on, \<open>punctual\<close> their invariant.
  \<^item> SampleExam, Sample, Scenario: concrete exams, environments and runs for the witnesses.
  \<^item> Guarantees, Records, Outcomes, Readiness, Cluster, Deployed, Traffic, MetricSeries, Rounds,
    Mailing: the properties of passes, of the student records over the lifecycle, of the
    operations, of the entry into Ready, of the contents of the cluster (after drift correction,
    then after provisioning), of the traffic under the stored policies, of the metric series, of
    sequences of passes, and of the mails of whole histories (\<open>history\<close>).

  \<^bold>\<open>What the theorems show.\<close>
  \<^item> Lifecycle: no step moves the stage back, no stage begins before its time, routes are opened
    only after unlock, an overdue exam is wound down by every completed pass, no pass over a
    reachable exam panics, no phase is slept through (Guarantees, Outcomes). The phase the clock
    asks for refines the abstract timetable \<open>stage\<close> (Schedule).
  \<^item> Isolation: a pass writes only to its own namespace (Guarantees). Against a truthful API
    server the drift correction asks for exactly the reference list of requests and is
    idempotent (Cluster). Under the policies stored after a pass whose calls went through, and
    apart from what policies of others allow, nothing reaches an instance of a Locked exam,
    the ingress controller and nothing else reaches one of an Unlocked exam, and an instance reaches the
    cluster's DNS only, with both policy providers; with Cilium the opening depends on what an
    empty deny rule means (Traffic).
  \<^item> Provisioning: after a pass the record of a student says Provisioned only if its objects are
    in the cluster and Failed only if one was refused; each spare had a turn of its own that
    either put its objects in place and recorded it or met a refusal (Deployed).
    The exam becomes Ready exactly if the last listing of the pass was healthy (Readiness).
  \<^item> Students: in every reachable status the records stand in order for the first students of
    the specification, for all of them from Ready on, each with a slug that never changes, not
    even by failed or repeated provisioning (Records). From Ready on records only settle; a
    pass writes to one student at most, the first pending one, and only in Ready (Outcomes);
    k pending mails are settled by k passes (Rounds); over a whole history the students are
    written to in their order and at most once each, unless a status write was refused, and
    then the mail is sent again (Mailing).
  \<^item> Deletion and orphans: the finalizer stays until the namespace is deleted; only orphans are
    cleaned up, and all of them (Outcomes). A pass touches the metric series of its exam only,
    and a teardown leaves none of them (MetricSeries).
  \<^item> Aliasing: a deep copy of an exam denotes the same exam and shares no memory with it, so the
    model may treat exams as values (DeepCopy).
  \<^item> Pure code: schedule arithmetic, the webhook's checks, namespace names, slugs, messages,
    retries, resources, the command line.
  \<^item> Flaws: dotted exam names, duplicate student ids, durations without an upper bound, spares that share
    a slug, a dry run that contradicts itself, a chart whose webhook option passes a flag that
    does not exist; each is a theorem about the code as it is.

  \<^bold>\<open>Bounds.\<close> Every loop is structural recursion over a list of the exam, of a listing or of
  an interval of indices, except \<^verbatim>\<open>rand.Int\<close>'s rejection loop, which ends because it consumes
  its bytes (reading past their end is the reader's error), and the loop over the retries, which
  recurses on the attempts left. No fuel is used. The wake-up theorem assumes that the end of
  the phase is less than 292 years away, where the subtraction of times saturates.

  \<^bold>\<open>Assumptions on code outside the repository\<close>, each a named hypothesis: \<open>api_laws\<close> (a read
  returns the object of its key, a listing what was asked for), \<open>condition_api\<close> (setting a
  condition), \<open>serves\<close> and \<open>clock_within\<close> (a pass sees the stored exam, the clock does not run
  backwards), \<open>truthful\<close> (the server's answers agree with its store, which no one but the
  controller changes during a pass), \<open>own_names\<close> (what lies under the names of an exam's policies
  is these policies), \<open>over_network\<close> (HTTP answers that depend on the URL alone), \<open>deep_copies\<close> (the deep
  copies of \<^verbatim>\<open>metav1\<close> and \<^verbatim>\<open>corev1\<close> are deep copies), \<open>library_flags\<close> (the names of the flags that
  imported packages declare), \<open>scheme_docs\<close> (the scheme builder). Witnesses meet all those that a
  property assumes.

  \<^bold>\<open>Not modelled.\<close> Passes over one exam are serial, as controller-runtime runs them, so there is
  no interleaving of two passes. Logging, contexts and cancellation, the JSON coding of objects
  (times are exact here; the server stores them in whole seconds), the registration of metrics
  with Prometheus are left out. The datapath that enforces the policies is the documented
  semantics of NetworkPolicies and CiliumNetworkPolicies; what the documentation of Cilium leaves
  open (an empty deny rule, the name cache) is a parameter (\<open>datapath\<close>), and its HTTP rules are
  not modelled. The value of a float out of the 64-bit range converted to an integer is left open.
  Of Kubernetes objects the records hold the fields that
  the program sets or reads. What the cluster does by itself (starting pods, emptying a deleted
  namespace) shows only in the answers of later calls.
\<close>

end
